(* ===== verification/Fz_Prelude.thy ===== *)
theory Fz_Prelude
  imports Main "HOL-Library.Word"
begin

text \<open>
  Shared ground of the development: the machine integer types of the C and C++ sources, the
  theorem collections the component theories feed, the interfaces of wire codecs as locales,
  and the generic facts on lists, words and folds that the component proofs share.
\<close>

unbundle bit_operations_syntax

section \<open>Machine integers and collections\<close>

type_synonym u8 = "8 word"
type_synonym u16 = "16 word"
type_synonym u32 = "32 word"
type_synonym u64 = "64 word"
type_synonym bytes = "u8 list"

named_theorems wire "evaluation rules for the byte layouts of packets"
named_theorems frame "what an operation leaves unchanged"
named_theorems keeps "an operation preserves an invariant"

section \<open>Interfaces of wire formats\<close>

text \<open>
  A fixed-width little-endian field: what the helpers \<open>fz_put*\<close> write and \<open>fz_u*\<close> read.
\<close>

locale le_field =
  fixes put :: "'v \<Rightarrow> bytes"
    and get :: "bytes \<Rightarrow> 'v"
    and width :: nat
  assumes length_put: "length (put v) = width"
    and get_put: "get (put v @ r) = v"
    and put_get: "width \<le> length b \<Longrightarrow> put (get b) = take width b"
begin

lemma put_inj: "put v = put w \<longleftrightarrow> v = w"
  by (metis get_put)

lemma get_put_exact: "get (put v) = v"
  using get_put [of v "[]"] by simp

lemma get_skip: "length pre = n \<Longrightarrow> get (drop n (pre @ put v @ r)) = v"
  by (simp add: get_put)

lemma get_prefix: "width \<le> length b \<Longrightarrow> get (take width b) = get b"
  by (metis get_put_exact put_get)

lemma get_eq_iff: "width \<le> length b \<Longrightarrow> get b = v \<longleftrightarrow> take width b = put v"
  by (metis get_prefix get_put_exact put_get)

end

text \<open>
  A message format: an encoder and a partial decoder that are inverse to each other on the
  messages in canonical form.
\<close>

locale wire_codec =
  fixes enc :: "'m \<Rightarrow> bytes"
    and dec :: "bytes \<Rightarrow> 'm option"
    and canon :: "'m \<Rightarrow> bool"
  assumes dec_enc: "canon m \<Longrightarrow> dec (enc m) = Some m"
    and enc_dec: "dec b = Some m \<Longrightarrow> canon m \<and> enc m = b"
begin

lemma dec_iff: "dec b = Some m \<longleftrightarrow> canon m \<and> enc m = b"
  using dec_enc enc_dec by blast

lemma enc_inj: "canon m \<Longrightarrow> canon n \<Longrightarrow> enc m = enc n \<longleftrightarrow> m = n"
  by (metis dec_enc option.inject)

lemma dec_inj: "dec b = Some m \<Longrightarrow> dec c = Some m \<Longrightarrow> b = c"
  using enc_dec by blast

lemma dec_None_iff: "dec b = None \<longleftrightarrow> b \<notin> enc ` Collect canon"
proof
  assume "dec b = None"
  then show "b \<notin> enc ` Collect canon"
    by (auto simp: dec_enc)
next
  assume b: "b \<notin> enc ` Collect canon"
  show "dec b = None"
  proof (cases "dec b")
    case (Some m)
    then have "canon m" and "enc m = b"
      using enc_dec by blast+
    with b show ?thesis by blast
  qed
qed

end

section \<open>Words built from halves\<close>

lemma word_join_split:
  fixes v :: "'c::len word"
  assumes "LENGTH('c) = LENGTH('a) + LENGTH('a)"
  shows "ucast (ucast v :: 'a::len word)
    OR push_bit (LENGTH('a)) (ucast (ucast (drop_bit (LENGTH('a)) v) :: 'a word)) = v"
  by (rule bit_word_eqI) (use assms in \<open>auto simp: bit_simps\<close>)

lemma word_split_join_lo:
  fixes a b :: "'a::len word"
  assumes "LENGTH('c::len) = LENGTH('a) + LENGTH('a)"
  shows "ucast ((ucast a :: 'c word) OR push_bit (LENGTH('a)) (ucast b)) = a"
  by (rule bit_word_eqI) (use assms in \<open>auto simp: bit_simps\<close>)

lemma word_split_join_hi:
  fixes a b :: "'a::len word"
  assumes "LENGTH('c::len) = LENGTH('a) + LENGTH('a)"
  shows "ucast (drop_bit (LENGTH('a)) ((ucast a :: 'c word) OR push_bit (LENGTH('a)) (ucast b))) = b"
  by (rule bit_word_eqI) (use assms in \<open>auto simp: bit_simps dest: bit_imp_le_length\<close>)

lemma u8_le_4_cases:
  assumes "(w :: u8) \<le> 4"
  shows "w = 0 \<or> w = 1 \<or> w = 2 \<or> w = 3 \<or> w = 4"
  using assms unfolding word_unat_eq_iff word_le_nat_alt by auto

section \<open>Cutting buffers\<close>

lemma drop_split: "m = n + k \<Longrightarrow> take k (drop n b) @ drop m b = drop n b"
  by (metis add.commute append_take_drop_id drop_drop)

lemma nth_Cons_drop: "n < length b \<Longrightarrow> m = Suc n \<Longrightarrow> b ! n # drop m b = drop n b"
  by (simp add: Cons_nth_drop_Suc)

text \<open>The last \<open>n\<close> elements of a list.\<close>

definition newest :: "nat \<Rightarrow> 'a list \<Rightarrow> 'a list" where
  "newest n xs = drop (length xs - n) xs"

lemma newest_rev: "newest n xs = rev (take n (rev xs))"
  by (simp add: newest_def rev_take)

lemma newest_newest_append: "newest n (newest n xs @ ys) = newest n (xs @ ys)"
  by (simp add: newest_rev min_def)

lemma newest_all [simp]: "length xs \<le> n \<Longrightarrow> newest n xs = xs"
  by (simp add: newest_def)

lemma newest_append_short: "length ys \<le> n \<Longrightarrow> \<exists>old. newest n (xs @ ys) = old @ ys"
  by (simp add: newest_def)

lemma fold_fixed: "(\<And>x. x \<in> set xs \<Longrightarrow> f x s = s) \<Longrightarrow> fold f xs s = s"
  by (induction xs) simp_all

section \<open>The four player slots\<close>

text \<open>Every array of players has four entries and every loop over it runs \<open>i = 0, 1, 2, 3\<close>.\<close>

lemma upt_4: "[0..<4] = [0, 1, 2, 3 :: nat]"
  by (simp add: upt_rec)

lemma all_less_4: "(\<forall>i<4. P i) \<longleftrightarrow> P 0 \<and> P 1 \<and> P 2 \<and> P (3::nat)"
  by (auto simp: less_Suc_eq numeral_eq_Suc)

lemma ex_less_4: "(\<exists>i<4. P i) \<longleftrightarrow> P 0 \<or> P 1 \<or> P 2 \<or> P (3::nat)"
  by (auto simp: less_Suc_eq numeral_eq_Suc)

lemma length_4_cases:
  assumes "length xs = 4"
  obtains a b c d where "xs = [a, b, c, d]"
proof -
  from assms have "\<exists>a b c d. xs = [a, b, c, d]"
    by (auto simp: length_Suc_conv numeral_eq_Suc)
  with that show thesis by blast
qed

lemma map_nth_4: "length xs = 4 \<Longrightarrow> map (\<lambda>i. xs ! i) [0..<4] = xs"
  by (metis map_nth)

lemma nth_update_cases:
  "i < length xs \<Longrightarrow> (xs[j := v]) ! i = (if i = j then v else xs ! i)"
  by simp

lemma find_Some_least:
  "find P [0..<n] = Some i \<longleftrightarrow> i < n \<and> P i \<and> (\<forall>j<i. \<not> P j)"
  by (auto simp: find_Some_iff)

lemma find_None_upt: "find P [0..<n] = None \<longleftrightarrow> (\<forall>j<n. \<not> P j)"
  by (auto simp: find_None_iff)

end
