(* ===== verification/Fz_Protocol.thy ===== *)
theory Fz_Protocol
  imports Fz_Prelude
begin

text \<open>
  The wire protocol of \<^verbatim>\<open>shared/fzvs_protocol.h\<close>: the little-endian field helpers, the serial
  number comparison, the packet structure, its encoder and decoder, and the name tables. A
  pointer into a buffer is the list of the bytes from there on, and a \<open>fz_put*\<close> helper is the
  list of the bytes it stores.
\<close>

section \<open>Constants\<close>

abbreviation (input) FZ_VERSION :: u8 where "FZ_VERSION \<equiv> 1"
abbreviation (input) FZ_HEADER :: nat where "FZ_HEADER \<equiv> 36"
abbreviation (input) FZ_MAX_PACKET :: nat where "FZ_MAX_PACKET \<equiv> 256"
abbreviation (input) FZ_PAYLOAD :: nat where "FZ_PAYLOAD \<equiv> 220"
abbreviation (input) FZ_SNAPSHOT_SIZE :: nat where "FZ_SNAPSHOT_SIZE \<equiv> 88"
abbreviation (input) FZ_KEY_MAX :: nat where "FZ_KEY_MAX \<equiv> 64"

abbreviation (input) FZ_HELLO :: u8 where "FZ_HELLO \<equiv> 1"
abbreviation (input) FZ_WELCOME :: u8 where "FZ_WELCOME \<equiv> 2"
abbreviation (input) FZ_COMMAND :: u8 where "FZ_COMMAND \<equiv> 3"
abbreviation (input) FZ_STATE :: u8 where "FZ_STATE \<equiv> 4"
abbreviation (input) FZ_SNAPSHOT :: u8 where "FZ_SNAPSHOT \<equiv> 5"
abbreviation (input) FZ_PING :: u8 where "FZ_PING \<equiv> 6"
abbreviation (input) FZ_PONG :: u8 where "FZ_PONG \<equiv> 7"
abbreviation (input) FZ_ERROR :: u8 where "FZ_ERROR \<equiv> 8"
abbreviation (input) FZ_JOIN_REJECT :: u8 where "FZ_JOIN_REJECT \<equiv> 9"
abbreviation (input) FZ_ROOM_CLOSED :: u8 where "FZ_ROOM_CLOSED \<equiv> 10"

abbreviation (input) FZ_REJECT_PASSWORD :: u8 where "FZ_REJECT_PASSWORD \<equiv> 1"
abbreviation (input) FZ_REJECT_FULL :: u8 where "FZ_REJECT_FULL \<equiv> 2"
abbreviation (input) FZ_REJECT_RACING :: u8 where "FZ_REJECT_RACING \<equiv> 3"
abbreviation (input) FZ_REJECT_STARTING :: u8 where "FZ_REJECT_STARTING \<equiv> 4"
abbreviation (input) FZ_REJECT_VERSION :: u8 where "FZ_REJECT_VERSION \<equiv> 5"

abbreviation (input) FZ_SELECT :: u8 where "FZ_SELECT \<equiv> 1"
abbreviation (input) FZ_LOADED :: u8 where "FZ_LOADED \<equiv> 2"
abbreviation (input) FZ_ARM :: u8 where "FZ_ARM \<equiv> 3"
abbreviation (input) FZ_FINISH :: u8 where "FZ_FINISH \<equiv> 4"
abbreviation (input) FZ_NEXT :: u8 where "FZ_NEXT \<equiv> 5"
abbreviation (input) FZ_CONFIG :: u8 where "FZ_CONFIG \<equiv> 6"
abbreviation (input) FZ_LEAVE :: u8 where "FZ_LEAVE \<equiv> 7"

abbreviation (input) FZ_LOBBY :: u8 where "FZ_LOBBY \<equiv> 0"
abbreviation (input) FZ_LOADING :: u8 where "FZ_LOADING \<equiv> 1"
abbreviation (input) FZ_COUNTDOWN :: u8 where "FZ_COUNTDOWN \<equiv> 2"
abbreviation (input) FZ_RACING :: u8 where "FZ_RACING \<equiv> 3"
abbreviation (input) FZ_RESULTS :: u8 where "FZ_RESULTS \<equiv> 4"

abbreviation (input) FZ_EMPTY :: u8 where "FZ_EMPTY \<equiv> 0"
abbreviation (input) FZ_JOINED :: u8 where "FZ_JOINED \<equiv> 1"
abbreviation (input) FZ_SELECTED :: u8 where "FZ_SELECTED \<equiv> 2"
abbreviation (input) FZ_PLAYER_LOADED :: u8 where "FZ_PLAYER_LOADED \<equiv> 3"
abbreviation (input) FZ_PLAYER_RACING :: u8 where "FZ_PLAYER_RACING \<equiv> 4"
abbreviation (input) FZ_FINISHED :: u8 where "FZ_FINISHED \<equiv> 5"
abbreviation (input) FZ_DISCONNECTED :: u8 where "FZ_DISCONNECTED \<equiv> 6"

section \<open>Little-endian fields\<close>

definition fz_u16 :: "bytes \<Rightarrow> u16" where
  "fz_u16 p = ucast (p ! 0) OR push_bit 8 (ucast (p ! 1))"

definition fz_u32 :: "bytes \<Rightarrow> u32" where
  "fz_u32 p = ucast (fz_u16 p) OR push_bit 16 (ucast (fz_u16 (drop 2 p)))"

definition fz_u64 :: "bytes \<Rightarrow> u64" where
  "fz_u64 p = ucast (fz_u32 p) OR push_bit 32 (ucast (fz_u32 (drop 4 p)))"

definition fz_put16 :: "u16 \<Rightarrow> bytes" where
  "fz_put16 v = [ucast v, ucast (drop_bit 8 v)]"

definition fz_put32 :: "u32 \<Rightarrow> bytes" where
  "fz_put32 v = fz_put16 (ucast v) @ fz_put16 (ucast (drop_bit 16 v))"

definition fz_put64 :: "u64 \<Rightarrow> bytes" where
  "fz_put64 v = fz_put32 (ucast v) @ fz_put32 (ucast (drop_bit 32 v))"

text \<open>Serial number comparison: \<open>a\<close> is newer than \<open>b\<close> when it is less than half the circle ahead.\<close>

definition fz_newer :: "u32 \<Rightarrow> u32 \<Rightarrow> bool" where
  "fz_newer a b \<longleftrightarrow> a \<noteq> b \<and> a - b < 0x80000000"

section \<open>Packets\<close>

record fz_packet =
  pk_type :: u8
  pk_length :: u16
  pk_session :: u64
  pk_token :: u64
  pk_race :: u32
  pk_seq :: u32
  pk_ack :: u32
  pk_payload :: bytes

text \<open>\<open>fz_packet p={0}\<close>, with the payload's leading bytes given.\<close>

definition zero_packet :: fz_packet where
  "zero_packet = \<lparr>pk_type = 0, pk_length = 0, pk_session = 0, pk_token = 0,
     pk_race = 0, pk_seq = 0, pk_ack = 0, pk_payload = replicate FZ_PAYLOAD 0\<rparr>"

definition fill :: "bytes \<Rightarrow> bytes" where
  "fill b = b @ replicate (FZ_PAYLOAD - length b) 0"

definition FZVS :: bytes where
  "FZVS = [0x46, 0x5A, 0x56, 0x53]"

text \<open>The bytes stored in \<open>out\<close>; their number is the returned size, none when the call returns 0.\<close>

definition fz_encode :: "nat \<Rightarrow> fz_packet \<Rightarrow> bytes" where
  "fz_encode capacity p =
     (let size = FZ_HEADER + unat (pk_length p)
      in if unat (pk_length p) > FZ_PAYLOAD \<or> capacity < size
            \<or> pk_type p < FZ_HELLO \<or> pk_type p > FZ_ROOM_CLOSED then []
         else FZVS @ [FZ_VERSION, pk_type p] @ fz_put16 (pk_length p)
           @ fz_put64 (pk_session p) @ fz_put32 (pk_race p) @ fz_put32 (pk_seq p)
           @ fz_put32 (pk_ack p) @ fz_put64 (pk_token p)
           @ take (unat (pk_length p)) (pk_payload p))"

definition fz_decode :: "bytes \<Rightarrow> fz_packet option" where
  "fz_decode b =
     (if length b < FZ_HEADER \<or> length b > FZ_MAX_PACKET \<or> take 4 b \<noteq> FZVS
         \<or> b ! 4 \<noteq> FZ_VERSION \<or> b ! 5 < FZ_HELLO \<or> b ! 5 > FZ_ROOM_CLOSED
         \<or> unat (fz_u16 (drop 6 b)) \<noteq> length b - FZ_HEADER then None
      else Some \<lparr>pk_type = b ! 5, pk_length = fz_u16 (drop 6 b),
        pk_session = fz_u64 (drop 8 b), pk_token = fz_u64 (drop 28 b),
        pk_race = fz_u32 (drop 16 b), pk_seq = fz_u32 (drop 20 b), pk_ack = fz_u32 (drop 24 b),
        pk_payload = fill (take (unat (fz_u16 (drop 6 b))) (drop FZ_HEADER b))\<rparr>)"

section \<open>Names\<close>

definition fz_phase_name :: "nat \<Rightarrow> string" where
  "fz_phase_name n =
     (if n < 5 then [''lobby'', ''loading'', ''countdown'', ''racing'', ''results''] ! n
      else ''invalid'')"

definition fz_status_name :: "nat \<Rightarrow> string" where
  "fz_status_name n =
     (if n < 7 then [''empty'', ''joined'', ''selected'', ''loaded'', ''racing'', ''finished'',
        ''disconnected''] ! n
      else ''invalid'')"

definition fz_car_name :: "nat \<Rightarrow> string" where
  "fz_car_name n =
     (if n < 4 then [''Blue Falcon'', ''Wild Goose'', ''Golden Fox'', ''Fire Stingray''] ! n
      else ''unknown'')"

definition fz_selected_car_name :: "nat \<Rightarrow> nat \<Rightarrow> string" where
  "fz_selected_car_name status car =
     (if unat FZ_SELECTED \<le> status \<and> status \<le> unat FZ_FINISHED then fz_car_name car
      else ''Machine not selected'')"

definition fz_player_color :: "nat \<Rightarrow> string" where
  "fz_player_color player =
     (if player < 4 then [''Pink'', ''Blue'', ''Green'', ''Yellow''] ! player else ''Unknown'')"

section \<open>Fields round trip\<close>

interpretation le16: le_field fz_put16 fz_u16 2
proof unfold_locales
  fix v :: u16 and r
  show "fz_u16 (fz_put16 v @ r) = v"
    using word_join_split [where 'a = 8, of v] by (simp add: fz_u16_def fz_put16_def)
next
  fix b :: bytes
  assume "2 \<le> length b"
  then obtain x y r where b: "b = x # y # r"
    by (cases b; cases "tl b") auto
  show "fz_put16 (fz_u16 b) = take 2 b"
    using word_split_join_lo [where 'c = 16, of x y] word_split_join_hi [where 'c = 16, of x y]
    by (simp add: b fz_u16_def fz_put16_def)
qed (simp add: fz_put16_def)

interpretation le32: le_field fz_put32 fz_u32 4
proof unfold_locales
  fix v :: u32 and r
  show "fz_u32 (fz_put32 v @ r) = v"
    using word_join_split [where 'a = 16, of v]
    by (simp add: fz_u32_def fz_put32_def le16.get_put le16.length_put)
next
  fix b :: bytes
  assume "4 \<le> length b"
  then show "fz_put32 (fz_u32 b) = take 4 b"
    using word_split_join_lo [where 'c = 32, of "fz_u16 b" "fz_u16 (drop 2 b)"]
      word_split_join_hi [where 'c = 32, of "fz_u16 b" "fz_u16 (drop 2 b)"] take_add [of 2 2 b]
    by (simp add: fz_u32_def fz_put32_def le16.put_get)
qed (simp add: fz_put32_def le16.length_put)

interpretation le64: le_field fz_put64 fz_u64 8
proof unfold_locales
  fix v :: u64 and r
  show "fz_u64 (fz_put64 v @ r) = v"
    using word_join_split [where 'a = 32, of v]
    by (simp add: fz_u64_def fz_put64_def le32.get_put le32.length_put)
next
  fix b :: bytes
  assume "8 \<le> length b"
  then show "fz_put64 (fz_u64 b) = take 8 b"
    using word_split_join_lo [where 'c = 64, of "fz_u32 b" "fz_u32 (drop 4 b)"]
      word_split_join_hi [where 'c = 64, of "fz_u32 b" "fz_u32 (drop 4 b)"] take_add [of 4 4 b]
    by (simp add: fz_u64_def fz_put64_def le32.put_get)
qed (simp add: fz_put64_def le32.length_put)

lemmas le_length [wire, simp] = le16.length_put le32.length_put le64.length_put
lemmas le_get_put [wire, simp] = le16.get_put le32.get_put le64.get_put
  le16.get_put_exact le32.get_put_exact le64.get_put_exact

section \<open>Packets round trip\<close>

text \<open>
  The packets a decoder can produce: a known type, a payload length within the array, and zeros
  behind the payload's used part.
\<close>

definition canonical :: "fz_packet \<Rightarrow> bool" where
  "canonical p \<longleftrightarrow> \<not> pk_type p < FZ_HELLO \<and> \<not> pk_type p > FZ_ROOM_CLOSED
     \<and> unat (pk_length p) \<le> FZ_PAYLOAD
     \<and> pk_payload p = fill (take (unat (pk_length p)) (pk_payload p))
     \<and> unat (pk_length p) \<le> length (pk_payload p)"

lemma length_fill [simp]: "length (fill b) = max FZ_PAYLOAD (length b)"
  by (simp add: fill_def)

lemma take_fill [simp]: "n \<le> length b \<Longrightarrow> take n (fill b) = take n b"
  by (simp add: fill_def)

lemma nth_fill: "n < length b \<Longrightarrow> fill b ! n = b ! n"
  by (simp add: fill_def nth_append)

lemma canonical_length: "canonical p \<Longrightarrow> length (pk_payload p) = FZ_PAYLOAD"
  unfolding canonical_def
  by (metis length_fill length_take max.absorb1 min.absorb2)

lemma FZVS_simps [wire, simp]: "length FZVS = 4" "FZVS \<noteq> []"
  by (simp_all add: FZVS_def)

lemma encode_nonempty:
  "canonical p \<Longrightarrow> fz_encode FZ_MAX_PACKET p =
     FZVS @ [FZ_VERSION, pk_type p] @ fz_put16 (pk_length p)
       @ fz_put64 (pk_session p) @ fz_put32 (pk_race p) @ fz_put32 (pk_seq p)
       @ fz_put32 (pk_ack p) @ fz_put64 (pk_token p)
       @ take (unat (pk_length p)) (pk_payload p)"
  by (auto simp: fz_encode_def canonical_def Let_def)

lemma length_encode:
  "canonical p \<Longrightarrow> length (fz_encode FZ_MAX_PACKET p) = FZ_HEADER + unat (pk_length p)"
  by (simp add: encode_nonempty canonical_length) (simp add: canonical_def)

lemma decode_encode:
  assumes "canonical p"
  shows "fz_decode (fz_encode FZ_MAX_PACKET p) = Some p"
proof -
  note c = assms [unfolded canonical_def]
  have len: "unat (pk_length p) \<le> length (pk_payload p)" using c by simp
  show ?thesis
    using c canonical_length [OF assms]
    by (simp add: fz_decode_def length_encode [OF assms])
       (simp add: encode_nonempty [OF assms] nth_append not_less)
qed

lemma encode_decode:
  assumes "fz_decode b = Some p"
  shows "canonical p \<and> fz_encode FZ_MAX_PACKET p = b"
proof -
  from assms have ok: "\<not> length b < FZ_HEADER" "\<not> FZ_MAX_PACKET < length b" "take 4 b = FZVS"
      "b ! 4 = FZ_VERSION" "\<not> b ! 5 < FZ_HELLO" "\<not> FZ_ROOM_CLOSED < b ! 5"
      "unat (fz_u16 (drop 6 b)) = length b - FZ_HEADER"
    and p: "p = \<lparr>pk_type = b ! 5, pk_length = fz_u16 (drop 6 b),
        pk_session = fz_u64 (drop 8 b), pk_token = fz_u64 (drop 28 b),
        pk_race = fz_u32 (drop 16 b), pk_seq = fz_u32 (drop 20 b), pk_ack = fz_u32 (drop 24 b),
        pk_payload = fill (take (unat (fz_u16 (drop 6 b))) (drop FZ_HEADER b))\<rparr>"
    by (auto simp: fz_decode_def simp del: le_get_put split: if_splits)
  have c: "canonical p"
    using ok by (simp add: p canonical_def)
  have "FZVS @ [FZ_VERSION, b ! 5] @ take 2 (drop 6 b) @ take 8 (drop 8 b) @ take 4 (drop 16 b)
      @ take 4 (drop 20 b) @ take 4 (drop 24 b) @ take 8 (drop 28 b) @ drop 36 b = b"
    using ok by (simp add: drop_split nth_Cons_drop flip: ok(3,4))
  then have "fz_encode FZ_MAX_PACKET p = b"
    using ok by (simp add: encode_nonempty [OF c])
      (simp add: p le16.put_get le32.put_get le64.put_get)
  with c show ?thesis by simp
qed

interpretation packet: wire_codec "fz_encode FZ_MAX_PACKET" fz_decode canonical
  by unfold_locales (simp_all add: decode_encode encode_decode)

text \<open>
  C15. The packet codec is exact: a datagram decodes to a packet if and only if the
  packet is in canonical form (known type, payload within the array, zeros behind the used part) and
  encoding that packet into a full-size buffer stores exactly this datagram. In particular every
  packet round trips, no two packets share a datagram, and truncated, padded or over-long datagrams
  are refused.
\<close>

theorem packet_codec_exact:
  "fz_decode b = Some p \<longleftrightarrow> canonical p \<and> fz_encode FZ_MAX_PACKET p = b"
  by (rule packet.dec_iff)

section \<open>Serial numbers\<close>

lemma newer_iff: "fz_newer a b \<longleftrightarrow> (\<exists>n. 0 < n \<and> n < 2 ^ 31 \<and> a = b + of_nat n)"
proof
  assume n: "fz_newer a b"
  have "a = b + of_nat (unat (a - b))" by simp
  moreover from n have "0 < unat (a - b)" "unat (a - b) < 2 ^ 31"
    by (simp_all add: fz_newer_def word_less_nat_alt unat_gt_0)
  ultimately show "\<exists>n. 0 < n \<and> n < 2 ^ 31 \<and> a = b + of_nat n" by blast
next
  assume "\<exists>n. 0 < n \<and> n < 2 ^ 31 \<and> a = b + of_nat n"
  then obtain n where "0 < n" "n < 2 ^ 31" and a: "a = b + of_nat n" by blast
  then have "unat (of_nat n :: u32) = n"
    by (simp add: unat_of_nat del: of_nat_add)
  with \<open>0 < n\<close> \<open>n < 2 ^ 31\<close> show "fz_newer a b"
    by (auto simp: a fz_newer_def word_less_nat_alt)
qed

lemma newer_irrefl: "\<not> fz_newer a a"
  by (simp add: fz_newer_def)

lemma newer_Suc: "fz_newer (a + 1) a"
  by (simp add: fz_newer_def)

lemma newer_asym: "fz_newer a b \<Longrightarrow> \<not> fz_newer b a"
proof
  assume "fz_newer a b" "fz_newer b a"
  then obtain m n where "m < 2 ^ 31" "n < 2 ^ 31" "0 < m" "0 < n"
    and "a = b + of_nat m" "b = a + of_nat n"
    by (metis newer_iff)
  then have "(of_nat (m + n) :: u32) = 0"
    by (simp add: algebra_simps)
  then have "unat (of_nat (m + n) :: u32) = 0"
    by simp
  with \<open>m < 2 ^ 31\<close> \<open>n < 2 ^ 31\<close> \<open>0 < m\<close> show False
    by (simp add: unat_of_nat del: of_nat_add)
qed

lemma newer_positions:
  assumes "m < 2 ^ 31" and "n < 2 ^ 31"
  shows "fz_newer (a + of_nat m) (a + of_nat n) \<longleftrightarrow> n < m"
proof (cases n m rule: linorder_cases)
  case less
  then have "a + of_nat m = (a + of_nat n) + of_nat (m - n)"
    by (simp add: of_nat_diff)
  with less assms show ?thesis
    by (auto simp: newer_iff intro!: exI [of _ "m - n"])
next
  case greater
  then have "a + of_nat n = (a + of_nat m) + of_nat (n - m)"
    by (simp add: of_nat_diff)
  with greater assms have "fz_newer (a + of_nat n) (a + of_nat m)"
    by (auto simp: newer_iff intro!: exI [of _ "n - m"])
  with greater show ?thesis
    using newer_asym by auto
qed (simp add: newer_irrefl)

text \<open>
  C37. Serial number comparison survives wrap-around: over any window of less than half
  the 32-bit circle, starting anywhere on it, \<open>fz_newer\<close> is the usual order of the positions.
\<close>

theorem newer_window:
  assumes "m < 2 ^ 31" and "n < 2 ^ 31"
  shows "fz_newer (a + of_nat m) (a + of_nat n) \<longleftrightarrow> n < m"
  by (rule newer_positions [OF assms])

theorem newer_window_witness:
  "fz_newer (0xFFFFFFFF + of_nat 5) (0xFFFFFFFF + of_nat 2) \<and> \<not> fz_newer (0xFFFFFFFF + of_nat 2) (0xFFFFFFFF + of_nat 5)"
  using newer_window [of 5 2 "0xFFFFFFFF"] newer_window [of 2 5 "0xFFFFFFFF"] by simp

end
