(* ===== verification/Fz_Double.thy ===== *)
theory Fz_Double
  imports Fz_Prelude Complex_Main
begin

text \<open>
  IEEE binary64 arithmetic, the C and C++ type \<open>double\<close>, on the finite values the program
  computes. A finite double is the rational number it denotes, and every operation of the source
  is the exact operation followed by \<open>fl\<close>, rounding to nearest with ties to even. Zero has one
  sign, and overflow to infinity is not represented: every quantity the sources compute in
  \<open>double\<close> (round trip times, clock offsets in microseconds, interpolated coordinates) is far
  below the largest finite double.
\<close>

section \<open>Rounding\<close>

fun ilog2 :: "nat \<Rightarrow> nat" where
  "ilog2 n = (if n < 2 then 0 else Suc (ilog2 (n div 2)))"

declare ilog2.simps [simp del]

text \<open>The binary exponent of a positive rational: \<open>2 powi e \<le> x < 2 powi (e + 1)\<close>.\<close>

definition exponent :: "rat \<Rightarrow> int" where
  "exponent x =
     (let (p, q) = quotient_of x; e = int (ilog2 (nat p)) - int (ilog2 (nat q))
      in if 2 powi e \<le> x then e else e - 1)"

definition round_even :: "rat \<Rightarrow> int" where
  "round_even y =
     (let f = \<lfloor>y\<rfloor>; r = y - of_int f
      in if r < 1 / 2 then f else if r > 1 / 2 then f + 1 else if even f then f else f + 1)"

definition ulp :: "rat \<Rightarrow> rat" where
  "ulp x = 2 powi (max (exponent x) (- 1022) - 52)"

definition fl :: "rat \<Rightarrow> rat" where
  "fl x =
     (if x = 0 then 0
      else if x < 0 then - (of_int (round_even (- x / ulp (- x))) * ulp (- x))
      else of_int (round_even (x / ulp x)) * ulp x)"

text \<open>Conversions: an integer to a double rounds; \<open>lround\<close> rounds half away from zero.\<close>

definition double_of_u64 :: "u64 \<Rightarrow> rat" where
  "double_of_u64 v = fl (of_nat (unat v))"

definition lround :: "rat \<Rightarrow> int" where
  "lround x = (if x < 0 then - \<lfloor>- x + 1 / 2\<rfloor> else \<lfloor>x + 1 / 2\<rfloor>)"

section \<open>What every client of the arithmetic relies on\<close>

locale rounding =
  fixes rnd :: "rat \<Rightarrow> rat"
  assumes rnd_mono: "x \<le> y \<Longrightarrow> rnd x \<le> rnd y"
    and rnd_int: "\<bar>n\<bar> \<le> 2 ^ 53 \<Longrightarrow> rnd (of_int n) = of_int n"
begin

lemma rnd_0: "rnd 0 = 0"
  using rnd_int [of 0] by simp

lemma rnd_nonneg: "0 \<le> x \<Longrightarrow> 0 \<le> rnd x"
  using rnd_mono [of 0 x] by (simp add: rnd_0)

lemma rnd_between:
  assumes "of_int a \<le> x" and "x \<le> of_int b" and "\<bar>a\<bar> \<le> 2 ^ 53" and "\<bar>b\<bar> \<le> 2 ^ 53"
  shows "of_int a \<le> rnd x" and "rnd x \<le> of_int b"
  using rnd_mono [OF assms(1)] rnd_mono [OF assms(2)] assms(3,4) by (simp_all add: rnd_int)

end

section \<open>The rounding function meets the interface\<close>

lemma pow2_le_iff [simp]: "(2 :: rat) powi m \<le> 2 powi n \<longleftrightarrow> m \<le> n"
  using power_int_increasing [of m n "2 :: rat"] power_int_strict_increasing [of n m "2 :: rat"]
  by (auto simp: not_le [symmetric])

lemma pow2_less_iff [simp]: "(2 :: rat) powi m < 2 powi n \<longleftrightarrow> m < n"
  by (simp flip: not_le)

lemma pow2_div: "(2 :: rat) powi m / 2 powi n = 2 powi (m - n)"
  by (simp add: power_int_diff)

lemma ilog2_bounds: "0 < n \<Longrightarrow> 2 ^ ilog2 n \<le> n \<and> n < 2 ^ Suc (ilog2 n)"
proof (induction n rule: ilog2.induct)
  case (1 n)
  show ?case
  proof (cases "n < 2")
    case True
    with "1.prems" have "n = 1" by simp
    then show ?thesis by (simp add: ilog2.simps)
  next
    case False
    with "1.IH" have "2 ^ ilog2 (n div 2) \<le> n div 2 \<and> n div 2 < 2 ^ Suc (ilog2 (n div 2))"
      by simp
    with False show ?thesis
      by (subst (1 2) ilog2.simps) (simp, linarith)
  qed
qed

lemma ilog2_int:
  assumes "0 < p"
  shows "2 powi int (ilog2 (nat p)) \<le> (of_int p :: rat)"
    and "(of_int p :: rat) < 2 powi (int (ilog2 (nat p)) + 1)"
proof -
  have "2 ^ ilog2 (nat p) \<le> p" and "p < 2 ^ Suc (ilog2 (nat p))"
    using ilog2_bounds [of "nat p"] assms by (simp_all add: nat_less_iff le_nat_iff)
  then have "of_int (2 ^ ilog2 (nat p)) \<le> (of_int p :: rat)"
    and "(of_int p :: rat) < of_int (2 ^ Suc (ilog2 (nat p)))"
    by (simp_all only: of_int_le_iff of_int_less_iff)
  then show "2 powi int (ilog2 (nat p)) \<le> (of_int p :: rat)"
    and "(of_int p :: rat) < 2 powi (int (ilog2 (nat p)) + 1)"
    by (simp_all add: power_int_add mult.commute)
qed

lemma exponent_bounds:
  assumes "0 < x"
  shows "2 powi exponent x \<le> x" and "x < 2 powi (exponent x + 1)"
proof -
  obtain p q where pq: "quotient_of x = (p, q)" by fastforce
  define e where "e = int (ilog2 (nat p)) - int (ilog2 (nat q))"
  have x: "x = of_int p / of_int q" and q: "0 < q"
    using pq by (simp_all add: quotient_of_div quotient_of_denom_pos)
  with assms have p: "0 < p" by (simp add: zero_less_divide_iff)
  have "x < 2 powi (int (ilog2 (nat p)) + 1) / 2 powi int (ilog2 (nat q))"
    unfolding x using ilog2_int [OF p] ilog2_int [OF q] q p
    by (intro frac_less) auto
  also have "\<dots> = 2 powi (e + 1)"
    by (simp add: e_def pow2_div del: power_int_of_nat) (simp add: algebra_simps)
  finally have hi: "x < 2 powi (e + 1)" .
  have "2 powi int (ilog2 (nat p)) / 2 powi (int (ilog2 (nat q)) + 1) \<le> x"
    unfolding x using ilog2_int [OF p] ilog2_int [OF q] q p
    by (intro frac_le) auto
  moreover have "2 powi int (ilog2 (nat p)) / 2 powi (int (ilog2 (nat q)) + 1) = (2 powi (e - 1) :: rat)"
    by (simp add: e_def pow2_div del: power_int_of_nat) (simp add: algebra_simps)
  ultimately have lo: "2 powi (e - 1) \<le> x" by simp
  have "exponent x = (if 2 powi e \<le> x then e else e - 1)"
    by (simp add: exponent_def pq e_def)
  with hi lo show "2 powi exponent x \<le> x" and "x < 2 powi (exponent x + 1)"
    by (auto simp: not_le)
qed

lemma exponent_mono:
  assumes "0 < x" and "x \<le> y"
  shows "exponent x \<le> exponent y"
proof -
  have "(2 :: rat) powi exponent x < 2 powi (exponent y + 1)"
    using exponent_bounds(1) [of x] exponent_bounds(2) [of y] assms by linarith
  then show ?thesis by simp
qed

lemma ulp_pos: "0 < ulp x"
  by (simp add: ulp_def)

lemma round_even_floor: "\<lfloor>y\<rfloor> \<le> round_even y" "round_even y \<le> \<lfloor>y\<rfloor> + 1"
  by (simp_all add: round_even_def Let_def)

lemma round_even_of_int [simp]: "round_even (of_int n) = n"
  by (simp add: round_even_def)

lemma round_even_mono:
  assumes "a \<le> b"
  shows "round_even a \<le> round_even b"
proof (cases "\<lfloor>a\<rfloor> = \<lfloor>b\<rfloor>")
  case True
  then show ?thesis using assms by (auto simp: round_even_def Let_def)
next
  case False
  with floor_mono [OF assms] have "\<lfloor>a\<rfloor> + 1 \<le> \<lfloor>b\<rfloor>" by simp
  with round_even_floor [of a] round_even_floor [of b] show ?thesis by linarith
qed

lemma round_even_le: "y \<le> of_int n \<Longrightarrow> round_even y \<le> n"
  using round_even_mono [of y "of_int n"] by simp

lemma round_even_ge: "of_int n \<le> y \<Longrightarrow> n \<le> round_even y"
  using round_even_mono [of "of_int n" y] by simp

lemma fl_pos: "0 < x \<Longrightarrow> fl x = of_int (round_even (x / ulp x)) * ulp x"
  by (simp add: fl_def)

lemma fl_nonneg: "0 \<le> x \<Longrightarrow> 0 \<le> fl x"
proof (cases "x = 0")
  case False
  moreover assume "0 \<le> x"
  ultimately have "0 < x" by simp
  then have "0 \<le> round_even (x / ulp x)"
    using ulp_pos [of x] by (intro round_even_ge) simp
  with \<open>0 < x\<close> show ?thesis
    using ulp_pos [of x] by (simp add: fl_pos)
qed (simp add: fl_def)

lemma fl_minus: "fl (- x) = - fl x"
  by (simp add: fl_def)

lemma fl_mono_pos:
  assumes "0 < x" and "x \<le> y"
  shows "fl x \<le> fl y"
proof (cases "ulp x = ulp y")
  case True
  then show ?thesis
    using assms ulp_pos [of y]
    by (simp add: fl_pos round_even_mono divide_right_mono mult_right_mono)
next
  case False
  let ?E = "\<lambda>x. max (exponent x) (- 1022)"
  have "exponent x \<le> exponent y" by (rule exponent_mono [OF assms])
  with False have lt: "?E x < ?E y" and Ey: "?E y = exponent y"
    by (cases "exponent x = exponent y"; auto simp: ulp_def max_def split: if_splits)+
  have u: "ulp z = 2 powi ?E z / 2 ^ 52" for z
    by (simp add: ulp_def power_int_diff)
  have "x < 2 powi (exponent x + 1)"
    using exponent_bounds(2) [of x] assms by simp
  also have "\<dots> \<le> 2 powi (?E x + 1)"
    by (intro power_int_increasing) auto
  finally have "x / ulp x \<le> of_int (2 ^ 53)"
    by (simp add: u power_int_add field_simps)
  then have "of_int (round_even (x / ulp x)) \<le> (of_int (2 ^ 53) :: rat)"
    unfolding of_int_le_iff by (rule round_even_le)
  then have "fl x \<le> of_int (2 ^ 53) * ulp x"
    using ulp_pos [of x] assms unfolding fl_pos [OF assms(1)] by (intro mult_right_mono) simp_all
  also have "\<dots> = 2 powi (?E x + 1)"
    by (simp add: u power_int_add)
  also have "\<dots> \<le> 2 powi ?E y"
    using lt by (intro power_int_increasing) auto
  also have "\<dots> \<le> fl y"
  proof -
    have "2 powi ?E y \<le> y"
      using exponent_bounds(1) [of y] assms Ey by simp
    then have "of_int (2 ^ 52) \<le> y / ulp y"
      by (simp add: u field_simps)
    then have "(of_int (2 ^ 52) :: rat) \<le> of_int (round_even (y / ulp y))"
      unfolding of_int_le_iff by (rule round_even_ge)
    then have "of_int (2 ^ 52) * ulp y \<le> fl y"
      using ulp_pos [of y] assms by (simp only: fl_pos [of y]) (intro mult_right_mono, simp_all)
    then show ?thesis by (simp add: u)
  qed
  finally show ?thesis .
qed

lemma fl_mono:
  assumes "x \<le> y"
  shows "fl x \<le> fl y"
proof -
  consider "0 < x" | "x \<le> 0" "0 \<le> y" | "y < 0" using assms by linarith
  then show ?thesis
  proof cases
    case 1
    then show ?thesis using assms by (rule fl_mono_pos)
  next
    case 2
    then show ?thesis
      using fl_nonneg [of y] fl_nonneg [of "- x"] by (simp add: fl_minus)
  next
    case 3
    then show ?thesis
      using fl_mono_pos [of "- y" "- x"] assms by (simp add: fl_minus)
  qed
qed

lemma fl_int_pos:
  assumes "0 < n" and "n \<le> 2 ^ 53"
  shows "fl (of_int n) = of_int n"
proof (cases "n = 2 ^ 53")
  case True
  have x: "(0 :: rat) < 2 ^ 53" by simp
  have "(2 :: rat) powi exponent (2 ^ 53) \<le> 2 powi 53" "(2 :: rat) powi 53 < 2 powi (exponent (2 ^ 53) + 1)"
    using exponent_bounds [OF x] by simp_all
  then have "exponent (2 ^ 53) = 53" unfolding pow2_le_iff pow2_less_iff by simp
  then have "ulp (2 ^ 53) = 2" by (simp add: ulp_def)
  then show ?thesis
    using True round_even_of_int [of "2 ^ 52"] by (simp add: fl_pos)
next
  case False
  let ?x = "of_int n :: rat" and ?e = "exponent (of_int n)"
  have x: "0 < ?x" "1 \<le> ?x" using assms by simp_all
  have "?x < of_int (2 ^ 53)"
    unfolding of_int_less_iff using assms False by simp
  then have "(2 :: rat) powi ?e < 2 powi 53" "(2 :: rat) powi 0 < 2 powi (?e + 1)"
    using exponent_bounds [OF x(1)] x(2) by simp_all
  then have e: "0 \<le> ?e" "?e \<le> 52"
    unfolding pow2_less_iff by simp_all
  then have u: "ulp ?x = 1 / 2 ^ nat (52 - ?e)"
    using power_int_minus_divide [of "2 :: rat" "52 - ?e"] by (simp add: ulp_def power_int_nonneg_exp)
  then have "?x / ulp ?x = of_int (n * 2 ^ nat (52 - ?e))" by simp
  then have "round_even (?x / ulp ?x) = n * 2 ^ nat (52 - ?e)"
    using round_even_of_int by metis
  then show ?thesis using x by (simp add: fl_pos u)
qed

interpretation b64: rounding fl
proof unfold_locales
  fix n :: int
  assume "\<bar>n\<bar> \<le> 2 ^ 53"
  then show "fl (of_int n) = of_int n"
    using fl_int_pos [of n] fl_int_pos [of "- n"]
    by (cases n "0 :: int" rule: linorder_cases) (auto simp: fl_minus fl_def)
qed (rule fl_mono)

end
