(* ===== verification/Fz_Events.thy ===== *)
theory Fz_Events
  imports Fz_Prelude Fz_Double
begin

text \<open>
  The diagnostic event log of the server (\<^verbatim>\<open>server/src/server.c\<close>): a ring of 256 entries that drops
  its oldest entry when full, its reader, and the \<open>printf\<close> conversions its messages use. The ring
  is shown to be a bounded first-in first-out log, the contract its readers rely on.
\<close>

section \<open>Formatting\<close>

fun fmt_u :: "nat \<Rightarrow> string" where
  "fmt_u n = (if n < 10 then [char_of (48 + n)] else fmt_u (n div 10) @ [char_of (48 + n mod 10)])"

declare fmt_u.simps [simp del]

definition fmt_d :: "int \<Rightarrow> string" where
  "fmt_d n = (if n < 0 then ''-'' @ fmt_u (nat (- n)) else fmt_u (nat n))"

text \<open>\<open>%.1f\<close> of a finite double: the exact value rounded to one decimal, ties to even.\<close>

definition fmt_f1 :: "rat \<Rightarrow> string" where
  "fmt_f1 x =
     (let m = nat (round_even (\<bar>x\<bar> * 10))
      in (if x < 0 then ''-'' else []) @ fmt_u (m div 10) @ ''.'' @ fmt_u (m mod 10))"

section \<open>The event ring\<close>

record fz_server_event =
  e_time_us :: u64
  e_session :: u64
  e_race :: u32
  e_level :: int
  e_player :: int
  e_message :: string

definition zero_event :: fz_server_event where
  "zero_event = \<lparr>e_time_us = 0, e_session = 0, e_race = 0, e_level = 0, e_player = 0,
     e_message = []\<rparr>"

text \<open>The fields \<open>events\<close>, \<open>event_head\<close>, \<open>event_count\<close> and \<open>dropped_events\<close> of \<open>struct fz_server\<close>.\<close>

record event_ring =
  er_events :: "fz_server_event list"
  er_head :: nat
  er_count :: nat
  er_dropped :: u64

abbreviation (input) FZ_EVENTS :: nat where "FZ_EVENTS \<equiv> 256"

definition zero_ring :: event_ring where
  "zero_ring = \<lparr>er_events = replicate FZ_EVENTS zero_event, er_head = 0, er_count = 0,
     er_dropped = 0\<rparr>"

definition ring_push :: "fz_server_event \<Rightarrow> event_ring \<Rightarrow> event_ring" where
  "ring_push e r =
     (let r = (if er_count r = FZ_EVENTS
               then r\<lparr>er_head := (er_head r + 1) mod FZ_EVENTS, er_count := er_count r - 1,
                      er_dropped := er_dropped r + 1\<rparr>
               else r)
      in r\<lparr>er_events := (er_events r)[(er_head r + er_count r) mod FZ_EVENTS := e],
           er_count := er_count r + 1\<rparr>)"

definition fz_server_next_event :: "event_ring \<Rightarrow> (fz_server_event \<times> event_ring) option" where
  "fz_server_next_event r =
     (if er_count r = 0 then None
      else Some (er_events r ! er_head r,
        r\<lparr>er_head := (er_head r + 1) mod FZ_EVENTS, er_count := er_count r - 1\<rparr>))"

lemma next_event_decreases: "fz_server_next_event r = Some (e, r') \<Longrightarrow> er_count r' < er_count r"
  by (auto simp: fz_server_next_event_def split: if_splits)

text \<open>\<open>while(fz_server_next_event(s,&e))\<close>: the loop of every reader.\<close>

function drain_events :: "event_ring \<Rightarrow> fz_server_event list \<times> event_ring" where
  "drain_events r =
     (case fz_server_next_event r of None \<Rightarrow> ([], r)
      | Some (e, r') \<Rightarrow> (let (es, r'') = drain_events r' in (e # es, r'')))"
  by pat_completeness auto
termination
  by (relation "measure er_count") (auto dest: next_event_decreases)

declare drain_events.simps [simp del]

section \<open>The contract: a bounded first-in first-out log\<close>

locale bounded_log =
  fixes push :: "'e \<Rightarrow> 'r \<Rightarrow> 'r"
    and pop :: "'r \<Rightarrow> ('e \<times> 'r) option"
    and contents :: "'r \<Rightarrow> 'e list"
    and invar :: "'r \<Rightarrow> bool"
    and capacity :: nat
  assumes contents_push:
      "invar r \<Longrightarrow> contents (push e r) = newest capacity (contents r @ [e])"
    and pop_None: "invar r \<Longrightarrow> pop r = None \<longleftrightarrow> contents r = []"
    and pop_Some: "invar r \<Longrightarrow> pop r = Some (e, r') \<Longrightarrow> contents r = e # contents r'"
    and contents_bound: "invar r \<Longrightarrow> length (contents r) \<le> capacity"
    and invar_push: "invar r \<Longrightarrow> invar (push e r)"
    and invar_pop: "invar r \<Longrightarrow> pop r = Some (e, r') \<Longrightarrow> invar r'"
begin

lemma invar_pushes: "invar r \<Longrightarrow> invar (fold push es r)"
  by (induction es arbitrary: r) (simp_all add: invar_push)

lemma contents_pushes:
  "invar r \<Longrightarrow> contents (fold push es r) = newest capacity (contents r @ es)"
proof (induction es arbitrary: r)
  case Nil
  then show ?case using contents_bound [of r] by simp
next
  case (Cons e es)
  have "contents (fold push (e # es) r) = newest capacity (newest capacity (contents r @ [e]) @ es)"
    using Cons by (simp add: invar_push contents_push)
  then show ?case by (simp add: newest_newest_append)
qed

lemma newest_kept:
  "invar r \<Longrightarrow> length es \<le> capacity \<Longrightarrow> \<exists>old. contents (fold push es r) = old @ es"
  by (simp add: contents_pushes newest_append_short)

end

definition ring_contents :: "event_ring \<Rightarrow> fz_server_event list" where
  "ring_contents r =
     map (\<lambda>k. er_events r ! ((er_head r + k) mod FZ_EVENTS)) [0..<er_count r]"

definition ring_invar :: "event_ring \<Rightarrow> bool" where
  "ring_invar r \<longleftrightarrow> length (er_events r) = FZ_EVENTS \<and> er_head r < FZ_EVENTS \<and> er_count r \<le> FZ_EVENTS"

lemma ring_invar_zero [simp]: "ring_invar zero_ring"
  by (simp add: ring_invar_def zero_ring_def)

lemma ring_contents_zero [simp]: "ring_contents zero_ring = []"
  by (simp add: ring_contents_def zero_ring_def)

lemma ring_invar_push: "ring_invar r \<Longrightarrow> ring_invar (ring_push e r)"
  by (auto simp: ring_invar_def ring_push_def Let_def)

lemma ring_slot_neq:
  assumes "k < c" and "c < n"
  shows "((h + c) mod n :: nat) \<noteq> (h + k) mod n"
proof
  assume "(h + c) mod n = (h + k) mod n"
  then have "n dvd (h + c) - (h + k)"
    using assms by (subst mod_eq_dvd_iff_nat [symmetric]) simp_all
  then have "n dvd c - k" by simp
  with assms show False
    by (auto dest: dvd_imp_le)
qed

lemma ring_contents_push_room:
  assumes "ring_invar r" and "er_count r < FZ_EVENTS"
  shows "ring_contents (ring_push e r) = ring_contents r @ [e]"
proof -
  have "(er_events r)[(er_head r + er_count r) mod FZ_EVENTS := e] ! ((er_head r + k) mod FZ_EVENTS)
      = er_events r ! ((er_head r + k) mod FZ_EVENTS)" if "k < er_count r" for k
    using ring_slot_neq [OF that assms(2)] by simp
  with assms show ?thesis
    by (simp add: ring_contents_def ring_push_def ring_invar_def)
qed

lemma ring_contents_shift:
  assumes "ring_invar r" and "0 < er_count r"
  shows "ring_contents r = er_events r ! er_head r
    # ring_contents (r\<lparr>er_head := (er_head r + 1) mod FZ_EVENTS, er_count := er_count r - 1,
        er_dropped := d\<rparr>)"
proof -
  obtain c where c: "er_count r = Suc c" using assms(2) gr0_conv_Suc by auto
  have "er_head r mod FZ_EVENTS = er_head r" using assms(1) by (simp add: ring_invar_def)
  then show ?thesis
    by (simp add: ring_contents_def c map_upt_Suc mod_simps del: upt_Suc)
qed

lemma ring_contents_push_full:
  assumes "ring_invar r" and "er_count r = FZ_EVENTS"
  shows "ring_contents (ring_push e r) = tl (ring_contents r) @ [e]"
proof -
  let ?r = "r\<lparr>er_head := (er_head r + 1) mod FZ_EVENTS, er_count := er_count r - 1,
    er_dropped := er_dropped r + 1\<rparr>"
  have "ring_push e r = ring_push e ?r" using assms(2) by (simp add: ring_push_def)
  moreover have "ring_invar ?r" "er_count ?r < FZ_EVENTS"
    using assms by (simp_all add: ring_invar_def)
  moreover have "tl (ring_contents r) = ring_contents ?r"
    using ring_contents_shift [of r "er_dropped r + 1"] assms by simp
  ultimately show ?thesis by (simp only: ring_contents_push_room)
qed

lemma length_ring_contents [simp]: "length (ring_contents r) = er_count r"
  by (simp add: ring_contents_def)

interpretation log_ring: bounded_log ring_push fz_server_next_event ring_contents ring_invar FZ_EVENTS
proof unfold_locales
  fix r e
  assume r: "ring_invar r"
  show "ring_contents (ring_push e r) = newest FZ_EVENTS (ring_contents r @ [e])"
  proof (cases "er_count r = FZ_EVENTS")
    case True
    then have "ring_contents r \<noteq> []"
      by (metis length_ring_contents list.size(3) zero_neq_numeral)
    with True show ?thesis
      by (simp add: ring_contents_push_full [OF r] newest_def drop_Suc)
  next
    case False
    with r have "er_count r < FZ_EVENTS" by (simp add: ring_invar_def)
    then show ?thesis by (simp add: ring_contents_push_room [OF r])
  qed
next
  fix r :: event_ring
  show "fz_server_next_event r = None \<longleftrightarrow> ring_contents r = []"
    by (simp add: fz_server_next_event_def ring_contents_def)
next
  fix r r' e
  assume "ring_invar r" and "fz_server_next_event r = Some (e, r')"
  then show "ring_contents r = e # ring_contents r'" and "ring_invar r'"
    using ring_contents_shift [of r "er_dropped r"]
    by (auto simp: fz_server_next_event_def ring_invar_def split: if_splits)
qed (simp_all add: ring_invar_push, simp add: ring_invar_def)

lemma drain_events_contents:
  "ring_invar r \<Longrightarrow> fst (drain_events r) = ring_contents r
     \<and> er_count (snd (drain_events r)) = 0 \<and> ring_invar (snd (drain_events r))"
proof (induction r rule: drain_events.induct)
  case (1 r)
  show ?case
  proof (cases "fz_server_next_event r")
    case None
    with "1.prems" show ?thesis
      using log_ring.pop_None [of r]
      by (simp add: drain_events.simps [of r]) (simp add: ring_contents_def)
  next
    case (Some p)
    obtain e r' where p: "p = (e, r')" by (cases p)
    have r': "ring_invar r'" "ring_contents r = e # ring_contents r'"
      using log_ring.invar_pop log_ring.pop_Some "1.prems" Some p by blast+
    have "fst (drain_events r') = ring_contents r'
        \<and> er_count (snd (drain_events r')) = 0 \<and> ring_invar (snd (drain_events r'))"
      by (rule "1.IH" [OF Some p [symmetric] r'(1)])
    then show ?thesis
      using Some p r' by (simp add: drain_events.simps [of r] case_prod_beta)
  qed
qed

text \<open>
  C36. The event log is a bounded queue: after any sequence of logged events, a reader that drains
  it gets exactly the newest 256 of the pending and the new events, oldest first, and leaves the
  log empty.
\<close>

theorem event_log_fifo:
  assumes "ring_invar r"
  shows "fst (drain_events (fold ring_push es r)) = newest 256 (ring_contents r @ es)
    \<and> ring_contents (snd (drain_events (fold ring_push es r))) = []"
proof -
  have "ring_invar (fold ring_push es r)" by (rule log_ring.invar_pushes [OF assms])
  from drain_events_contents [OF this] show ?thesis
    using log_ring.contents_pushes [OF assms, of es] by (simp add: ring_contents_def [of "snd _"])
qed

theorem event_log_fifo_witness:
  "fst (drain_events (fold ring_push [zero_event\<lparr>e_level := 1\<rparr>, zero_event\<lparr>e_level := 2\<rparr>] zero_ring))
     = [zero_event\<lparr>e_level := 1\<rparr>, zero_event\<lparr>e_level := 2\<rparr>]"
  using event_log_fifo [OF ring_invar_zero,
      of "[zero_event\<lparr>e_level := 1\<rparr>, zero_event\<lparr>e_level := 2\<rparr>]"]
  by (simp add: newest_def)

end
