(* ===== verification/Fz_Server.thy ===== *)
theory Fz_Server
  imports Fz_Protocol Fz_Events
begin

text \<open>
  The race server of \<^verbatim>\<open>server/src/server.c\<close>: its state, its helpers, the packet handler and the
  phase logic. Every operation takes the server and returns the updated one. The world outside is
  part of the state as \<open>io\<close>: the successive readings of the monotonic clock, the successive draws
  from the random device, the outcome of each \<open>sendto\<close>, the datagrams handed to it so far, and the
  timeouts given to \<open>poll\<close> so far.
  Each call of \<open>now_us\<close>, \<open>random_id\<close> and \<open>sendto\<close> in the source is one reading, draw or datagram
  of the model.
\<close>

section \<open>State\<close>

record sockaddr_in =
  sin_addr :: u32
  sin_port :: u16

record Player =
  p_address :: sockaddr_in
  p_token :: u64
  p_nonce :: u64
  p_seen :: u64
  p_updated :: u64
  p_armed :: u64
  p_command_seq :: u32
  p_state_seq :: u32
  p_x :: u16
  p_y :: u16
  p_status :: u8
  p_car :: u8
  p_orientation :: u8
  p_packets :: u64
  p_bytes :: u64
  p_ping :: u64
  p_rtt :: rat
  p_jitter :: rat

definition zero_player :: Player where
  "zero_player = \<lparr>p_address = \<lparr>sin_addr = 0, sin_port = 0\<rparr>, p_token = 0, p_nonce = 0, p_seen = 0,
     p_updated = 0, p_armed = 0, p_command_seq = 0, p_state_seq = 0, p_x = 0, p_y = 0,
     p_status = FZ_EMPTY, p_car = 0, p_orientation = 0, p_packets = 0, p_bytes = 0, p_ping = 0,
     p_rtt = 0, p_jitter = 0\<rparr>"

record io =
  io_clock :: "nat \<Rightarrow> u64"
  io_readings :: nat
  io_entropy :: "nat \<Rightarrow> u64 option"
  io_draws :: nat
  io_send_ok :: "nat \<Rightarrow> bool"
  io_sent :: "(sockaddr_in \<times> bytes) list"
  io_waits :: "u32 list"

record Server =
  s_socket :: int
  s_log_level :: int
  s_trace_player :: int
  s_closed :: bool
  s_port :: nat
  s_owner_nonce :: u64
  s_tick :: u64
  s_summary :: u64
  s_ring :: event_ring
  s_session :: u64
  s_start :: u64
  s_phase_since :: u64
  s_rx :: u64
  s_tx :: u64
  s_rejected :: u64
  s_stale :: u64
  s_race :: u32
  s_snapshot_seq :: u32
  s_phase :: u8
  s_expected :: u8
  s_host :: u8
  s_track :: u8
  s_league :: u8
  s_key :: bytes
  s_players :: "Player list"
  s_io :: io

abbreviation player :: "Server \<Rightarrow> nat \<Rightarrow> Player" where
  "player s i \<equiv> s_players s ! i"

definition update_player :: "nat \<Rightarrow> (Player \<Rightarrow> Player) \<Rightarrow> Server \<Rightarrow> Server" where
  "update_player i f s = s\<lparr>s_players := (s_players s)[i := f (s_players s ! i)]\<rparr>"

text \<open>\<open>for(int i=0;i<4;i++)\<close> with the same assignment to every player.\<close>

definition update_players :: "(Player \<Rightarrow> Player) \<Rightarrow> Server \<Rightarrow> Server" where
  "update_players f s = fold (\<lambda>i. update_player i f) [0..<4] s"

section \<open>Clock, randomness, log\<close>

definition now_us :: "Server \<Rightarrow> u64 \<times> Server" where
  "now_us s =
     (io_clock (s_io s) (io_readings (s_io s)),
      s\<lparr>s_io := (s_io s)\<lparr>io_readings := io_readings (s_io s) + 1\<rparr>\<rparr>)"

definition random_id :: "Server \<Rightarrow> u64 \<times> Server" where
  "random_id s =
     (case io_entropy (s_io s) (io_draws (s_io s)) of None \<Rightarrow> 0 | Some i \<Rightarrow> if i \<noteq> 0 then i else 1,
      s\<lparr>s_io := (s_io s)\<lparr>io_draws := io_draws (s_io s) + 1\<rparr>\<rparr>)"

definition log_event :: "int \<Rightarrow> int \<Rightarrow> string \<Rightarrow> Server \<Rightarrow> Server" where
  "log_event level pl message s =
     (if level > s_log_level s
         \<or> (level = 3 \<and> s_trace_player s \<ge> 0 \<and> s_trace_player s \<noteq> pl) then s
      else let (t, s) = now_us s
        in s\<lparr>s_ring := ring_push \<lparr>e_time_us = t, e_session = s_session s, e_race = s_race s,
             e_level = level, e_player = pl, e_message = take 511 message\<rparr> (s_ring s)\<rparr>)"

definition occupied :: "Player \<Rightarrow> bool" where
  "occupied p \<longleftrightarrow> p_status p \<noteq> FZ_EMPTY \<and> p_status p \<noteq> FZ_DISCONNECTED"

definition count_players :: "Player list \<Rightarrow> nat" where
  "count_players ps = (\<Sum>i\<leftarrow>[0..<4]. of_bool (occupied (ps ! i)))"

abbreviation count :: "Server \<Rightarrow> nat" where
  "count s \<equiv> count_players (s_players s)"

definition same_address :: "sockaddr_in \<Rightarrow> sockaddr_in \<Rightarrow> bool" where
  "same_address a b \<longleftrightarrow> sin_port a = sin_port b \<and> sin_addr a = sin_addr b"

section \<open>Sending\<close>

definition transmit :: "sockaddr_in \<Rightarrow> fz_packet \<Rightarrow> Server \<Rightarrow> Server" where
  "transmit address packet s =
     (let data = fz_encode FZ_MAX_PACKET packet; sent = io_sent (s_io s)
      in s\<lparr>s_io := (s_io s)\<lparr>io_sent := sent @ [(address, data)]\<rparr>,
           s_tx := s_tx s + of_bool (io_send_ok (s_io s) (length sent))\<rparr>)"

definition send_player :: "nat \<Rightarrow> fz_packet \<Rightarrow> Server \<Rightarrow> Server" where
  "send_player i packet s =
     transmit (p_address (player s i))
       (packet\<lparr>pk_session := s_session s, pk_race := s_race s,
          pk_token := p_token (player s i), pk_ack := p_command_seq (player s i)\<rparr>) s"

definition send_occupied :: "fz_packet \<Rightarrow> Server \<Rightarrow> Server" where
  "send_occupied packet s =
     fold (\<lambda>i s. if occupied (player s i) then send_player i packet s else s) [0..<4] s"

definition phase :: "u8 \<Rightarrow> Server \<Rightarrow> Server" where
  "phase new s =
     (if s_phase s = new then s
      else let s = log_event 1 (- 1) (''state='' @ fz_phase_name (unat (s_phase s)) @ ''->''
                     @ fz_phase_name (unat new)) s;
             s = s\<lparr>s_phase := new\<rparr>;
             (t, s) = now_us s
        in s\<lparr>s_phase_since := t\<rparr>)"

section \<open>Snapshots\<close>

definition snapshot_age :: "u64 \<Rightarrow> Player \<Rightarrow> u32" where
  "snapshot_age now p =
     (let age = (if p_updated p \<noteq> 0 then (now - p_updated p) div 1000 else 0)
      in ucast (if age > 0xFFFFFFFF then 0xFFFFFFFF else age))"

definition snapshot_record :: "u64 \<Rightarrow> Player \<Rightarrow> bytes" where
  "snapshot_record now p =
     [p_status p, p_car p] @ fz_put16 (p_x p) @ fz_put16 (p_y p) @ [p_orientation p, 0]
       @ fz_put32 (p_state_seq p) @ fz_put32 (snapshot_age now p)"

definition armed_mask :: "Server \<Rightarrow> u8" where
  "armed_mask s =
     fold (\<lambda>i m. if occupied (player s i) \<and> p_armed (player s i) = s_start s \<and> s_start s \<noteq> 0
                then m OR push_bit i 1 else m) [0..<4] 0"

definition snapshot_payload :: "u64 \<Rightarrow> Server \<Rightarrow> bytes" where
  "snapshot_payload now s =
     [s_phase s, s_expected s, s_host s, s_track s, s_league s, armed_mask s, 0, 0]
       @ fz_put64 now @ fz_put64 (s_start s)
       @ concat (map (\<lambda>i. snapshot_record now (player s i)) [0..<4])"

definition snapshot_packet :: "u64 \<Rightarrow> Server \<Rightarrow> fz_packet" where
  "snapshot_packet now s =
     zero_packet\<lparr>pk_type := FZ_SNAPSHOT, pk_length := of_nat FZ_SNAPSHOT_SIZE,
       pk_seq := s_snapshot_seq s, pk_payload := fill (snapshot_payload now s)\<rparr>"

definition snapshot :: "Server \<Rightarrow> Server" where
  "snapshot s =
     (let s = s\<lparr>s_snapshot_seq := s_snapshot_seq s + 1\<rparr>;
          (now, s) = now_us s
      in send_occupied (snapshot_packet now s) s)"

section \<open>Lobby, departures, phase progress\<close>

definition lobby_player :: "Player \<Rightarrow> Player" where
  "lobby_player p =
     (if \<not> occupied p then zero_player
      else p\<lparr>p_status := FZ_JOINED, p_x := 0, p_y := 0, p_armed := 0, p_updated := 0,
             p_state_seq := 0\<rparr>)"

definition begin_lobby :: "Server \<Rightarrow> Server" where
  "begin_lobby s =
     (let s = s\<lparr>s_race := s_race s + 1, s_start := 0\<rparr>;
          s = phase FZ_LOBBY s;
          s = update_players lobby_player s
      in log_event 1 (- 1) (''new_lobby participants='' @ fmt_u (count s)) s)"

definition next_host :: "Server \<Rightarrow> u8" where
  "next_host s =
     (case find (\<lambda>j. occupied (player s j)) [0..<4] of None \<Rightarrow> 255 | Some j \<Rightarrow> of_nat j)"

definition drop_player :: "nat \<Rightarrow> string \<Rightarrow> Server \<Rightarrow> Server" where
  "drop_player i reason s =
     (let s = update_player i (\<lambda>p. p\<lparr>p_status := FZ_DISCONNECTED, p_x := 0, p_y := 0\<rparr>) s;
          s = log_event 0 (int i) (''disconnected reason='' @ reason) s
      in if s_owner_nonce s \<noteq> 0 \<and> i = 0 then s\<lparr>s_closed := True\<rparr>
         else let s = (if unat (s_host s) = i then s\<lparr>s_host := next_host s\<rparr> else s);
                  s = (if s_phase s = FZ_LOBBY then update_player i (\<lambda>p. zero_player) s else s)
           in if count s = 0 then (begin_lobby s)\<lparr>s_host := 255\<rparr> else s)"

definition all_at_least :: "u8 \<Rightarrow> Server \<Rightarrow> bool" where
  "all_at_least status s \<longleftrightarrow>
     count s \<noteq> 0
     \<and> list_all (\<lambda>i. \<not> (occupied (player s i) \<and> p_status (player s i) < status)) [0..<4]"

definition timeouts :: "u64 \<Rightarrow> Server \<Rightarrow> Server" where
  "timeouts now s =
     fold (\<lambda>i s. if occupied (player s i) \<and> now - p_seen (player s i) \<ge> 5000000
                then drop_player i ''heartbeat_timeout'' s else s) [0..<4] s"

definition all_armed :: "Server \<Rightarrow> bool" where
  "all_armed s \<longleftrightarrow>
     list_all (\<lambda>i. \<not> (occupied (player s i) \<and> p_armed (player s i) \<noteq> s_start s)) [0..<4]"

definition start_loading :: "Server \<Rightarrow> Server" where
  "start_loading s =
     (if s_phase s = FZ_LOBBY \<and> count s = unat (s_expected s) \<and> all_at_least FZ_SELECTED s
      then phase FZ_LOADING s else s)"

definition start_countdown :: "u64 \<Rightarrow> Server \<Rightarrow> Server" where
  "start_countdown now s =
     (if s_phase s = FZ_LOADING \<and> all_at_least FZ_PLAYER_LOADED s
      then let s = s\<lparr>s_start := now + 2000000\<rparr>; s = phase FZ_COUNTDOWN s
        in update_players (\<lambda>p. p\<lparr>p_armed := 0\<rparr>) s
      else s)"

definition racing_player :: "Player \<Rightarrow> Player" where
  "racing_player p = (if occupied p then p\<lparr>p_status := FZ_PLAYER_RACING\<rparr> else p)"

definition start_race :: "u64 \<Rightarrow> Server \<Rightarrow> Server" where
  "start_race now s =
     (if s_phase s = FZ_COUNTDOWN
      then if \<not> all_armed s \<and> now + 500000 \<ge> s_start s
        then log_event 2 (- 1) ''start_rescheduled waiting_for_ack=1'' (s\<lparr>s_start := now + 2000000\<rparr>)
        else if all_armed s \<and> now \<ge> s_start s
        then let s = phase FZ_RACING s
          in update_players racing_player s
        else s
      else s)"

definition end_race :: "Server \<Rightarrow> Server" where
  "end_race s =
     (if s_phase s = FZ_RACING \<and> all_at_least FZ_FINISHED s then phase FZ_RESULTS s else s)"

definition advance :: "u64 \<Rightarrow> Server \<Rightarrow> Server" where
  "advance now s =
     (let s = timeouts now s
      in if s_closed s then s
         else end_race (start_race now (start_countdown now (start_loading s))))"

section \<open>Joining\<close>

definition reject :: "Server \<Rightarrow> Server" where
  "reject s = s\<lparr>s_rejected := s_rejected s + 1\<rparr>"

definition send_welcome :: "nat \<Rightarrow> Server \<Rightarrow> Server" where
  "send_welcome i s =
     send_player i (zero_packet\<lparr>pk_type := FZ_WELCOME, pk_length := 9,
       pk_payload := fill (of_nat i # fz_put64 (p_nonce (player s i)))\<rparr>) s"

definition join_error :: "sockaddr_in \<Rightarrow> u64 \<Rightarrow> u8 \<Rightarrow> Server \<Rightarrow> Server" where
  "join_error address nonce reason s =
     transmit address (zero_packet\<lparr>pk_type := FZ_JOIN_REJECT, pk_length := 9,
       pk_payload := fill (fz_put64 nonce @ [reason])\<rparr>) (s\<lparr>s_rejected := s_rejected s + 1\<rparr>)"

text \<open>\<open>inet_ntoa\<close>: the four bytes of the address in decimal.\<close>

definition inet_ntoa :: "u32 \<Rightarrow> string" where
  "inet_ntoa a =
     fmt_u (unat (drop_bit 24 a)) @ ''.'' @ fmt_u (unat (drop_bit 16 a AND 255)) @ ''.''
       @ fmt_u (unat (drop_bit 8 a AND 255)) @ ''.'' @ fmt_u (unat (a AND 255))"

definition join_slot :: "nat \<Rightarrow> sockaddr_in \<Rightarrow> u64 \<Rightarrow> Server \<Rightarrow> Server" where
  "join_slot i address nonce s =
     (let (token, s) = random_id s;
          s = update_player i (\<lambda>_. zero_player\<lparr>p_address := address, p_token := token\<rparr>) s
      in if token = 0 then log_event 0 (int i) ''Cannot create session token'' s
         else let (t, s) = now_us s;
                  s = update_player i (\<lambda>p. p\<lparr>p_nonce := nonce, p_seen := t, p_status := FZ_JOINED\<rparr>) s;
                  s = (if s_host s = 255 then s\<lparr>s_host := of_nat i\<rparr> else s);
                  s = log_event 1 (int i) (''joined endpoint='' @ inet_ntoa (sin_addr address) @ '':''
                        @ fmt_u (unat (sin_port address))) s
           in snapshot (send_welcome i s))"

definition receive_hello :: "fz_packet \<Rightarrow> sockaddr_in \<Rightarrow> Server \<Rightarrow> Server" where
  "receive_hello packet address s =
     (let payload = pk_payload packet; len = unat (pk_length packet);
          keylen = unat (payload ! 8); nonce = fz_u64 payload
      in if len < 9 \<or> keylen > FZ_KEY_MAX \<or> len \<noteq> 9 + keylen then reject s
         else if keylen \<noteq> length (s_key s) \<or> take keylen (drop 9 payload) \<noteq> take keylen (s_key s)
         then join_error address nonce FZ_REJECT_PASSWORD s
         else if s_owner_nonce s \<noteq> 0 \<and> \<not> occupied (player s 0) \<and> nonce \<noteq> s_owner_nonce s
         then join_error address nonce FZ_REJECT_STARTING s
         else case find (\<lambda>i. occupied (player s i)
                       \<and> same_address address (p_address (player s i))) [0..<4] of
           Some i \<Rightarrow> if nonce = p_nonce (player s i) then send_welcome i s else s
         | None \<Rightarrow>
             if s_phase s \<noteq> FZ_LOBBY then join_error address nonce FZ_REJECT_RACING s
             else if count s \<ge> unat (s_expected s) then join_error address nonce FZ_REJECT_FULL s
             else case find (\<lambda>i. \<not> occupied (player s i)) [0..<4] of
               None \<Rightarrow> s
             | Some i \<Rightarrow> join_slot i address nonce s)"

section \<open>Authenticated packets\<close>

definition authenticate :: "fz_packet \<Rightarrow> sockaddr_in \<Rightarrow> Server \<Rightarrow> nat option" where
  "authenticate packet address s =
     find (\<lambda>i. occupied (player s i) \<and> pk_session packet = s_session s
             \<and> pk_token packet = p_token (player s i)
             \<and> same_address address (p_address (player s i))) [0..<4]"

definition receive_pong :: "nat \<Rightarrow> Server \<Rightarrow> Server" where
  "receive_pong i s =
     (let (t, s) = now_us s
      in update_player i (\<lambda>p.
           let sample = fl (double_of_u64 (t - p_ping p) / 1000);
               delta = fl (sample - p_rtt p);
               delta = (if delta < 0 then - delta else delta)
           in p\<lparr>p_jitter := fl (fl (p_jitter p * fl (9 / 10)) + fl (delta * fl (1 / 10))),
                p_rtt := (if p_rtt p \<noteq> 0
                          then fl (fl (p_rtt p * fl (8 / 10)) + fl (sample * fl (2 / 10)))
                          else sample),
                p_ping := 0, p_seen := t\<rparr>) s)"

definition receive_ping :: "nat \<Rightarrow> fz_packet \<Rightarrow> Server \<Rightarrow> Server" where
  "receive_ping i packet s =
     (let (t, s) = now_us s;
          s = update_player i (\<lambda>p. p\<lparr>p_seen := t\<rparr>) s
      in send_player i (zero_packet\<lparr>pk_type := FZ_PONG, pk_length := 16,
           pk_payload := fill (take 8 (pk_payload packet) @ fz_put64 t)\<rparr>) s)"

definition receive_state :: "nat \<Rightarrow> fz_packet \<Rightarrow> nat \<Rightarrow> Server \<Rightarrow> Server" where
  "receive_state i packet sz s =
     (if pk_length packet \<noteq> 5 \<or> s_phase s \<noteq> FZ_RACING
         \<or> p_status (player s i) \<noteq> FZ_PLAYER_RACING then reject s
      else if \<not> fz_newer (pk_seq packet) (p_state_seq (player s i)) then s\<lparr>s_stale := s_stale s + 1\<rparr>
      else let s = update_player i (\<lambda>p. p\<lparr>p_state_seq := pk_seq packet,
                     p_x := fz_u16 (pk_payload packet), p_y := fz_u16 (drop 2 (pk_payload packet)),
                     p_orientation := pk_payload packet ! 4\<rparr>) s;
               (t, s) = now_us s;
               s = update_player i (\<lambda>p. p\<lparr>p_updated := t, p_seen := t, p_packets := p_packets p + 1,
                     p_bytes := p_bytes p + of_nat sz\<rparr>) s;
               p = player s i
        in log_event 3 (int i) (''state seq='' @ fmt_u (unat (p_state_seq p)) @ '' x=''
             @ fmt_u (unat (p_x p)) @ '' y='' @ fmt_u (unat (p_y p)) @ '' orientation=''
             @ fmt_u (unat (p_orientation p))) s)"

text \<open>The \<open>switch(cmd)\<close>: whether the command is valid, and the state after its assignments.\<close>

definition apply_command :: "nat \<Rightarrow> fz_packet \<Rightarrow> Server \<Rightarrow> bool \<times> Server" where
  "apply_command i packet s =
     (let payload = pk_payload packet; len = pk_length packet; cmd = payload ! 0
      in if cmd = FZ_SELECT then
           let valid = (len = 2 \<and> payload ! 1 < 4 \<and> s_phase s = FZ_LOBBY)
           in (valid, if valid
                then update_player i (\<lambda>p. p\<lparr>p_car := payload ! 1, p_status := FZ_SELECTED\<rparr>) s else s)
         else if cmd = FZ_LOADED then
           let valid = (len = 6 \<and> s_phase s = FZ_LOADING)
           in (valid, if valid
                then let s = update_player i (\<lambda>p. p\<lparr>p_x := fz_u16 (drop 1 payload),
                           p_y := fz_u16 (drop 3 payload), p_orientation := payload ! 5,
                           p_status := FZ_PLAYER_LOADED\<rparr>) s;
                         (t, s) = now_us s
                     in update_player i (\<lambda>p. p\<lparr>p_updated := t\<rparr>) s
                else s)
         else if cmd = FZ_ARM then
           let valid = (len = 9 \<and> s_phase s = FZ_COUNTDOWN \<and> fz_u64 (drop 1 payload) = s_start s)
           in (valid, if valid then update_player i (\<lambda>p. p\<lparr>p_armed := s_start s\<rparr>) s else s)
         else if cmd = FZ_FINISH then
           let valid = (len = 1 \<and> s_phase s = FZ_RACING \<and> p_status (player s i) = FZ_PLAYER_RACING)
           in (valid, if valid
                then update_player i (\<lambda>p. p\<lparr>p_status := FZ_FINISHED, p_x := 0, p_y := 0\<rparr>) s else s)
         else if cmd = FZ_NEXT then
           (len = 1 \<and> i = unat (s_host s) \<and> (s_phase s = FZ_RESULTS \<or> s_phase s = FZ_LOBBY), s)
         else if cmd = FZ_CONFIG then
           let valid = (len = 4 \<and> i = unat (s_host s) \<and> s_phase s = FZ_LOBBY
                 \<and> payload ! 1 \<ge> 2 \<and> payload ! 1 \<le> 4 \<and> unat (payload ! 1) \<ge> count s
                 \<and> payload ! 2 < 5 \<and> payload ! 3 < 3)
           in (valid, if valid
                then s\<lparr>s_expected := payload ! 1, s_track := payload ! 2, s_league := payload ! 3\<rparr> else s)
         else if cmd = FZ_LEAVE then (len = 1, s)
         else (False, s))"

definition command_error :: "nat \<Rightarrow> u8 \<Rightarrow> u32 \<Rightarrow> Server \<Rightarrow> Server" where
  "command_error i cmd seq s =
     (let s = reject s;
          s = log_event 2 (int i) (''command_rejected type='' @ fmt_u (unat cmd) @ '' phase=''
                @ fz_phase_name (unat (s_phase s)) @ '' seq='' @ fmt_u (unat seq)) s
      in send_player i (zero_packet\<lparr>pk_type := FZ_ERROR, pk_length := 2,
           pk_payload := fill [cmd, 1]\<rparr>) s)"

definition command_done :: "nat \<Rightarrow> u8 \<Rightarrow> u32 \<Rightarrow> Server \<Rightarrow> Server" where
  "command_done i cmd seq s =
     (let s = log_event 1 (int i) (''command='' @ fmt_u (unat cmd) @ '' status=''
                @ fz_status_name (unat (p_status (player s i))) @ '' seq='' @ fmt_u (unat seq)) s;
          s = (if cmd = FZ_SELECT
               then log_event 1 (int i) (''selected car='' @ fz_car_name (unat (p_car (player s i)))) s else s);
          s = (if cmd = FZ_CONFIG
               then log_event 1 (int i) (''configured players='' @ fmt_u (unat (s_expected s)) @ '' league=''
                      @ fmt_u (unat (s_league s)) @ '' track='' @ fmt_u (unat (s_track s))) s else s);
          s = (if cmd = FZ_NEXT then begin_lobby s else s)
      in if cmd = FZ_LEAVE then drop_player i ''left_room'' s else s)"

text \<open>A command in sequence, up to the final \<open>advance\<close> and \<open>snapshot\<close>.\<close>

definition run_command :: "nat \<Rightarrow> fz_packet \<Rightarrow> Server \<Rightarrow> Server" where
  "run_command i packet s =
     (let cmd = pk_payload packet ! 0;
          (valid, s) = apply_command i packet s;
          s = update_player i (\<lambda>p. p\<lparr>p_command_seq := pk_seq packet\<rparr>) s;
          (t, s) = now_us s;
          s = update_player i (\<lambda>p. p\<lparr>p_seen := t\<rparr>) s
      in if \<not> valid then command_error i cmd (pk_seq packet) s
         else command_done i cmd (pk_seq packet) s)"

definition receive_command :: "nat \<Rightarrow> fz_packet \<Rightarrow> Server \<Rightarrow> Server" where
  "receive_command i packet s =
     (if pk_type packet \<noteq> FZ_COMMAND \<or> pk_length packet < 1 then reject s
      else if \<not> fz_newer (pk_seq packet) (p_command_seq (player s i)) then s\<lparr>s_stale := s_stale s + 1\<rparr>
      else if pk_seq packet \<noteq> p_command_seq (player s i) + 1 then reject s
      else let s = run_command i packet s;
               (now, s) = now_us s
        in snapshot (advance now s))"

definition receive_player :: "nat \<Rightarrow> fz_packet \<Rightarrow> nat \<Rightarrow> Server \<Rightarrow> Server" where
  "receive_player i packet sz s =
     (if pk_type packet = FZ_PONG \<and> pk_length packet = 8 \<and> p_ping (player s i) \<noteq> 0
         \<and> fz_u64 (pk_payload packet) = p_ping (player s i) then receive_pong i s
      else if pk_type packet = FZ_PING \<and> pk_length packet = 8 then receive_ping i packet s
      else if pk_race packet \<noteq> s_race s then s\<lparr>s_stale := s_stale s + 1\<rparr>
      else if pk_type packet = FZ_STATE then receive_state i packet sz s
      else receive_command i packet s)"

definition version_mismatch :: "bytes \<Rightarrow> bool" where
  "version_mismatch b \<longleftrightarrow>
     length b \<ge> FZ_HEADER + 9 \<and> length b \<le> FZ_MAX_PACKET \<and> take 4 b = FZVS
     \<and> b ! 5 = FZ_HELLO \<and> b ! 4 \<noteq> FZ_VERSION
     \<and> unat (fz_u16 (drop 6 b)) = length b - FZ_HEADER"

definition receive_packet :: "bytes \<Rightarrow> sockaddr_in \<Rightarrow> Server \<Rightarrow> Server" where
  "receive_packet b address s =
     (case fz_decode b of
        None \<Rightarrow>
          if version_mismatch b
          then join_error address (fz_u64 (drop FZ_HEADER b)) FZ_REJECT_VERSION s
          else reject s
      | Some packet \<Rightarrow>
          if s_closed s then s
          else let s = s\<lparr>s_rx := s_rx s + 1\<rparr>
            in if pk_type packet = FZ_HELLO then receive_hello packet address s
               else case authenticate packet address s of
                 None \<Rightarrow> reject s
               | Some i \<Rightarrow> receive_player i packet (length b) s)"

end
