(* ===== verification/Fz_Server_Loop.thy ===== *)
theory Fz_Server_Loop
  imports Fz_Server
begin

text \<open>
  The outer interface of the server library (\<^verbatim>\<open>server/include/fzvs_server.h\<close>): creation, the
  polling step, the status query and shutdown. What the operating system answers is an argument of
  each call: the result of \<open>poll\<close>, the results of \<open>recvfrom\<close> in order, and the outcome of each step
  of opening the socket.
\<close>

section \<open>Creation\<close>

text \<open>A null pointer is \<open>None\<close>.\<close>

record fz_server_config =
  c_bind_address :: "string option"
  c_room_key :: "bytes option"
  c_port :: u32
  c_players :: u32
  c_track :: u32
  c_league :: u32
  c_log_level :: int
  c_trace_player :: int
  c_owner_nonce :: u64

text \<open>The operating system's answers while a server is created, \<open>os_strerror\<close> for a failed one.\<close>

record os_setup =
  os_alloc :: bool
  os_socket :: int
  os_bind :: bool
  os_nonblock :: bool
  os_strerror :: string

text \<open>\<open>inet_pton(AF_INET, \<dots>)\<close>: dotted decimal with four parts of at most 255 and no leading zeros.\<close>

fun pton_parts :: "nat option \<Rightarrow> string \<Rightarrow> nat list option" where
  "pton_parts acc [] = map_option (\<lambda>v. [v]) acc"
| "pton_parts acc (c # cs) =
     (let n = of_char c in
      if 48 \<le> n \<and> n \<le> (57 :: nat)
      then (case acc of None \<Rightarrow> pton_parts (Some (n - 48)) cs
            | Some v \<Rightarrow> if v = 0 \<or> v * 10 + (n - 48) > 255 then None
                else pton_parts (Some (v * 10 + (n - 48))) cs)
      else if n = 46
      then (case acc of None \<Rightarrow> None | Some v \<Rightarrow> map_option ((#) v) (pton_parts None cs))
      else None)"

definition inet_pton :: "string \<Rightarrow> u32 option" where
  "inet_pton cs =
     (case pton_parts None cs of
        Some [a, b, c, d] \<Rightarrow> Some (of_nat (((a * 256 + b) * 256 + c) * 256 + d))
      | _ \<Rightarrow> None)"

text \<open>\<open>if(error && size) snprintf(error,size,\<dots>)\<close>; a null \<open>error\<close> is size 0.\<close>

definition error_text :: "nat \<Rightarrow> string \<Rightarrow> string option" where
  "error_text sz message = (if sz = 0 then None else Some (take (sz - 1) message))"

definition valid_config :: "fz_server_config \<Rightarrow> bool" where
  "valid_config c \<longleftrightarrow>
     \<not> (c_bind_address c = None \<or> c_room_key c = None \<or> c_port c < 1 \<or> c_port c > 65535
       \<or> c_port c = 12001 \<or> c_players c < 2 \<or> c_players c > 4 \<or> c_track c > 4 \<or> c_league c > 2
       \<or> length (the (c_room_key c)) > FZ_KEY_MAX)"

definition new_server :: "fz_server_config \<Rightarrow> io \<Rightarrow> Server" where
  "new_server c w =
     \<lparr>s_socket = - 1, s_log_level = c_log_level c, s_trace_player = c_trace_player c,
      s_closed = False, s_port = unat (c_port c), s_owner_nonce = c_owner_nonce c, s_tick = 0,
      s_summary = 0, s_ring = zero_ring, s_session = 0, s_start = 0, s_phase_since = 0, s_rx = 0,
      s_tx = 0, s_rejected = 0, s_stale = 0, s_race = 1, s_snapshot_seq = 0, s_phase = FZ_LOBBY,
      s_expected = ucast (c_players c), s_host = 255, s_track = ucast (c_track c),
      s_league = ucast (c_league c), s_key = the (c_room_key c),
      s_players = replicate 4 zero_player, s_io = w\<rparr>"

definition fz_server_create ::
    "fz_server_config option \<Rightarrow> nat \<Rightarrow> os_setup \<Rightarrow> io \<Rightarrow> string option + Server" where
  "fz_server_create config sz os w =
     (case config of
        None \<Rightarrow> Inl (error_text sz
          ''Invalid server configuration (port 12001 is reserved for discovery)'')
      | Some c \<Rightarrow>
          if \<not> valid_config c
          then Inl (error_text sz
            ''Invalid server configuration (port 12001 is reserved for discovery)'')
          else if \<not> os_alloc os then Inl (error_text sz ''Cannot allocate server'')
          else let (session, s) = random_id (new_server c w);
                   s = s\<lparr>s_session := session\<rparr>
            in if session = 0 then Inl (error_text sz ''Cannot read secure random source'')
               else case inet_pton (the (c_bind_address c)) of
                 None \<Rightarrow> Inl (error_text sz ''Bind address must be IPv4'')
               | Some address \<Rightarrow>
                   if os_socket os < 0 \<or> \<not> os_bind os \<or> \<not> os_nonblock os
                   then Inl (error_text sz (''Cannot listen on '' @ the (c_bind_address c) @ '':''
                     @ fmt_u (unat (c_port c)) @ '': '' @ os_strerror os))
                   else let s = s\<lparr>s_socket := os_socket os\<rparr>;
                            (t, s) = now_us s;
                            s = s\<lparr>s_tick := t, s_summary := t, s_phase_since := t\<rparr>
                     in Inr (log_event 1 (- 1) (''listening address='' @ the (c_bind_address c)
                          @ '' port='' @ fmt_u (unat (c_port c)) @ '' players=''
                          @ fmt_u (unat (s_expected s))) s))"

section \<open>Polling\<close>

text \<open>A result of \<open>recvfrom\<close>: a datagram, nothing to read (or interrupted), or a failure.\<close>

datatype recv_result =
    Datagram bytes sockaddr_in
  | Would_block
  | Recv_error string

text \<open>
  The results one call sees: the text of a \<open>poll\<close> failure other than \<open>EINTR\<close>, and what the successive
  \<open>recvfrom\<close> calls return, after which there is nothing to read.
\<close>

record poll_env =
  pe_poll_error :: "string option"
  pe_recv :: "recv_result list"

definition poll_timeout :: "u32 \<Rightarrow> u64 \<Rightarrow> u64 \<Rightarrow> u32" where
  "poll_timeout wait_ms tick before =
     (let until = ucast ((if tick > before then tick - before else 0) div 1000);
          timeout = (if wait_ms < until then wait_ms else until)
      in if timeout > 16 then 16 else timeout)"

text \<open>The receive loop; \<open>False\<close> when it returns from the call with a socket failure.\<close>

fun receive_loop :: "nat \<Rightarrow> recv_result list \<Rightarrow> Server \<Rightarrow> bool \<times> Server" where
  "receive_loop 0 rs s = (True, s)"
| "receive_loop (Suc budget) rs s =
     (if s_closed s then (True, s)
      else case rs of
        [] \<Rightarrow> (True, s)
      | Would_block # rs \<Rightarrow> (True, s)
      | Recv_error e # rs \<Rightarrow> (False, log_event 0 (- 1) (''recvfrom: '' @ e) s)
      | Datagram b address # rs \<Rightarrow>
          receive_loop budget rs (receive_packet (take (FZ_MAX_PACKET + 1) b) address s))"

definition poll_tick :: "u64 \<Rightarrow> Server \<Rightarrow> Server" where
  "poll_tick now s =
     (if now \<ge> s_tick s
      then let s = advance now s;
               s = (if \<not> s_closed s then snapshot s else s)
        in s\<lparr>s_tick := now + 16667\<rparr>
      else s)"

definition per_second :: "u64 \<Rightarrow> u64 \<Rightarrow> rat" where
  "per_second n interval = fl (fl (double_of_u64 n * 1000000) / double_of_u64 interval)"

definition summary_player :: "u64 \<Rightarrow> nat \<Rightarrow> Server \<Rightarrow> Server" where
  "summary_player now i s =
     (if occupied (player s i)
      then let p = player s i;
               s = log_event 2 (int i) (''network rtt_ms='' @ fmt_f1 (p_rtt p) @ '' jitter_ms=''
                     @ fmt_f1 (p_jitter p) @ '' rx_pps='' @ fmt_f1 (per_second (p_packets p) (now - s_summary s))
                     @ '' bytes_per_sec='' @ fmt_f1 (per_second (p_bytes p) (now - s_summary s))
                     @ '' state_age_ms=''
                     @ fmt_u (unat (if p_updated p \<noteq> 0 then (now - p_updated p) div 1000 else 0))) s;
               s = update_player i (\<lambda>p. p\<lparr>p_packets := 0, p_bytes := 0, p_ping := now\<rparr>) s
        in send_player i (zero_packet\<lparr>pk_type := FZ_PING, pk_length := 8,
             pk_payload := fill (fz_put64 now)\<rparr>) s
      else s)"

definition poll_summary :: "u64 \<Rightarrow> Server \<Rightarrow> Server" where
  "poll_summary now s =
     (if now - s_summary s \<ge> 5000000
      then let s = log_event 2 (- 1) (''network rx='' @ fmt_u (unat (s_rx s)) @ '' tx=''
                     @ fmt_u (unat (s_tx s)) @ '' rejected='' @ fmt_u (unat (s_rejected s))
                     @ '' stale='' @ fmt_u (unat (s_stale s))) s;
               s = fold (summary_player now) [0..<4] s
        in s\<lparr>s_summary := now\<rparr>
      else s)"

definition poll_wait :: "u32 \<Rightarrow> Server \<Rightarrow> Server" where
  "poll_wait timeout s = s\<lparr>s_io := (s_io s)\<lparr>io_waits := io_waits (s_io s) @ [timeout]\<rparr>\<rparr>"

text \<open>The value returned: 1 running, 0 closed, -1 socket failure.\<close>

definition fz_server_poll :: "u32 \<Rightarrow> poll_env \<Rightarrow> Server \<Rightarrow> int \<times> Server" where
  "fz_server_poll wait_ms env s =
     (if s_closed s then (0, s)
      else let (before, s) = now_us s;
               s = poll_wait (poll_timeout wait_ms (s_tick s) before) s
        in case pe_poll_error env of
             Some e \<Rightarrow> (- 1, log_event 0 (- 1) (''poll: '' @ e) s)
           | None \<Rightarrow>
               let (ok, s) = receive_loop 128 (pe_recv env) s
               in if \<not> ok then (- 1, s)
                  else let (now, s) = now_us s;
                           s = poll_summary now (poll_tick now s)
                    in (if s_closed s then 0 else 1, s))"

section \<open>Status\<close>

record fz_server_peer =
  sp_status :: u8
  sp_car :: u8
  sp_rtt_ms :: rat
  sp_jitter_ms :: rat
  sp_movement_packets :: u64
  sp_movement_bytes :: u64
  sp_age_ms :: u64

record fz_server_status =
  st_session :: u64
  st_rx :: u64
  st_tx :: u64
  st_rejected :: u64
  st_stale :: u64
  st_dropped_events :: u64
  st_race :: u32
  st_port :: nat
  st_phase :: nat
  st_players :: nat
  st_occupied :: nat
  st_host :: nat
  st_track :: nat
  st_league :: nat
  st_owner_joined :: bool
  st_closed :: bool
  st_peers :: "fz_server_peer list"

definition peer_status :: "u64 \<Rightarrow> Player \<Rightarrow> fz_server_peer" where
  "peer_status now p =
     \<lparr>sp_status = p_status p, sp_car = p_car p, sp_rtt_ms = p_rtt p, sp_jitter_ms = p_jitter p,
      sp_movement_packets = p_packets p, sp_movement_bytes = p_bytes p,
      sp_age_ms = (if p_updated p \<noteq> 0 then (now - p_updated p) div 1000 else 0)\<rparr>"

definition fz_server_get_status :: "Server \<Rightarrow> fz_server_status \<times> Server" where
  "fz_server_get_status s =
     (let (now, s') = now_us s
      in (\<lparr>st_session = s_session s, st_rx = s_rx s, st_tx = s_tx s, st_rejected = s_rejected s,
           st_stale = s_stale s, st_dropped_events = er_dropped (s_ring s), st_race = s_race s,
           st_port = s_port s, st_phase = unat (s_phase s), st_players = unat (s_expected s),
           st_occupied = count s, st_host = unat (s_host s), st_track = unat (s_track s),
           st_league = unat (s_league s),
           st_owner_joined = (s_owner_nonce s \<noteq> 0 \<and> occupied (player s 0)),
           st_closed = s_closed s,
           st_peers = map (\<lambda>i. peer_status now (player s i)) [0..<4]\<rparr>, s'))"

section \<open>Shutdown\<close>

definition room_closed_packet :: fz_packet where
  "room_closed_packet = zero_packet\<lparr>pk_type := FZ_ROOM_CLOSED, pk_length := 1, pk_payload := fill [1]\<rparr>"

definition fz_server_close :: "Server \<Rightarrow> Server" where
  "fz_server_close s =
     (if s_socket s < 0 then s
      else let s = send_occupied room_closed_packet s;
               s = log_event 1 (- 1) ''shutdown'' s
        in s\<lparr>s_socket := - 1, s_closed := True\<rparr>)"

text \<open>What remains to be seen of a server when its memory is given back.\<close>

definition fz_server_destroy :: "Server \<Rightarrow> Server" where
  "fz_server_destroy s = fz_server_close s"

end
