(* ===== verification/Fz_Server_Game.thy ===== *)
theory Fz_Server_Game
  imports Fz_Server
begin

text \<open>
  The game state of the server, apart from logging, counting and sending: the interface
  \<open>acts_as\<close> says which update of the game state an operation performs, and its interpretations
  give that update for every helper of the server. The invariant proofs work on these updates.
\<close>

section \<open>The game state\<close>

text \<open>
  The game state of a server: everything but the event ring, the traffic counters, the snapshot
  number and the consumed part of the outside world. An operation \<open>acts as\<close> an update of the
  game state when it performs that update and otherwise only logs, counts, reads the clock and
  sends; most helpers act as the identity.
\<close>

definition game :: "Server \<Rightarrow> Server" where
  "game s = s\<lparr>s_ring := zero_ring, s_phase_since := 0, s_rx := 0, s_tx := 0, s_rejected := 0,
     s_stale := 0, s_snapshot_seq := 0,
     s_io := (s_io s)\<lparr>io_readings := 0, io_draws := 0, io_sent := []\<rparr>\<rparr>"

locale acts_as =
  fixes act :: "Server \<Rightarrow> Server"
    and upd :: "Server \<Rightarrow> Server"
  assumes game_act: "game (act s) = game (upd s)"
    and readings_act: "io_readings (s_io s) \<le> io_readings (s_io (act s))"
    and ring_act: "ring_invar (s_ring s) \<Longrightarrow> ring_invar (s_ring (act s))"
begin

lemmas act_game [simp] = game_act
lemmas act_ring [simp] = ring_act

lemma act_readings [simp]: "n \<le> io_readings (s_io s) \<Longrightarrow> n \<le> io_readings (s_io (act s))"
  using readings_act order_trans by blast

lemma act_socket [simp]: "s_socket (act s) = s_socket (upd s)"
  using arg_cong [OF game_act, of s_socket] by (simp add: game_def)

lemma act_log_level [simp]: "s_log_level (act s) = s_log_level (upd s)"
  using arg_cong [OF game_act, of s_log_level] by (simp add: game_def)

lemma act_trace_player [simp]: "s_trace_player (act s) = s_trace_player (upd s)"
  using arg_cong [OF game_act, of s_trace_player] by (simp add: game_def)

lemma act_closed [simp]: "s_closed (act s) = s_closed (upd s)"
  using arg_cong [OF game_act, of s_closed] by (simp add: game_def)

lemma act_port [simp]: "s_port (act s) = s_port (upd s)"
  using arg_cong [OF game_act, of s_port] by (simp add: game_def)

lemma act_owner_nonce [simp]: "s_owner_nonce (act s) = s_owner_nonce (upd s)"
  using arg_cong [OF game_act, of s_owner_nonce] by (simp add: game_def)

lemma act_tick [simp]: "s_tick (act s) = s_tick (upd s)"
  using arg_cong [OF game_act, of s_tick] by (simp add: game_def)

lemma act_summary [simp]: "s_summary (act s) = s_summary (upd s)"
  using arg_cong [OF game_act, of s_summary] by (simp add: game_def)

lemma act_session [simp]: "s_session (act s) = s_session (upd s)"
  using arg_cong [OF game_act, of s_session] by (simp add: game_def)

lemma act_start [simp]: "s_start (act s) = s_start (upd s)"
  using arg_cong [OF game_act, of s_start] by (simp add: game_def)

lemma act_race [simp]: "s_race (act s) = s_race (upd s)"
  using arg_cong [OF game_act, of s_race] by (simp add: game_def)

lemma act_phase [simp]: "s_phase (act s) = s_phase (upd s)"
  using arg_cong [OF game_act, of s_phase] by (simp add: game_def)

lemma act_expected [simp]: "s_expected (act s) = s_expected (upd s)"
  using arg_cong [OF game_act, of s_expected] by (simp add: game_def)

lemma act_host [simp]: "s_host (act s) = s_host (upd s)"
  using arg_cong [OF game_act, of s_host] by (simp add: game_def)

lemma act_track [simp]: "s_track (act s) = s_track (upd s)"
  using arg_cong [OF game_act, of s_track] by (simp add: game_def)

lemma act_league [simp]: "s_league (act s) = s_league (upd s)"
  using arg_cong [OF game_act, of s_league] by (simp add: game_def)

lemma act_key [simp]: "s_key (act s) = s_key (upd s)"
  using arg_cong [OF game_act, of s_key] by (simp add: game_def)

lemma act_players [simp]: "s_players (act s) = s_players (upd s)"
  using arg_cong [OF game_act, of s_players] by (simp add: game_def)

lemma act_io_clock [simp]: "io_clock (s_io (act s)) = io_clock (s_io (upd s))"
  using arg_cong [OF game_act, of "\<lambda>s. io_clock (s_io s)"] by (simp add: game_def)

lemma act_io_entropy [simp]: "io_entropy (s_io (act s)) = io_entropy (s_io (upd s))"
  using arg_cong [OF game_act, of "\<lambda>s. io_entropy (s_io s)"] by (simp add: game_def)

lemma act_io_send_ok [simp]: "io_send_ok (s_io (act s)) = io_send_ok (s_io (upd s))"
  using arg_cong [OF game_act, of "\<lambda>s. io_send_ok (s_io s)"] by (simp add: game_def)

end

lemma game_eqD:
  assumes "game s = game t"
  shows "s_phase s = s_phase t" and "s_players s = s_players t" and "s_race s = s_race t"
    and "s_session s = s_session t" and "s_start s = s_start t" and "s_closed s = s_closed t"
    and "s_host s = s_host t" and "s_expected s = s_expected t"
  using arg_cong [OF assms, of s_phase] arg_cong [OF assms, of s_players] arg_cong [OF assms, of s_race]
    arg_cong [OF assms, of s_session] arg_cong [OF assms, of s_start] arg_cong [OF assms, of s_closed]
    arg_cong [OF assms, of s_host] arg_cong [OF assms, of s_expected]
  by (simp_all add: game_def)

lemma game_idem [simp]: "game (game s) = game s"
  by (simp add: game_def)

lemma game_bookkeeping [simp]:
  "game (s\<lparr>s_ring := r\<rparr>) = game s" "game (s\<lparr>s_phase_since := v\<rparr>) = game s"
  "game (s\<lparr>s_rx := v\<rparr>) = game s" "game (s\<lparr>s_tx := v\<rparr>) = game s"
  "game (s\<lparr>s_rejected := v\<rparr>) = game s" "game (s\<lparr>s_stale := v\<rparr>) = game s"
  "game (s\<lparr>s_snapshot_seq := q\<rparr>) = game s"
  by (simp_all add: game_def)

lemma game_push:
  "game (s\<lparr>s_players := v0\<rparr>) = (game s)\<lparr>s_players := v0\<rparr>"
  "game (s\<lparr>s_host := v1\<rparr>) = (game s)\<lparr>s_host := v1\<rparr>"
  "game (s\<lparr>s_start := v2\<rparr>) = (game s)\<lparr>s_start := v2\<rparr>"
  "game (s\<lparr>s_race := v3\<rparr>) = (game s)\<lparr>s_race := v3\<rparr>"
  "game (s\<lparr>s_phase := v4\<rparr>) = (game s)\<lparr>s_phase := v4\<rparr>"
  "game (s\<lparr>s_expected := v5\<rparr>) = (game s)\<lparr>s_expected := v5\<rparr>"
  "game (s\<lparr>s_track := v6\<rparr>) = (game s)\<lparr>s_track := v6\<rparr>"
  "game (s\<lparr>s_league := v7\<rparr>) = (game s)\<lparr>s_league := v7\<rparr>"
  "game (s\<lparr>s_closed := v8\<rparr>) = (game s)\<lparr>s_closed := v8\<rparr>"
  by (simp_all add: game_def)

lemma acts_as_id: "acts_as (\<lambda>s. s) (\<lambda>s. s)"
  by unfold_locales simp_all

lemma acts_as_comp:
  assumes f: "acts_as f u" and g: "acts_as g v"
    and v: "\<And>s t. game s = game t \<Longrightarrow> game (v s) = game (v t)"
  shows "acts_as (\<lambda>s. g (f s)) (\<lambda>s. v (u s))"
proof
  fix s
  show "game (g (f s)) = game (v (u s))"
    using acts_as.game_act [OF g] acts_as.game_act [OF f] v by metis
  show "io_readings (s_io s) \<le> io_readings (s_io (g (f s)))"
    using acts_as.readings_act [OF f, of s] acts_as.readings_act [OF g, of "f s"] by simp
  show "ring_invar (s_ring s) \<Longrightarrow> ring_invar (s_ring (g (f s)))"
    by (intro acts_as.ring_act [OF g] acts_as.ring_act [OF f])
qed

lemma acts_as_fold:
  assumes "\<And>i. acts_as (f i) (\<lambda>s. s)"
  shows "acts_as (fold f xs) (\<lambda>s. s)"
proof (induction xs)
  case (Cons x xs)
  have "acts_as (\<lambda>s. fold f xs (f x s)) (\<lambda>s. s)"
    using acts_as_comp [OF assms Cons.IH] by simp
  then show ?case by (simp add: comp_def)
qed (use acts_as_id in \<open>simp add: id_def\<close>)

lemma acts_as_if:
  "acts_as f u \<Longrightarrow> acts_as g u \<Longrightarrow> acts_as (\<lambda>s. if b s then f s else g s) u"
  by (auto simp: acts_as_def)

section \<open>The helpers\<close>

lemma fst_now_us [simp]: "fst (now_us s) = io_clock (s_io s) (io_readings (s_io s))"
  by (simp add: now_us_def)

lemma readings_now_us [simp]: "io_readings (s_io (snd (now_us s))) = Suc (io_readings (s_io s))"
  by (simp add: now_us_def)

interpretation now_us_op: acts_as "\<lambda>s. snd (now_us s)" "\<lambda>s. s"
  by unfold_locales (simp_all add: now_us_def game_def)

interpretation random_op: acts_as "\<lambda>s. snd (random_id s)" "\<lambda>s. s"
  by unfold_locales (simp_all add: random_id_def game_def)

interpretation log_op: acts_as "log_event l k m" "\<lambda>s. s" for l k m
  by unfold_locales (simp_all add: log_event_def now_us_def game_def ring_invar_push)

interpretation transmit_op: acts_as "transmit a p" "\<lambda>s. s" for a p
  by unfold_locales (simp_all add: transmit_def game_def Let_def)

interpretation send_player_op: acts_as "send_player i p" "\<lambda>s. s" for i p
  by unfold_locales (simp_all add: send_player_def)

interpretation send_occupied_op: acts_as "send_occupied p" "\<lambda>s. s" for p
  unfolding send_occupied_def
  by (intro acts_as_fold acts_as_if acts_as_id send_player_op.acts_as_axioms)

interpretation snapshot_op: acts_as snapshot "\<lambda>s. s"
  by unfold_locales (simp_all add: snapshot_def Let_def case_prod_beta)

interpretation welcome_op: acts_as "send_welcome i" "\<lambda>s. s" for i
  by unfold_locales (simp_all add: send_welcome_def)

interpretation reject_op: acts_as reject "\<lambda>s. s"
  by unfold_locales (simp_all add: reject_def)

interpretation join_error_op: acts_as "join_error a n r" "\<lambda>s. s" for a n r
  by unfold_locales (simp_all add: join_error_def)

interpretation command_error_op: acts_as "command_error i c q" "\<lambda>s. s" for i c q
  by unfold_locales (simp_all add: command_error_def)

interpretation phase_op: acts_as "phase v" "\<lambda>s. s\<lparr>s_phase := v\<rparr>" for v
  by unfold_locales (simp_all add: phase_def Let_def case_prod_beta game_def now_us_def log_event_def ring_invar_push)

interpretation update_player_op: acts_as "update_player i f" "\<lambda>s. s\<lparr>s_players := (s_players s)[i := f (s_players s ! i)]\<rparr>" for i f
  by unfold_locales (simp_all add: update_player_def)

lemma s_io_update_player [simp]: "s_io (update_player i f s) = s_io s"
  by (simp add: update_player_def)

text \<open>Assigning to all four players.\<close>

definition each :: "(Player \<Rightarrow> Player) \<Rightarrow> Player list \<Rightarrow> Player list" where
  "each f ps = fold (\<lambda>i ps. ps[i := f (ps ! i)]) [0..<4] ps"

lemma each_map: "length ps = 4 \<Longrightarrow> each f ps = map f ps"
  by (erule length_4_cases) (simp add: each_def upt_4)

lemma length_each [simp]: "length (each f ps) = length ps"
  by (simp add: each_def upt_4)

lemma update_players_eq: "update_players f s = s\<lparr>s_players := each f (s_players s)\<rparr>"
  by (simp add: update_players_def each_def upt_4 update_player_def)

interpretation update_players_op: acts_as "update_players f" "\<lambda>s. s\<lparr>s_players := each f (s_players s)\<rparr>" for f
  by unfold_locales (simp_all add: update_players_eq)

interpretation begin_lobby_op: acts_as begin_lobby
  "\<lambda>s. s\<lparr>s_race := s_race s + 1, s_start := 0, s_phase := FZ_LOBBY, s_players := each lobby_player (s_players s)\<rparr>"
  by unfold_locales (simp_all add: begin_lobby_def Let_def update_players_eq game_push)

section \<open>Departures\<close>

text \<open>What the departure of player \<open>i\<close> does to the game.\<close>

definition departed :: "nat \<Rightarrow> Server \<Rightarrow> Server" where
  "departed i s =
     (let marked = (s_players s)[i := (player s i)\<lparr>p_status := FZ_DISCONNECTED, p_x := 0, p_y := 0\<rparr>]
      in if s_owner_nonce s \<noteq> 0 \<and> i = 0 then s\<lparr>s_players := marked, s_closed := True\<rparr>
         else let h = (if unat (s_host s) = i then next_host (s\<lparr>s_players := marked\<rparr>) else s_host s);
                  rest = (if s_phase s = FZ_LOBBY then (s_players s)[i := zero_player] else marked)
           in if count_players rest = 0
              then s\<lparr>s_race := s_race s + 1, s_start := 0, s_phase := FZ_LOBBY,
                     s_players := each lobby_player rest, s_host := 255\<rparr>
              else s\<lparr>s_players := rest, s_host := h\<rparr>)"

lemma next_host_cong: "s_players s = s_players t \<Longrightarrow> next_host s = next_host t"
  by (simp add: next_host_def)

lemma game_host_same: "s_host s = h \<Longrightarrow> (game s)\<lparr>s_host := h\<rparr> = game s"
  by (auto simp: game_def)

interpretation drop_op: acts_as "drop_player i r" "departed i" for i r
proof
  fix s
  define s1 where "s1 = log_event 0 (int i) (''disconnected reason='' @ r)
    (update_player i (\<lambda>p. p\<lparr>p_status := FZ_DISCONNECTED, p_x := 0, p_y := 0\<rparr>) s)"
  define a where "a = (if unat (s_host s1) = i then s1\<lparr>s_host := next_host s1\<rparr> else s1)"
  define s2 where "s2 = (if s_phase a = FZ_LOBBY then update_player i (\<lambda>p. zero_player) a else a)"
  define marked where
    "marked = (s_players s)[i := (player s i)\<lparr>p_status := FZ_DISCONNECTED, p_x := 0, p_y := 0\<rparr>]"
  define h where "h = (if unat (s_host s) = i then next_host (s\<lparr>s_players := marked\<rparr>) else s_host s)"
  define rest where "rest = (if s_phase s = FZ_LOBBY then (s_players s)[i := zero_player] else marked)"
  have drop: "drop_player i r s =
    (if s_owner_nonce s1 \<noteq> 0 \<and> i = 0 then s1\<lparr>s_closed := True\<rparr>
     else if count s2 = 0 then (begin_lobby s2)\<lparr>s_host := 255\<rparr> else s2)"
    unfolding drop_player_def Let_def s1_def a_def s2_def by (rule refl)
  have dep: "departed i s =
    (if s_owner_nonce s \<noteq> 0 \<and> i = 0 then s\<lparr>s_players := marked, s_closed := True\<rparr>
     else if count_players rest = 0
          then s\<lparr>s_race := s_race s + 1, s_start := 0, s_phase := FZ_LOBBY,
                     s_players := each lobby_player rest, s_host := 255\<rparr>
          else s\<lparr>s_players := rest, s_host := h\<rparr>)"
    unfolding departed_def Let_def h_def rest_def marked_def by (rule refl)
  have f1: "s_host s1 = s_host s" "s_phase s1 = s_phase s" "s_players s1 = marked"
      "s_owner_nonce s1 = s_owner_nonce s" "s_race s1 = s_race s"
    and g1: "game s1 = game (s\<lparr>s_players := marked\<rparr>)"
    and r1: "io_readings (s_io s) \<le> io_readings (s_io s1)"
      "ring_invar (s_ring s) \<Longrightarrow> ring_invar (s_ring s1)"
    by (simp_all add: s1_def marked_def)
  have "next_host s1 = next_host (s\<lparr>s_players := marked\<rparr>)"
    by (rule next_host_cong) (simp add: f1)
  then have g2: "game s2 = game (s\<lparr>s_players := rest, s_host := h\<rparr>)"
    using g1 by (simp add: s2_def a_def h_def rest_def f1 game_push game_host_same)
      (simp add: marked_def game_def)
  have f2: "s_players s2 = rest" "s_race s2 = s_race s"
    by (simp_all add: s2_def a_def rest_def f1 marked_def)
  have r2: "io_readings (s_io s) \<le> io_readings (s_io s2)"
      "ring_invar (s_ring s) \<Longrightarrow> ring_invar (s_ring s2)"
    using r1 by (simp_all add: s2_def a_def update_player_def)
  show "game (drop_player i r s) = game (departed i s)"
    using g1 g2 by (simp only: drop dep f1 f2) (simp add: game_push f2)
  show "io_readings (s_io s) \<le> io_readings (s_io (drop_player i r s))"
    using r1 r2 by (simp only: drop) simp
  show "ring_invar (s_ring s) \<Longrightarrow> ring_invar (s_ring (drop_player i r s))"
    using r1 r2 by (simp only: drop) simp
qed

section \<open>Phase progress\<close>

text \<open>The four barriers of a race as updates of the game state.\<close>

definition to_loading :: "Server \<Rightarrow> Server" where
  "to_loading s =
     (if s_phase s = FZ_LOBBY \<and> count s = unat (s_expected s) \<and> all_at_least FZ_SELECTED s
      then s\<lparr>s_phase := FZ_LOADING\<rparr> else s)"

definition to_countdown :: "u64 \<Rightarrow> Server \<Rightarrow> Server" where
  "to_countdown now s =
     (if s_phase s = FZ_LOADING \<and> all_at_least FZ_PLAYER_LOADED s
      then s\<lparr>s_start := now + 2000000, s_phase := FZ_COUNTDOWN,
             s_players := each (\<lambda>p. p\<lparr>p_armed := 0\<rparr>) (s_players s)\<rparr> else s)"

definition to_race :: "u64 \<Rightarrow> Server \<Rightarrow> Server" where
  "to_race now s =
     (if s_phase s \<noteq> FZ_COUNTDOWN then s
      else if \<not> all_armed s \<and> now + 500000 \<ge> s_start s then s\<lparr>s_start := now + 2000000\<rparr>
      else if all_armed s \<and> now \<ge> s_start s
      then s\<lparr>s_phase := FZ_RACING, s_players := each racing_player (s_players s)\<rparr>
      else s)"

definition to_results :: "Server \<Rightarrow> Server" where
  "to_results s =
     (if s_phase s = FZ_RACING \<and> all_at_least FZ_FINISHED s then s\<lparr>s_phase := FZ_RESULTS\<rparr> else s)"

lemmas barrier_defs = to_loading_def to_countdown_def to_race_def to_results_def

lemma barriers_keep [simp]:
  "s_closed (to_loading s) = s_closed s" "s_closed (to_countdown now s) = s_closed s"
  "s_closed (to_race now s) = s_closed s" "s_closed (to_results s) = s_closed s"
  "s_race (to_loading s) = s_race s" "s_race (to_countdown now s) = s_race s"
  "s_race (to_race now s) = s_race s" "s_race (to_results s) = s_race s"
  "s_owner_nonce (to_loading s) = s_owner_nonce s" "s_owner_nonce (to_countdown now s) = s_owner_nonce s"
  "s_owner_nonce (to_race now s) = s_owner_nonce s" "s_owner_nonce (to_results s) = s_owner_nonce s"
  by (simp_all add: barrier_defs)

interpretation start_loading_op: acts_as start_loading to_loading
  by unfold_locales (simp_all add: start_loading_def to_loading_def)

interpretation start_countdown_op: acts_as "start_countdown now" "to_countdown now" for now
  by unfold_locales (simp_all add: start_countdown_def to_countdown_def update_players_eq game_push)

interpretation start_race_op: acts_as "start_race now" "to_race now" for now
  by unfold_locales
    (simp_all add: start_race_def to_race_def update_players_eq game_push)

interpretation end_race_op: acts_as end_race to_results
  by unfold_locales (simp_all add: end_race_def to_results_def)

end
