(* ===== verification/Fz_Server_Inv.thy ===== *)
theory Fz_Server_Inv
  imports Fz_Server_Game
begin

text \<open>
  The invariant of the race server and that every operation preserves it: the table of player
  states each phase allows, one seat per endpoint, a host who is present, no more players than
  the room expects, and the seat reserved for the owner of a hosted room.
\<close>

section \<open>The invariant\<close>

text \<open>The player states that occur in each phase of an open room.\<close>

definition allowed :: "u8 \<Rightarrow> u8 \<Rightarrow> bool" where
  "allowed ph st \<longleftrightarrow>
     (ph = FZ_LOBBY \<and> st \<in> {FZ_EMPTY, FZ_JOINED, FZ_SELECTED})
     \<or> (ph = FZ_LOADING \<and> st \<in> {FZ_EMPTY, FZ_SELECTED, FZ_PLAYER_LOADED, FZ_DISCONNECTED})
     \<or> (ph = FZ_COUNTDOWN \<and> st \<in> {FZ_EMPTY, FZ_PLAYER_LOADED, FZ_DISCONNECTED})
     \<or> (ph = FZ_RACING \<and> st \<in> {FZ_EMPTY, FZ_PLAYER_RACING, FZ_FINISHED, FZ_DISCONNECTED})
     \<or> (ph = FZ_RESULTS \<and> st \<in> {FZ_EMPTY, FZ_FINISHED, FZ_DISCONNECTED})"

definition slots_ok :: "Server \<Rightarrow> bool" where
  "slots_ok s \<longleftrightarrow> length (s_players s) = 4
     \<and> (\<forall>i<4. p_status (player s i) \<le> FZ_DISCONNECTED \<and> p_car (player s i) < 4)"

definition seats_ok :: "Server \<Rightarrow> bool" where
  "seats_ok s \<longleftrightarrow>
     (\<forall>i<4. occupied (player s i) \<longrightarrow> p_token (player s i) \<noteq> 0)
     \<and> (\<forall>i<4. \<forall>j<4. occupied (player s i) \<and> occupied (player s j)
          \<and> same_address (p_address (player s i)) (p_address (player s j)) \<longrightarrow> i = j)"

definition room_ok :: "Server \<Rightarrow> bool" where
  "room_ok s \<longleftrightarrow> s_phase s \<le> FZ_RESULTS \<and> 2 \<le> s_expected s \<and> s_expected s \<le> 4
     \<and> s_track s < 5 \<and> s_league s < 3 \<and> (s_host s < 4 \<or> s_host s = 255)
     \<and> count s \<le> unat (s_expected s)"

definition host_ok :: "Server \<Rightarrow> bool" where
  "host_ok s \<longleftrightarrow>
     (count s = 0 \<longrightarrow> s_host s = 255)
     \<and> (0 < count s \<longrightarrow> s_host s < 4 \<and> occupied (player s (unat (s_host s))))"

definition stage_ok :: "Server \<Rightarrow> bool" where
  "stage_ok s \<longleftrightarrow> (s_phase s = FZ_LOBBY \<or> 0 < count s)
     \<and> (\<forall>i<4. allowed (s_phase s) (p_status (player s i)))"

definition owner_ok :: "Server \<Rightarrow> bool" where
  "owner_ok s \<longleftrightarrow> s_owner_nonce s = 0 \<or> count s = 0
     \<or> (s_host s = 0 \<and> occupied (player s 0) \<and> p_nonce (player s 0) = s_owner_nonce s)"

definition server_inv :: "Server \<Rightarrow> bool" where
  "server_inv s \<longleftrightarrow> slots_ok s \<and> seats_ok s \<and> room_ok s
     \<and> (s_closed s \<or> (host_ok s \<and> stage_ok s \<and> owner_ok s))"

lemmas inv_defs = server_inv_def slots_ok_def seats_ok_def room_ok_def host_ok_def stage_ok_def
  owner_ok_def

section \<open>Counting the players present\<close>

lemma count_0_iff: "count_players ps = 0 \<longleftrightarrow> (\<forall>i<4. \<not> occupied (ps ! i))"
  by (auto simp: count_players_def upt_4 all_less_4)

lemma count_pos: "i < 4 \<Longrightarrow> occupied (ps ! i) \<Longrightarrow> 0 < count_players ps"
  using count_0_iff [of ps] by auto

lemma count_update:
  assumes "length ps = 4" and "i < 4"
  shows "count_players (ps[i := p]) + of_bool (occupied (ps ! i)) = count_players ps + of_bool (occupied p)"
proof -
  from assms(2) consider "i = 0" | "i = 1" | "i = 2" | "i = 3" by linarith
  then show ?thesis
    using assms(1) by cases (simp_all add: count_players_def upt_4)
qed

lemma count_update_same:
  "length ps = 4 \<Longrightarrow> i < 4 \<Longrightarrow> occupied p = occupied (ps ! i) \<Longrightarrow> count_players (ps[i := p]) = count_players ps"
  using count_update [of ps i p] by simp

lemma count_update_gone:
  "length ps = 4 \<Longrightarrow> i < 4 \<Longrightarrow> \<not> occupied p \<Longrightarrow> count_players (ps[i := p]) \<le> count_players ps"
  using count_update [of ps i p] by simp

lemma count_each:
  "length ps = 4 \<Longrightarrow> (\<And>p. occupied (f p) = occupied p) \<Longrightarrow> count_players (each f ps) = count_players ps"
  by (elim length_4_cases) (simp add: each_map count_players_def upt_4)

lemma count_le_4: "count_players ps \<le> 4"
  by (simp add: count_players_def upt_4)

lemma nth_each: "length ps = 4 \<Longrightarrow> i < 4 \<Longrightarrow> each f ps ! i = f (ps ! i)"
  by (simp add: each_map)

lemma occupied_lobby_player [simp]: "occupied (lobby_player p) = occupied p"
  by (simp add: lobby_player_def occupied_def zero_player_def)

section \<open>Only the game state matters\<close>

lemma server_inv_game: "server_inv (game s) = server_inv s"
  by (simp add: inv_defs game_def)

lemma inv_by_game: "game s = game t \<Longrightarrow> server_inv t \<Longrightarrow> server_inv s"
  by (metis server_inv_game)

context acts_as
begin

lemma act_inv [simp]: "server_inv (act s) = server_inv (upd s)"
  by (metis server_inv_game game_act)

lemma act_inv_players [simp]:
  "server_inv ((act s)\<lparr>s_players := ps\<rparr>) = server_inv ((upd s)\<lparr>s_players := ps\<rparr>)"
  by (metis server_inv_game game_act game_push(1))

end

lemma server_inv_bookkeeping [simp]:
  "server_inv (s\<lparr>s_rx := v\<rparr>) = server_inv s" "server_inv (s\<lparr>s_stale := v\<rparr>) = server_inv s"
  "server_inv (s\<lparr>s_start := v\<rparr>) = server_inv s" "server_inv (s\<lparr>s_race := r\<rparr>) = server_inv s"
  by (simp_all add: inv_defs)

section \<open>Updates of one player\<close>

lemma inv_update_present:
  assumes inv: "server_inv s" and i: "i < 4" and present: "occupied (player s i)"
    and st: "p_status p \<le> FZ_DISCONNECTED" and occ: "occupied p"
    and ok: "s_closed s \<or> allowed (s_phase s) (p_status p)" and car: "p_car p < 4"
    and same: "p_address p = p_address (player s i)" "p_token p = p_token (player s i)"
      "p_nonce p = p_nonce (player s i)"
  shows "server_inv (s\<lparr>s_players := (s_players s)[i := p]\<rparr>)" (is "server_inv ?t")
proof -
  have len: "length (s_players s) = 4" using inv by (simp add: server_inv_def slots_ok_def)
  have nth: "(s_players s)[i := p] ! j = (if j = i then p else player s j)" if "j < 4" for j
    using that len by simp
  have pres: "occupied ((s_players s)[i := p] ! j) = occupied (player s j)"
      "p_address ((s_players s)[i := p] ! j) = p_address (player s j)"
      "p_token ((s_players s)[i := p] ! j) = p_token (player s j)"
      "p_nonce ((s_players s)[i := p] ! j) = p_nonce (player s j)" if "j < 4" for j
    using nth [OF that] occ present same by simp_all
  have c: "count_players ((s_players s)[i := p]) = count s"
    using count_update_same [OF len i] occ present by simp
  have "slots_ok ?t"
    using inv st car i len by (auto simp: server_inv_def slots_ok_def nth_list_update)
  moreover have "seats_ok ?t"
    using inv by (simp add: server_inv_def seats_ok_def pres)
  moreover have "room_ok ?t"
    using inv c by (simp add: server_inv_def room_ok_def)
  moreover have "host_ok ?t" if "host_ok s"
    using that c pres by (simp add: host_ok_def word_less_nat_alt)
  moreover have "stage_ok ?t" if "stage_ok s" "\<not> s_closed s"
    using that c ok nth by (simp add: stage_ok_def)
  moreover have "owner_ok ?t" if "owner_ok s"
    using that c pres by (simp add: owner_ok_def)
  ultimately show ?thesis
    using inv by (auto simp: server_inv_def)
qed

section \<open>Back to the lobby\<close>

lemma lobby_player_fields:
  "p_status (lobby_player p) = (if occupied p then FZ_JOINED else FZ_EMPTY)"
  "p_car (lobby_player p) = (if occupied p then p_car p else 0)"
  "occupied p \<Longrightarrow> p_address (lobby_player p) = p_address p"
  "occupied p \<Longrightarrow> p_token (lobby_player p) = p_token p"
  "occupied p \<Longrightarrow> p_nonce (lobby_player p) = p_nonce p"
  by (simp_all add: lobby_player_def zero_player_def)

lemma inv_lobby:
  assumes "slots_ok s" and "seats_ok s" and "room_ok s" and "s_closed s \<or> host_ok s \<and> owner_ok s"
  shows "server_inv (s\<lparr>s_race := r, s_start := 0, s_phase := FZ_LOBBY,
    s_players := each lobby_player (s_players s)\<rparr>)" (is "server_inv ?t")
proof -
  have len: "length (s_players s) = 4" using assms(1) by (simp add: slots_ok_def)
  note nth = nth_each [OF len, of _ lobby_player]
  have c: "count ?t = count s" by (simp add: count_each len)
  have "slots_ok ?t"
    using assms(1) by (simp add: slots_ok_def nth lobby_player_fields)
  moreover have "seats_ok ?t"
    using assms(2) by (auto simp: seats_ok_def nth lobby_player_fields)
  moreover have "room_ok ?t"
    using assms(3) c by (simp add: room_ok_def)
  moreover have "host_ok ?t" if "host_ok s"
    using that c by (simp add: host_ok_def nth word_less_nat_alt)
  moreover have "stage_ok ?t"
    by (simp add: stage_ok_def nth lobby_player_fields allowed_def)
  moreover have "owner_ok ?t" if "owner_ok s"
    using that c by (auto simp: owner_ok_def nth lobby_player_fields)
  ultimately show ?thesis
    using assms(4) by (auto simp: server_inv_def)
qed

lemma inv_begin_lobby [keeps]: "server_inv s \<Longrightarrow> server_inv (begin_lobby s)"
  unfolding begin_lobby_op.act_inv by (rule inv_lobby) (auto simp: server_inv_def)

lemma inv_empty_lobby:
  assumes "slots_ok s" and "seats_ok s" and "room_ok s" and "count s = 0"
  shows "server_inv (s\<lparr>s_race := r, s_start := 0, s_phase := FZ_LOBBY,
    s_players := each lobby_player (s_players s), s_host := 255\<rparr>)"
proof -
  let ?s = "s\<lparr>s_host := 255\<rparr>"
  have "server_inv (?s\<lparr>s_race := r, s_start := 0, s_phase := FZ_LOBBY,
      s_players := each lobby_player (s_players ?s)\<rparr>)"
    using assms by (intro inv_lobby)
      (simp_all add: slots_ok_def seats_ok_def room_ok_def host_ok_def owner_ok_def)
  then show ?thesis by (simp add: inv_defs)
qed

section \<open>Departures\<close>

lemma next_host_present:
  assumes "0 < count s"
  shows "next_host s < 4 \<and> occupied (player s (unat (next_host s)))"
proof -
  have "find (\<lambda>j. occupied (player s j)) [0..<4] \<noteq> None"
    using assms count_0_iff [of "s_players s"] by (auto simp: find_None_upt)
  then obtain j where j: "find (\<lambda>j. occupied (player s j)) [0..<4] = Some j" by blast
  then have "j < 4" "occupied (player s j)" by (simp_all add: find_Some_least)
  moreover from \<open>j < 4\<close> have "unat (of_nat j :: u8) = j" by (simp add: unat_of_nat)
  ultimately show ?thesis
    using j by (simp add: next_host_def word_less_nat_alt)
qed

lemma inv_gone:
  assumes "server_inv s" and "i < 4" and "\<not> occupied p" and "p_status p \<le> FZ_DISCONNECTED"
    and "p_car p < 4"
  shows "slots_ok (s\<lparr>s_players := (s_players s)[i := p]\<rparr>)"
    and "seats_ok (s\<lparr>s_players := (s_players s)[i := p]\<rparr>)"
    and "room_ok (s\<lparr>s_players := (s_players s)[i := p]\<rparr>)"
proof -
  have len: "length (s_players s) = 4" using assms(1) by (simp add: server_inv_def slots_ok_def)
  show "slots_ok (s\<lparr>s_players := (s_players s)[i := p]\<rparr>)"
    using assms by (auto simp: server_inv_def slots_ok_def nth_list_update)
  show "seats_ok (s\<lparr>s_players := (s_players s)[i := p]\<rparr>)"
    using assms len by (auto simp: server_inv_def seats_ok_def nth_list_update)
  show "room_ok (s\<lparr>s_players := (s_players s)[i := p]\<rparr>)"
    using assms count_update_gone [OF len assms(2,3)] by (auto simp: server_inv_def room_ok_def)
qed

text \<open>What a departure leaves when the room goes on.\<close>

lemma inv_goes_on:
  assumes inv: "server_inv s" "\<not> s_closed s" and i: "i < 4" and q: "\<not> occupied q"
    and left: "0 < count_players ((s_players s)[i := q])"
    and ok: "allowed (s_phase s) (p_status q)" and own: "s_owner_nonce s = 0 \<or> i \<noteq> 0"
    and h: "h < 4" "occupied (player s (unat h))" "unat h \<noteq> i" "unat (s_host s) \<noteq> i \<Longrightarrow> h = s_host s"
  defines "t \<equiv> s\<lparr>s_players := (s_players s)[i := q], s_host := h\<rparr>"
  shows "host_ok t" and "stage_ok t" and "owner_ok t"
proof -
  have len: "length (s_players s) = 4" and live: "host_ok s" "stage_ok s" "owner_ok s"
    using inv by (simp_all add: server_inv_def slots_ok_def)
  have c: "0 < count s"
    using left count_update_gone [OF len i q] by simp
  show "host_ok t"
    using h left by (simp add: t_def host_ok_def word_less_nat_alt)
  show "stage_ok t"
    using live(2) left ok i len by (auto simp: t_def stage_ok_def nth_list_update)
  show "owner_ok t"
    using live(3) c own h i by (auto simp: t_def owner_ok_def)
qed

lemma allowed_gone:
  "room_ok s \<Longrightarrow> allowed (s_phase s) (if s_phase s = FZ_LOBBY then FZ_EMPTY else FZ_DISCONNECTED)"
  using u8_le_4_cases [of "s_phase s"] by (auto simp: room_ok_def allowed_def)

text \<open>The room goes on without player \<open>i\<close>, whose slot now holds \<open>q\<close>; \<open>p\<close> held it when the host was chosen.\<close>

lemma inv_departed_goes_on:
  fixes s :: Server and p :: Player
  assumes inv: "server_inv s" and i: "i < 4"
    and p: "\<not> occupied p" and q: "\<not> occupied q" "p_status q \<le> FZ_DISCONNECTED" "p_car q < 4"
    and ok: "allowed (s_phase s) (p_status q)" and pos: "0 < count_players ((s_players s)[i := q])"
    and no_owner: "\<not> (s_owner_nonce s \<noteq> 0 \<and> i = 0)"
  defines "h \<equiv> if unat (s_host s) = i then next_host (s\<lparr>s_players := (s_players s)[i := p]\<rparr>) else s_host s"
  shows "server_inv (s\<lparr>s_players := (s_players s)[i := q], s_host := h\<rparr>)" (is "server_inv ?t")
proof -
  have len: "length (s_players s) = 4" and room: "room_ok s"
    using inv by (simp_all add: server_inv_def slots_ok_def)
  have "occupied (((s_players s)[i := p]) ! j) = occupied (((s_players s)[i := q]) ! j)" if "j < 4" for j
    using that len p q(1) i by (simp add: nth_list_update)
  then have "0 < count_players ((s_players s)[i := p])" using pos count_0_iff by (metis gr0I)
  then have nh: "next_host (s\<lparr>s_players := (s_players s)[i := p]\<rparr>) < 4"
      "occupied (((s_players s)[i := p]) ! unat (next_host (s\<lparr>s_players := (s_players s)[i := p]\<rparr>)))"
    using next_host_present [of "s\<lparr>s_players := (s_players s)[i := p]\<rparr>"] by simp_all
  have h: "h < 4 \<or> h = 255" "unat (s_host s) \<noteq> i \<Longrightarrow> h = s_host s"
    using nh room by (auto simp: h_def room_ok_def)
  have "host_ok ?t \<and> stage_ok ?t \<and> owner_ok ?t" if "\<not> s_closed s"
  proof -
    have "0 < count s" using count_update_gone [OF len i q(1)] pos by simp
    with that inv have "s_host s < 4" "occupied (player s (unat (s_host s)))"
      by (simp_all add: server_inv_def host_ok_def)
    then have "h < 4" "occupied (player s (unat h))" "unat h \<noteq> i"
      using nh p len i by (auto simp: h_def nth_list_update word_less_nat_alt split: if_splits)
    then show ?thesis using inv_goes_on [OF inv that i q(1) pos] no_owner h(2) ok by blast
  qed
  moreover have "slots_ok ?t" "seats_ok ?t" "room_ok ?t"
    using inv_gone [OF inv i q] h by (simp_all add: slots_ok_def seats_ok_def room_ok_def)
  ultimately show ?thesis by (auto simp: server_inv_def)
qed

lemma inv_departed [keeps]:
  assumes inv: "server_inv s" and i: "i < 4"
  shows "server_inv (departed i s)"
proof -
  define p where "p = (player s i)\<lparr>p_status := FZ_DISCONNECTED, p_x := 0, p_y := 0\<rparr>"
  define q where "q = (if s_phase s = FZ_LOBBY then zero_player else p)"
  have room: "room_ok s" using inv by (simp add: server_inv_def)
  have p: "\<not> occupied p" "p_status p \<le> FZ_DISCONNECTED" "p_car p < 4"
    using inv i by (simp_all add: p_def occupied_def server_inv_def slots_ok_def)
  then have q: "\<not> occupied q" "p_status q \<le> FZ_DISCONNECTED" "p_car q < 4"
    by (simp_all add: q_def zero_player_def occupied_def)
  have ok: "allowed (s_phase s) (p_status q)"
    using allowed_gone [OF room] by (simp add: q_def p_def zero_player_def split: if_splits)
  have owner: "server_inv (s\<lparr>s_players := (s_players s)[i := p], s_closed := True\<rparr>)"
    using inv_gone [OF inv i p] by (simp add: server_inv_def slots_ok_def seats_ok_def room_ok_def)
  have "departed i s =
    (if s_owner_nonce s \<noteq> 0 \<and> i = 0 then s\<lparr>s_players := (s_players s)[i := p], s_closed := True\<rparr>
     else if count_players ((s_players s)[i := q]) = 0
          then s\<lparr>s_race := s_race s + 1, s_start := 0, s_phase := FZ_LOBBY,
                 s_players := each lobby_player ((s_players s)[i := q]), s_host := 255\<rparr>
          else s\<lparr>s_players := (s_players s)[i := q], s_host := if unat (s_host s) = i
                 then next_host (s\<lparr>s_players := (s_players s)[i := p]\<rparr>) else s_host s\<rparr>)"
    by (simp add: departed_def Let_def p_def q_def)
  then show ?thesis
    using owner inv_empty_lobby [OF inv_gone [OF inv i q], of "s_race s + 1"]
      inv_departed_goes_on [OF inv i p(1) q ok] by (simp split: if_split) auto
qed

section \<open>Phase progress\<close>

lemma inv_timeouts [keeps]: "server_inv s \<Longrightarrow> server_inv (timeouts now s)"
  unfolding timeouts_def
  by (rule fold_invariant [where Q = "\<lambda>i. i < 4"]) (auto intro: inv_departed)

lemma all_at_least_iff:
  "all_at_least st s \<longleftrightarrow> 0 < count s \<and> (\<forall>i<4. occupied (player s i) \<longrightarrow> st \<le> p_status (player s i))"
  by (auto simp: all_at_least_def list_all_iff not_less)

lemma all_armed_iff:
  "all_armed s \<longleftrightarrow> (\<forall>i<4. occupied (player s i) \<longrightarrow> p_armed (player s i) = s_start s)"
  by (auto simp: all_armed_def list_all_iff)

text \<open>Entering phase \<open>v\<close> while assigning to every player.\<close>

lemma inv_enter:
  assumes inv: "server_inv s" "\<not> s_closed s" and c: "0 < count s" and v: "v \<le> FZ_RESULTS"
    and f: "\<And>p. occupied (f p) = occupied p" "\<And>p. p_car (f p) = p_car p"
      "\<And>p. p_address (f p) = p_address p" "\<And>p. p_token (f p) = p_token p"
      "\<And>p. p_nonce (f p) = p_nonce p"
    and ok: "\<And>i. i < 4 \<Longrightarrow> allowed v (p_status (f (player s i)))"
    and bound: "\<And>p. p_status p \<le> FZ_DISCONNECTED \<Longrightarrow> p_status (f p) \<le> FZ_DISCONNECTED"
  shows "server_inv (s\<lparr>s_phase := v, s_players := each f (s_players s)\<rparr>)" (is "server_inv ?t")
proof -
  have len: "length (s_players s) = 4" and live: "host_ok s" "owner_ok s"
    using inv by (simp_all add: server_inv_def slots_ok_def)
  note nth = nth_each [OF len, of _ f]
  have c': "count ?t = count s" by (simp add: count_each len f)
  have "slots_ok ?t" "seats_ok ?t" "room_ok ?t"
    using inv(1) c' v by (simp_all add: server_inv_def slots_ok_def seats_ok_def room_ok_def nth f bound)
  moreover have "host_ok ?t" "owner_ok ?t"
    using live c' by (simp_all add: host_ok_def owner_ok_def nth f word_less_nat_alt)
  moreover have "stage_ok ?t"
    using c c' ok by (simp add: stage_ok_def nth)
  ultimately show ?thesis by (simp add: server_inv_def)
qed

lemma inv_enter_phase:
  assumes "server_inv s" "\<not> s_closed s" and "0 < count s" and "v \<le> FZ_RESULTS"
    and "\<And>i. i < 4 \<Longrightarrow> allowed v (p_status (player s i))"
  shows "server_inv (s\<lparr>s_phase := v\<rparr>)"
proof -
  have "length (s_players s) = 4" using assms(1) by (simp add: server_inv_def slots_ok_def)
  then show ?thesis
    using inv_enter [OF assms(1-4), of "\<lambda>p. p"] assms(5) by (simp add: each_map)
qed

text \<open>The states left in a phase once every present player has reached \<open>st\<close>.\<close>

lemma allowed_reached:
  assumes "allowed ph st" and "st \<noteq> FZ_EMPTY \<and> st \<noteq> FZ_DISCONNECTED \<Longrightarrow> ph + 2 \<le> st" and "ph < FZ_COUNTDOWN \<or> ph = FZ_RACING"
  shows "allowed (ph + 1) st"
  using assms by (auto simp: allowed_def word_le_nat_alt)

lemma inv_to_loading [keeps]:
  assumes "server_inv s" and "\<not> s_closed s"
  shows "server_inv (to_loading s)"
proof -
  have "allowed FZ_LOADING (p_status (player s i))"
    if "s_phase s = FZ_LOBBY" "all_at_least FZ_SELECTED s" "i < 4" for i
    using assms that allowed_reached [of FZ_LOBBY "p_status (player s i)"]
    by (simp add: server_inv_def stage_ok_def all_at_least_iff occupied_def)
  then show ?thesis
    using assms by (simp add: to_loading_def inv_enter_phase all_at_least_iff)
qed

lemma inv_to_countdown [keeps]:
  assumes "server_inv s" and "\<not> s_closed s"
  shows "server_inv (to_countdown now s)"
proof -
  have "allowed FZ_COUNTDOWN (p_status (player s i))"
    if "s_phase s = FZ_LOADING" "all_at_least FZ_PLAYER_LOADED s" "i < 4" for i
    using assms that allowed_reached [of FZ_LOADING "p_status (player s i)"]
    by (simp add: server_inv_def stage_ok_def all_at_least_iff occupied_def)
  then show ?thesis
    using assms inv_enter [of "s\<lparr>s_start := now + 2000000\<rparr>" FZ_COUNTDOWN "\<lambda>p. p\<lparr>p_armed := 0\<rparr>"]
    by (simp add: to_countdown_def all_at_least_iff occupied_def)
qed

lemma racing_player_simps [simp]:
  "occupied (racing_player p) = occupied p" "p_car (racing_player p) = p_car p"
  "p_address (racing_player p) = p_address p" "p_token (racing_player p) = p_token p"
  "p_nonce (racing_player p) = p_nonce p"
  "p_status (racing_player p) = (if occupied p then FZ_PLAYER_RACING else p_status p)"
  by (simp_all add: racing_player_def occupied_def)

lemma inv_to_race [keeps]:
  assumes "server_inv s" and "\<not> s_closed s"
  shows "server_inv (to_race now s)"
proof (cases "s_phase s = FZ_COUNTDOWN")
  case True
  with assms have c: "0 < count s" and st: "\<And>i. i < 4 \<Longrightarrow> allowed FZ_COUNTDOWN (p_status (player s i))"
    by (simp_all add: server_inv_def stage_ok_def)
  have "server_inv (s\<lparr>s_phase := FZ_RACING, s_players := each racing_player (s_players s)\<rparr>)"
  proof (rule inv_enter [OF assms c])
    fix i :: nat
    assume "i < 4"
    then show "allowed FZ_RACING (p_status (racing_player (player s i)))"
      using st [of i] by (auto simp: allowed_def occupied_def)
  qed simp_all
  then show ?thesis using assms by (simp add: to_race_def)
qed (use assms in \<open>simp add: to_race_def\<close>)

lemma inv_to_results [keeps]:
  assumes "server_inv s" and "\<not> s_closed s"
  shows "server_inv (to_results s)"
proof -
  have "allowed FZ_RESULTS (p_status (player s i))"
    if "s_phase s = FZ_RACING" "all_at_least FZ_FINISHED s" "i < 4" for i
    using assms that allowed_reached [of FZ_RACING "p_status (player s i)"]
    by (simp add: server_inv_def stage_ok_def all_at_least_iff occupied_def)
  then show ?thesis
    using assms by (simp add: to_results_def inv_enter_phase all_at_least_iff)
qed

lemma inv_advance [keeps]: "server_inv s \<Longrightarrow> server_inv (advance now s)"
  unfolding advance_def Let_def
  by (simp add: inv_to_results inv_to_race inv_to_countdown inv_to_loading inv_timeouts)

section \<open>Joining\<close>

lemma same_address_sym: "same_address a b = same_address b a"
  by (auto simp: same_address_def)

lemma inv_join:
  assumes inv: "server_inv s" "\<not> s_closed s" and i: "i < 4" and seat: "\<not> occupied (player s i)"
    and p: "p_status p = FZ_JOINED" "p_car p = 0" "p_token p \<noteq> 0"
    and lobby: "s_phase s = FZ_LOBBY" and room: "count s < unat (s_expected s)"
    and fresh: "\<And>j. j < 4 \<Longrightarrow> occupied (player s j) \<Longrightarrow> \<not> same_address (p_address p) (p_address (player s j))"
    and own: "s_owner_nonce s = 0 \<or> i = 0 \<and> p_nonce p = s_owner_nonce s \<or> occupied (player s 0)"
  shows "server_inv (s\<lparr>s_players := (s_players s)[i := p],
    s_host := (if s_host s = 255 then of_nat i else s_host s)\<rparr>)" (is "server_inv ?t")
proof -
  have occ: "occupied p" using p by (simp add: occupied_def)
  have len: "length (s_players s) = 4" and live: "host_ok s" "stage_ok s" "owner_ok s"
    using inv by (simp_all add: server_inv_def slots_ok_def)
  have nth: "(s_players s)[i := p] ! j = (if j = i then p else player s j)" if "j < 4" for j
    using that len by simp
  have c: "count ?t = count s + 1"
    using count_update [OF len i, of p] occ seat by simp
  have ui: "unat (of_nat i :: u8) = i" using i by (simp add: unat_of_nat)
  have "slots_ok ?t"
    using inv(1) p by (auto simp: server_inv_def slots_ok_def nth)
  moreover have "seats_ok ?t"
    using inv(1) p fresh fresh [unfolded same_address_sym [of "p_address p"]]
    by (simp add: server_inv_def seats_ok_def nth)
  moreover have "room_ok ?t"
    using inv(1) c room i ui by (auto simp: server_inv_def room_ok_def word_less_nat_alt)
  moreover have "host_ok ?t"
    using live(1) c ui i occ by (cases "count s = 0") (auto simp: host_ok_def nth word_less_nat_alt)
  moreover have "stage_ok ?t"
    using live(2) lobby p by (auto simp: stage_ok_def nth allowed_def)
  moreover have "owner_ok ?t"
  proof (cases "count s = 0")
    case True
    then have "s_host s = 255" "\<not> occupied (player s 0)"
      using live(1) by (simp_all add: host_ok_def count_0_iff)
    then show ?thesis using own occ by (auto simp: owner_ok_def nth)
  next
    case False
    then show ?thesis using live(3) seat by (auto simp: owner_ok_def nth)
  qed
  ultimately show ?thesis by (simp add: server_inv_def)
qed

lemma inv_vacant:
  assumes "server_inv s" and "i < 4" and "\<not> occupied (player s i)" and "p_status p = FZ_EMPTY" and "p_car p = 0"
  shows "server_inv (s\<lparr>s_players := (s_players s)[i := p]\<rparr>)" (is "server_inv ?t")
proof -
  have len: "length (s_players s) = 4" using assms(1) by (simp add: server_inv_def slots_ok_def)
  have occ: "\<not> occupied p" using assms(4) by (simp add: occupied_def)
  have c: "count ?t = count s" using count_update_same [OF len assms(2)] occ assms(3) by simp
  have same: "occupied ((s_players s)[i := p] ! j) = occupied (player s j)" if "j < 4" for j
    using that occ assms(2,3) len by (auto simp: nth_list_update)
  have keep: "(s_players s)[i := p] ! j = player s j" if "j < 4" "occupied (player s j)" for j
    using that assms(3) by (cases "j = i") auto
  have e: "allowed (s_phase s) FZ_EMPTY" if "s_phase s \<le> FZ_RESULTS"
    using u8_le_4_cases [OF that] by (auto simp: allowed_def)
  have "slots_ok ?t" "room_ok ?t"
    using assms len c by (auto simp: server_inv_def slots_ok_def room_ok_def nth_list_update)
  moreover have "seats_ok ?t"
    using assms(1) by (auto simp: server_inv_def seats_ok_def same keep)
  moreover have "host_ok ?t" if "host_ok s"
    using that c by (simp add: host_ok_def same word_less_nat_alt)
  moreover have "owner_ok ?t" if "owner_ok s"
    using that c by (auto simp: owner_ok_def same keep)
  moreover have "stage_ok ?t" if "stage_ok s"
    using that c e assms(1,2,4) len by (auto simp: stage_ok_def server_inv_def room_ok_def nth_list_update)
  ultimately show ?thesis using assms(1) by (auto simp: server_inv_def)
qed

lemma inv_join_slot [keeps]:
  assumes inv: "server_inv s" "\<not> s_closed s" and i: "i < 4" and seat: "\<not> occupied (player s i)"
    and lobby: "s_phase s = FZ_LOBBY" and room: "count s < unat (s_expected s)"
    and fresh: "\<And>j. j < 4 \<Longrightarrow> occupied (player s j) \<Longrightarrow> \<not> same_address address (p_address (player s j))"
    and own: "s_owner_nonce s = 0 \<or> i = 0 \<and> nonce = s_owner_nonce s \<or> occupied (player s 0)"
  shows "server_inv (join_slot i address nonce s)"
proof -
  define token where "token = fst (random_id s)"
  define s1 where "s1 = snd (random_id s)"
  define s2 where "s2 = update_player i (\<lambda>_. zero_player\<lparr>p_address := address, p_token := token\<rparr>) s1"
  define s3 where "s3 = update_player i (\<lambda>p. p\<lparr>p_nonce := nonce, p_seen := fst (now_us s2), p_status := FZ_JOINED\<rparr>) (snd (now_us s2))"
  define s4 where "s4 = (if s_host s3 = 255 then s3\<lparr>s_host := of_nat i\<rparr> else s3)"
  let ?p = "zero_player\<lparr>p_address := address, p_token := token\<rparr>"
  let ?q = "?p\<lparr>p_nonce := nonce, p_seen := fst (now_us s2), p_status := FZ_JOINED\<rparr>"
  have len: "length (s_players s) = 4" using inv by (simp add: server_inv_def slots_ok_def)
  have g2: "game s2 = game (s\<lparr>s_players := (s_players s)[i := ?p]\<rparr>)"
    by (simp add: s2_def s1_def game_push)
  have h3: "s_host s3 = s_host s" by (simp add: s3_def s2_def s1_def)
  have g3: "game s3 = game (s\<lparr>s_players := (s_players s)[i := ?q]\<rparr>)"
    using i len by (simp add: s3_def s2_def s1_def game_push)
  have g4: "game s4 = game (s\<lparr>s_players := (s_players s)[i := ?q],
      s_host := (if s_host s = 255 then of_nat i else s_host s)\<rparr>)"
    using g3 by (simp add: s4_def h3 game_push) (simp add: game_def)
  have "server_inv s2"
    by (rule inv_by_game [OF g2], rule inv_vacant [OF inv(1) i seat]) (simp_all add: zero_player_def)
  moreover have "server_inv s4" if "token \<noteq> 0"
    by (rule inv_by_game [OF g4], rule inv_join [OF inv i seat])
      (use that lobby room fresh own in \<open>simp_all add: zero_player_def\<close>)
  moreover have "join_slot i address nonce s =
    (if token = 0 then log_event 0 (int i) ''Cannot create session token'' s2
     else snapshot (send_welcome i (log_event 1 (int i) (''joined endpoint='' @ inet_ntoa (sin_addr address) @ '':''
        @ fmt_u (unat (sin_port address))) s4)))"
    unfolding join_slot_def Let_def case_prod_beta s4_def s3_def s2_def s1_def token_def by (rule refl)
  ultimately show ?thesis by simp
qed

lemma inv_receive_hello [keeps]:
  assumes inv: "server_inv s" "\<not> s_closed s"
  shows "server_inv (receive_hello packet address s)"
proof -
  have "server_inv (join_slot i address nonce s)"
    if 1: "\<not> (s_owner_nonce s \<noteq> 0 \<and> \<not> occupied (player s 0) \<and> nonce \<noteq> s_owner_nonce s)"
      and 2: "find (\<lambda>i. occupied (player s i) \<and> same_address address (p_address (player s i))) [0..<4] = None"
      and 3: "s_phase s = FZ_LOBBY" "count s < unat (s_expected s)"
      and 4: "find (\<lambda>i. \<not> occupied (player s i)) [0..<4] = Some i" for i nonce
  proof (rule inv_join_slot [OF inv _ _ 3])
    show "i < 4" "\<not> occupied (player s i)" using 4 by (simp_all add: find_Some_least)
    show "\<And>j. j < 4 \<Longrightarrow> occupied (player s j) \<Longrightarrow> \<not> same_address address (p_address (player s j))"
      using 2 by (auto simp: find_None_upt)
    show "s_owner_nonce s = 0 \<or> i = 0 \<and> nonce = s_owner_nonce s \<or> occupied (player s 0)"
      using 1 4 by (auto simp: find_Some_least)
  qed
  then show ?thesis
    using inv by (auto simp: receive_hello_def Let_def split: option.splits)
qed

section \<open>Authenticated packets\<close>

lemma authenticate_Some:
  "authenticate packet address s = Some i \<Longrightarrow> i < 4 \<and> occupied (player s i)"
  by (simp add: authenticate_def find_Some_least)

lemma inv_touch:
  assumes "server_inv s" and "i < 4" and "occupied (player s i)"
    and "p_status p = p_status (player s i)" and "p_car p = p_car (player s i)"
    and "p_address p = p_address (player s i)" and "p_token p = p_token (player s i)"
    and "p_nonce p = p_nonce (player s i)"
  shows "server_inv (s\<lparr>s_players := (s_players s)[i := p]\<rparr>)"
  by (rule inv_update_present [OF assms(1-3)])
    (use assms in \<open>auto simp: server_inv_def slots_ok_def stage_ok_def occupied_def\<close>)

lemma inv_receive_pong [keeps]:
  "server_inv s \<Longrightarrow> i < 4 \<Longrightarrow> occupied (player s i) \<Longrightarrow> server_inv (receive_pong i s)"
  unfolding receive_pong_def case_prod_beta Let_def update_player_op.act_inv
  by (rule inv_touch) simp_all

lemma inv_receive_ping [keeps]:
  "server_inv s \<Longrightarrow> i < 4 \<Longrightarrow> occupied (player s i) \<Longrightarrow> server_inv (receive_ping i packet s)"
  by (simp add: receive_ping_def case_prod_beta Let_def inv_touch)

lemma inv_nested_touch:
  assumes "server_inv (s\<lparr>s_players := (s_players s)[i := p]\<rparr>)" (is "server_inv ?t")
    and "i < 4" and "occupied p"
    and "p_status q = p_status p" and "p_car q = p_car p"
    and "p_address q = p_address p" and "p_token q = p_token p" and "p_nonce q = p_nonce p"
  shows "server_inv (s\<lparr>s_players := (s_players s)[i := q]\<rparr>)"
proof -
  have "length (s_players s) = 4" using assms(1) by (simp add: server_inv_def slots_ok_def)
  then show ?thesis
    using inv_touch [OF assms(1,2), of q] assms(2-) by simp
qed

lemma inv_receive_state [keeps]:
  assumes "server_inv s" and "i < 4" and "occupied (player s i)"
  shows "server_inv (receive_state i packet sz s)"
proof -
  have "length (s_players s) = 4" using assms(1) by (simp add: server_inv_def slots_ok_def)
  then show ?thesis
    using assms by (simp add: receive_state_def case_prod_beta Let_def inv_touch)
qed

text \<open>A command that is applied leaves its sender in place.\<close>

lemma u8_phase_status: "allowed FZ_LOBBY FZ_SELECTED" "allowed FZ_LOADING FZ_PLAYER_LOADED"
  "allowed FZ_RACING FZ_FINISHED"
  by (simp_all add: allowed_def)

lemma inv_apply_command:
  assumes "server_inv s" and "i < 4" and "occupied (player s i)"
  shows "server_inv (snd (apply_command i packet s))
    \<and> occupied (player (snd (apply_command i packet s)) i)
    \<and> s_closed (snd (apply_command i packet s)) = s_closed s"
proof -
  have len: "length (s_players s) = 4" using assms(1) by (simp add: server_inv_def slots_ok_def)
  have car: "p_car (player s i) < 4" using assms by (simp add: server_inv_def slots_ok_def)
  have "server_inv (s\<lparr>s_players := (s_players s)[i := p]\<rparr>)"
    if "p_status p = st" "st \<le> FZ_FINISHED" "st \<noteq> FZ_EMPTY" "allowed (s_phase s) st" "p_car p < 4"
      "p_address p = p_address (player s i)" "p_token p = p_token (player s i)"
      "p_nonce p = p_nonce (player s i)" for p st
    by (rule inv_update_present [OF assms]) (use that in \<open>auto simp: occupied_def word_le_nat_alt\<close>)
  moreover have "server_inv (s\<lparr>s_expected := e, s_track := tr, s_league := lg\<rparr>)"
    if "2 \<le> e" "e \<le> 4" "count s \<le> unat e" "tr < 5" "lg < 3" for e tr lg
    using assms(1) that by (simp add: inv_defs)
  ultimately show ?thesis
    using assms len car
    by (simp add: apply_command_def Let_def case_prod_beta inv_touch occupied_def u8_phase_status) auto
qed

lemma inv_command_done [keeps]:
  assumes "server_inv s" and "i < 4"
  shows "server_inv (command_done i cmd seq s)"
  unfolding command_done_def Let_def
  using assms by (simp add: inv_departed inv_begin_lobby del: begin_lobby_op.act_inv)

lemma inv_run_command [keeps]:
  assumes "server_inv s" and "i < 4" and "occupied (player s i)"
  shows "server_inv (run_command i packet s)"
proof -
  define s1 where "s1 = snd (apply_command i packet s)"
  have s1: "server_inv s1" "occupied (player s1 i)"
    using inv_apply_command [OF assms] by (simp_all add: s1_def)
  then have len: "length (s_players s1) = 4" by (simp add: server_inv_def slots_ok_def)
  define s2 where "s2 = update_player i (\<lambda>p. p\<lparr>p_command_seq := pk_seq packet\<rparr>) s1"
  define s3 where "s3 = update_player i (\<lambda>p. p\<lparr>p_seen := fst (now_us s2)\<rparr>) (snd (now_us s2))"
  have "server_inv s2" "occupied (player s2 i)"
    using s1 assms(2) len by (simp_all add: s2_def inv_touch) (simp add: occupied_def)
  then have "server_inv s3"
    using assms(2) by (simp add: s3_def inv_touch)
  then show ?thesis
    unfolding run_command_def Let_def case_prod_beta
    using assms(2) by (simp add: inv_command_done flip: s1_def s2_def s3_def del: fst_now_us)
qed

lemma inv_receive_command [keeps]:
  "server_inv s \<Longrightarrow> i < 4 \<Longrightarrow> occupied (player s i) \<Longrightarrow> server_inv (receive_command i packet s)"
  by (simp add: receive_command_def Let_def case_prod_beta inv_run_command inv_advance)

lemma inv_receive_player [keeps]:
  "server_inv s \<Longrightarrow> i < 4 \<Longrightarrow> occupied (player s i) \<Longrightarrow> server_inv (receive_player i packet sz s)"
  by (simp add: receive_player_def inv_receive_command inv_receive_state inv_receive_ping inv_receive_pong)

lemma inv_receive_packet [keeps]:
  assumes "server_inv s"
  shows "server_inv (receive_packet b address s)"
proof -
  have "server_inv (receive_player i packet sz (s\<lparr>s_rx := v\<rparr>))"
    if "authenticate packet address (s\<lparr>s_rx := v\<rparr>) = Some i" for i packet sz v
    using assms that authenticate_Some [OF that] by (intro inv_receive_player) simp_all
  then show ?thesis
    using assms by (auto simp: receive_packet_def Let_def inv_receive_hello split: option.splits)
qed

end
