(* ===== verification/Fz_Server_Frame.thy ===== *)
theory Fz_Server_Frame
  imports Fz_Server_Game
begin

text \<open>
  What the handling of a packet and the progress of the phases never change: the configuration of
  the server and its deadlines (\<open>setup\<close>), the well-formedness of the event log, and the direction of
  the clock.
\<close>

section \<open>The frame\<close>

definition setup_of :: "Server \<Rightarrow> _" where
  "setup_of s = ((s_socket s, s_log_level s, s_trace_player s, s_port s, s_owner_nonce s, s_session s, s_key s),
     (s_tick s, s_summary s, io_clock (s_io s), io_entropy (s_io s), io_send_ok (s_io s), io_waits (s_io s)))"

definition log_ok :: "Server \<Rightarrow> bool" where
  "log_ok s \<longleftrightarrow> ring_invar (s_ring s)"

context acts_as
begin

lemma act_setup [simp]: "setup_of (act s) = setup_of (upd s)"
  using arg_cong [OF game_act, of "\<lambda>s. io_waits (s_io s)"] by (simp add: setup_of_def game_def)

lemma act_waits [simp]: "io_waits (s_io (act s)) = io_waits (s_io (upd s))"
  using act_setup [of s] by (simp add: setup_of_def)

lemma act_log [simp]: "log_ok s \<Longrightarrow> log_ok (act s)"
  by (simp add: log_ok_def)

end

lemma frame_updates [simp]:
  "setup_of (s\<lparr>s_players := v0\<rparr>) = setup_of s" "setup_of (s\<lparr>s_host := v1\<rparr>) = setup_of s"
  "setup_of (s\<lparr>s_start := v2\<rparr>) = setup_of s" "setup_of (s\<lparr>s_race := v3\<rparr>) = setup_of s"
  "setup_of (s\<lparr>s_phase := v4\<rparr>) = setup_of s" "setup_of (s\<lparr>s_expected := v5\<rparr>) = setup_of s"
  "setup_of (s\<lparr>s_track := v6\<rparr>) = setup_of s" "setup_of (s\<lparr>s_league := v7\<rparr>) = setup_of s"
  "setup_of (s\<lparr>s_closed := v8\<rparr>) = setup_of s" "setup_of (s\<lparr>s_rx := v9\<rparr>) = setup_of s"
  "setup_of (s\<lparr>s_stale := v10\<rparr>) = setup_of s" "setup_of (s\<lparr>s_ring := v11\<rparr>) = setup_of s"
  by (simp_all add: setup_of_def)

lemma log_updates [simp]:
  "log_ok (s\<lparr>s_players := v0\<rparr>) = log_ok s" "log_ok (s\<lparr>s_host := v1\<rparr>) = log_ok s"
  "log_ok (s\<lparr>s_start := v2\<rparr>) = log_ok s" "log_ok (s\<lparr>s_race := v3\<rparr>) = log_ok s"
  "log_ok (s\<lparr>s_phase := v4\<rparr>) = log_ok s" "log_ok (s\<lparr>s_expected := v5\<rparr>) = log_ok s"
  "log_ok (s\<lparr>s_track := v6\<rparr>) = log_ok s" "log_ok (s\<lparr>s_league := v7\<rparr>) = log_ok s"
  "log_ok (s\<lparr>s_closed := v8\<rparr>) = log_ok s" "log_ok (s\<lparr>s_rx := v9\<rparr>) = log_ok s"
  "log_ok (s\<lparr>s_stale := v10\<rparr>) = log_ok s" "log_ok (s\<lparr>s_session := v11\<rparr>) = log_ok s"
  "log_ok (s\<lparr>s_socket := v12\<rparr>) = log_ok s" "log_ok (s\<lparr>s_tick := v13\<rparr>) = log_ok s"
  "log_ok (s\<lparr>s_summary := v14\<rparr>) = log_ok s" "log_ok (s\<lparr>s_phase_since := v15\<rparr>) = log_ok s"
  by (simp_all add: log_ok_def)

section \<open>Every operation\<close>

lemma setup_departed [simp]: "setup_of (departed i s) = setup_of s"
  by (simp add: departed_def Let_def)

lemma setup_barriers [simp]:
  "setup_of (to_loading s) = setup_of s" "setup_of (to_countdown now s) = setup_of s"
  "setup_of (to_race now s) = setup_of s" "setup_of (to_results s) = setup_of s"
  by (simp_all add: barrier_defs)

text \<open>An operation that keeps the frame.\<close>

locale framed =
  fixes act :: "Server \<Rightarrow> Server"
  assumes setup_act [simp]: "setup_of (act s) = setup_of s"
    and log_act [simp]: "log_ok s \<Longrightarrow> log_ok (act s)"
    and reads_act: "io_readings (s_io s) \<le> io_readings (s_io (act s))"
begin

lemma waits_act [simp]: "io_waits (s_io (act s)) = io_waits (s_io s)"
  using setup_act [of s] by (simp add: setup_of_def)

lemma reads_mono [simp]: "n \<le> io_readings (s_io s) \<Longrightarrow> n \<le> io_readings (s_io (act s))"
  using reads_act order_trans by blast

lemma reads_less [simp]: "n < io_readings (s_io s) \<Longrightarrow> n < io_readings (s_io (act s))"
  using reads_act order_less_le_trans by blast

end

lemma framed_fold:
  assumes "\<And>i. framed (f i)"
  shows "framed (fold f xs)"
proof (induction xs)
  case (Cons x xs)
  show ?case
  proof
    fix s
    show "setup_of (fold f (x # xs) s) = setup_of s"
      using Cons.IH assms [of x] by (simp add: framed_def)
    show "log_ok s \<Longrightarrow> log_ok (fold f (x # xs) s)"
      using Cons.IH assms [of x] by (simp add: framed_def)
    show "io_readings (s_io s) \<le> io_readings (s_io (fold f (x # xs) s))"
      using framed.reads_mono [OF Cons.IH framed.reads_act [OF assms [of x]]] by simp
  qed
qed (simp add: framed_def)

interpretation timeouts_frame: framed "timeouts now" for now
  unfolding timeouts_def by (rule framed_fold) (simp add: framed_def)

interpretation advance_frame: framed "advance now" for now
  by unfold_locales (simp_all add: advance_def Let_def)

interpretation join_slot_frame: framed "join_slot i a n" for i a n
  by unfold_locales (simp_all add: join_slot_def Let_def case_prod_beta le_SucI)

interpretation hello_frame: framed "receive_hello packet a" for packet a
  by unfold_locales (simp_all add: receive_hello_def Let_def split: option.split)

interpretation pong_frame: framed "receive_pong i" for i
  by unfold_locales (simp_all add: receive_pong_def Let_def case_prod_beta le_SucI)

interpretation ping_frame: framed "receive_ping i packet" for i packet
  by unfold_locales (simp_all add: receive_ping_def Let_def case_prod_beta le_SucI)

interpretation state_frame: framed "receive_state i packet sz" for i packet sz
  by unfold_locales (simp_all add: receive_state_def Let_def case_prod_beta le_SucI)

interpretation apply_frame: framed "\<lambda>s. snd (apply_command i packet s)" for i packet
  by unfold_locales (simp_all add: apply_command_def Let_def case_prod_beta le_SucI)

interpretation done_frame: framed "command_done i cmd q" for i cmd q
  by unfold_locales (simp_all add: command_done_def Let_def)

interpretation run_frame: framed "run_command i packet" for i packet
  by unfold_locales (simp_all add: run_command_def Let_def case_prod_beta le_SucI)

interpretation command_frame: framed "receive_command i packet" for i packet
  by unfold_locales (simp_all add: receive_command_def Let_def case_prod_beta le_SucI)

interpretation player_frame: framed "receive_player i packet sz" for i packet sz
  by unfold_locales (simp_all add: receive_player_def)

interpretation packet_frame: framed "receive_packet b a" for b a
  by unfold_locales (simp_all add: receive_packet_def Let_def split: option.split)

section \<open>Datagrams sent\<close>

text \<open>A packet as \<open>send_player\<close> completes it for player \<open>i\<close>.\<close>

definition addressed :: "nat \<Rightarrow> fz_packet \<Rightarrow> Server \<Rightarrow> fz_packet" where
  "addressed i packet s = packet\<lparr>pk_session := s_session s, pk_race := s_race s,
     pk_token := p_token (player s i), pk_ack := p_command_seq (player s i)\<rparr>"

lemma sent_simps [simp]:
  "io_sent (s_io (snd (now_us s))) = io_sent (s_io s)"
  "io_sent (s_io (snd (random_id s))) = io_sent (s_io s)"
  "io_sent (s_io (log_event l k m s)) = io_sent (s_io s)"
  "io_sent (s_io (transmit a packet s)) = io_sent (s_io s) @ [(a, fz_encode FZ_MAX_PACKET packet)]"
  "io_sent (s_io (send_player i packet s))
     = io_sent (s_io s) @ [(p_address (player s i), fz_encode FZ_MAX_PACKET (addressed i packet s))]"
  by (simp_all add: now_us_def random_id_def log_event_def transmit_def send_player_def addressed_def Let_def)

lemma addressed_send [simp]: "addressed i packet (send_player j q s) = addressed i packet s"
  by (simp add: addressed_def)

lemma sent_send_occupied [simp]:
  "io_sent (s_io (send_occupied packet s)) = io_sent (s_io s)
     @ map (\<lambda>i. (p_address (player s i), fz_encode FZ_MAX_PACKET (addressed i packet s)))
         (filter (\<lambda>i. occupied (player s i)) [0..<4])"
proof -
  have "io_sent (s_io (fold (\<lambda>i s. if occupied (player s i) then send_player i packet s else s) xs s))
    = io_sent (s_io s) @ map (\<lambda>i. (p_address (player s i), fz_encode FZ_MAX_PACKET (addressed i packet s)))
         (filter (\<lambda>i. occupied (player s i)) xs)" for xs
    by (induction xs arbitrary: s) simp_all
  then show ?thesis by (simp add: send_occupied_def)
qed

end
