(* ===== verification/Fz_Server_Run.thy ===== *)
theory Fz_Server_Run
  imports Fz_Server_Loop Fz_Server_Inv Fz_Server_Frame
begin

text \<open>
  The runs of a server: the states its caller can bring it to by polling it, asking for its status,
  reading its log and closing it, in any order and with any answers of the network, the clock and
  the random device. The locale \<open>server_safety\<close> states what an invariant has to satisfy operation by
  operation to hold in all of them.
\<close>

section \<open>Reachable states\<close>

inductive reachable :: "io \<Rightarrow> Server \<Rightarrow> bool" for w where
  created: "fz_server_create c sz os w = Inr s \<Longrightarrow> reachable w s"
| polled: "reachable w s \<Longrightarrow> reachable w (snd (fz_server_poll wait_ms env s))"
| queried: "reachable w s \<Longrightarrow> reachable w (snd (fz_server_get_status s))"
| event_read: "reachable w s \<Longrightarrow> fz_server_next_event (s_ring s) = Some (e, r)
    \<Longrightarrow> reachable w (s\<lparr>s_ring := r\<rparr>)"
| shut: "reachable w s \<Longrightarrow> reachable w (fz_server_close s)"

section \<open>The loop's obligations\<close>

locale server_safety =
  fixes I :: "Server \<Rightarrow> bool"
    and w :: io
  assumes I_create: "fz_server_create c sz os w = Inr s \<Longrightarrow> I s"
    and I_now: "I s \<Longrightarrow> I (snd (now_us s))"
    and I_log: "I s \<Longrightarrow> 0 \<le> l \<Longrightarrow> l \<le> 3 \<Longrightarrow> I (log_event l k m s)"
    and I_packet: "I s \<Longrightarrow> I (receive_packet b a s)"
    and I_advance: "I s \<Longrightarrow> I (advance now s)"
    and I_snapshot: "I s \<Longrightarrow> I (snapshot s)"
    and I_summary: "I s \<Longrightarrow> i < 4 \<Longrightarrow> I (summary_player now i s)"
    and I_tick: "I s \<Longrightarrow> I (s\<lparr>s_tick := t\<rparr>)"
    and I_summary_time: "I s \<Longrightarrow> I (s\<lparr>s_summary := t\<rparr>)"
    and I_wait: "I s \<Longrightarrow> I (poll_wait v s)"
    and I_read: "I s \<Longrightarrow> fz_server_next_event (s_ring s) = Some (e, r) \<Longrightarrow> I (s\<lparr>s_ring := r\<rparr>)"
    and I_close: "I s \<Longrightarrow> I (fz_server_close s)"
begin

lemma I_receive_loop: "I s \<Longrightarrow> I (snd (receive_loop n rs s))"
  by (induction n rs s rule: receive_loop.induct)
    (auto simp: I_packet I_log split: list.split recv_result.split)

lemma I_poll_tick: "I s \<Longrightarrow> I (poll_tick now s)"
  by (simp add: poll_tick_def Let_def I_advance I_snapshot I_tick)

lemma I_poll_summary: "I s \<Longrightarrow> I (poll_summary now s)"
  by (simp add: poll_summary_def Let_def upt_4 I_log I_summary I_summary_time)

lemma I_poll: "I s \<Longrightarrow> I (snd (fz_server_poll wait_ms env s))"
  unfolding fz_server_poll_def Let_def case_prod_beta
  by (simp add: I_now I_wait I_log I_receive_loop I_poll_tick I_poll_summary split: option.split)

theorem I_reachable: "reachable w s \<Longrightarrow> I s"
proof (induction rule: reachable.induct)
  case (queried s)
  then show ?case by (simp add: fz_server_get_status_def Let_def case_prod_beta I_now)
qed (use I_create I_poll I_read I_close in blast)+

end

section \<open>The room invariant holds in every run\<close>

lemma create_Inr:
  assumes "fz_server_create c sz os w = Inr s"
  obtains cfg m s0 where "c = Some cfg" "valid_config cfg" "fst (random_id (new_server cfg w)) \<noteq> 0"
    "s0 = (snd (random_id (new_server cfg w)))\<lparr>s_session := fst (random_id (new_server cfg w)),
       s_socket := os_socket os\<rparr>"
    "0 \<le> os_socket os"
    "s = log_event 1 (- 1) m ((snd (now_us s0))\<lparr>s_tick := fst (now_us s0), s_summary := fst (now_us s0),
       s_phase_since := fst (now_us s0)\<rparr>)"
  using assms that
  unfolding fz_server_create_def Let_def case_prod_beta
  by (auto simp del: fst_now_us split: option.splits if_splits)

lemma inv_new_server:
  assumes "valid_config cfg"
  shows "server_inv (new_server cfg w)"
proof -
  have vacant: "count_players (replicate 4 zero_player) = 0" "\<not> occupied zero_player"
      "p_status zero_player = 0" "p_car zero_player = 0"
    by (simp_all add: count_0_iff zero_player_def occupied_def)
  have e: "2 \<le> unat (c_players cfg)" "unat (c_players cfg) \<le> 4"
    and t: "unat (c_track cfg) < 5" and l: "unat (c_league cfg) < 3"
    using assms by (auto simp: valid_config_def word_less_nat_alt)
  have "unat (ucast (c_players cfg) :: u8) = unat (c_players cfg)"
    "unat (ucast (c_track cfg) :: u8) = unat (c_track cfg)"
    "unat (ucast (c_league cfg) :: u8) = unat (c_league cfg)"
    using e t l by (simp_all add: unsigned_ucast_eq take_bit_eq_mod)
  then show ?thesis
    using e t l vacant
    by (simp add: inv_defs new_server_def allowed_def word_le_nat_alt word_less_nat_alt)
qed

lemma inv_summary_player [keeps]:
  assumes "server_inv s" and "i < 4"
  shows "server_inv (summary_player now i s)"
  using assms by (simp add: summary_player_def Let_def inv_touch)

lemma server_inv_deadlines [simp]:
  "server_inv (s\<lparr>s_tick := t\<rparr>) = server_inv s" "server_inv (s\<lparr>s_summary := t\<rparr>) = server_inv s"
  "server_inv (s\<lparr>s_phase_since := t\<rparr>) = server_inv s" "server_inv (s\<lparr>s_session := t\<rparr>) = server_inv s"
  "server_inv (s\<lparr>s_socket := n\<rparr>) = server_inv s" "server_inv (s\<lparr>s_ring := r\<rparr>) = server_inv s"
  "server_inv (poll_wait v s) = server_inv s"
  by (simp_all add: inv_defs poll_wait_def)

lemma inv_closed: "server_inv s \<Longrightarrow> server_inv (s\<lparr>s_closed := True\<rparr>)"
  by (simp add: server_inv_def slots_ok_def seats_ok_def room_ok_def)

interpretation room: server_safety server_inv w for w
proof
  fix c sz os s
  assume "fz_server_create c sz os w = Inr s"
  then show "server_inv s"
    by (elim create_Inr) (simp add: inv_new_server)
qed (simp_all add: inv_receive_packet inv_advance inv_summary_player fz_server_close_def Let_def
      inv_closed)

interpretation logging: server_safety log_ok w for w
proof
  fix c sz os s
  assume "fz_server_create c sz os w = Inr s"
  then show "log_ok s"
    by (elim create_Inr) (simp add: log_ok_def new_server_def)
next
  fix s e r
  assume "log_ok s" and "fz_server_next_event (s_ring s) = Some (e, r)"
  then show "log_ok (s\<lparr>s_ring := r\<rparr>)"
    using log_ring.invar_pop by (simp add: log_ok_def)
qed (simp_all add: fz_server_close_def Let_def summary_player_def, simp add: log_ok_def poll_wait_def)

end
