(* ===== verification/Fz_Server_Time.thy ===== *)
theory Fz_Server_Time
  imports Fz_Server_Run
begin

text \<open>
  Time on the server: every time stamp kept for a player is a reading the clock has given before.
  With a monotonic clock the unsigned differences the source computes therefore never wrap, and the
  heartbeat check drops exactly the players that have been silent for five seconds.
\<close>

section \<open>Time stamps are past readings\<close>

definition read_before :: "io \<Rightarrow> u64 \<Rightarrow> bool" where
  "read_before w v \<longleftrightarrow> (\<exists>k<io_readings w. v = io_clock w k)"

definition stamped :: "io \<Rightarrow> Player \<Rightarrow> bool" where
  "stamped w p \<longleftrightarrow> (occupied p \<longrightarrow> read_before w (p_seen p))
     \<and> (p_updated p = 0 \<or> read_before w (p_updated p))"

definition stamps_ok :: "Server \<Rightarrow> bool" where
  "stamps_ok s \<longleftrightarrow> length (s_players s) = 4 \<and> (\<forall>i<4. stamped (s_io s) (player s i))"

lemma stamps_length: "stamps_ok s \<Longrightarrow> length (s_players s) = 4"
  by (simp add: stamps_ok_def)

lemma stamps_player: "stamps_ok s \<Longrightarrow> i < 4 \<Longrightarrow> stamped (s_io s) (player s i)"
  by (simp add: stamps_ok_def)

lemma read_later:
  "io_clock w' = io_clock w \<Longrightarrow> io_readings w \<le> io_readings w' \<Longrightarrow> read_before w v \<Longrightarrow> read_before w' v"
  unfolding read_before_def by (metis order_less_le_trans)

lemma stamped_later:
  "io_clock w' = io_clock w \<Longrightarrow> io_readings w \<le> io_readings w' \<Longrightarrow> stamped w p \<Longrightarrow> stamped w' p"
  using read_later unfolding stamped_def by blast

context acts_as
begin

lemma stamped_act [simp]: "s_io (upd s) = s_io s \<Longrightarrow> stamped (s_io s) p \<Longrightarrow> stamped (s_io (act s)) p"
  by (rule stamped_later [of _ "s_io s"]) (simp_all add: readings_act)

lemma read_act [simp]: "s_io (upd s) = s_io s \<Longrightarrow> read_before (s_io s) v \<Longrightarrow> read_before (s_io (act s)) v"
  by (rule read_later [of _ "s_io s"]) (simp_all add: readings_act)

lemma stamps_act [simp]: "s_io (upd s) = s_io s \<Longrightarrow> stamps_ok (upd s) \<Longrightarrow> stamps_ok (act s)"
  by (simp add: stamps_ok_def)

end

lemma read_now [simp]: "read_before (s_io (snd (now_us s))) (fst (now_us s))"
  unfolding read_before_def by (rule exI [of _ "io_readings (s_io s)"]) simp

declare fst_now_us [simp del]

lemma stamps_players [simp]:
  "stamps_ok s \<Longrightarrow> stamped (s_io s) p \<Longrightarrow> stamps_ok (s\<lparr>s_players := (s_players s)[i := p]\<rparr>)"
  by (cases "i < 4") (auto simp: stamps_ok_def nth_list_update list_update_beyond)

lemma stamps_update [simp]:
  "stamps_ok s \<Longrightarrow> stamped (s_io s) (f (player s i)) \<Longrightarrow> stamps_ok (update_player i f s)"
  by (simp add: update_player_def)

declare update_player_op.stamps_act [simp del]

lemma stamps_each:
  "stamps_ok s \<Longrightarrow> (\<And>p. stamped (s_io s) p \<Longrightarrow> stamped (s_io s) (f p))
     \<Longrightarrow> stamps_ok (s\<lparr>s_players := each f (s_players s)\<rparr>)"
  by (simp add: stamps_ok_def each_map)

lemma stamps_other [simp]:
  "stamps_ok (s\<lparr>s_host := v1\<rparr>) = stamps_ok s"
  "stamps_ok (s\<lparr>s_start := v2\<rparr>) = stamps_ok s" "stamps_ok (s\<lparr>s_race := v3\<rparr>) = stamps_ok s"
  "stamps_ok (s\<lparr>s_phase := v4\<rparr>) = stamps_ok s" "stamps_ok (s\<lparr>s_expected := v5\<rparr>) = stamps_ok s"
  "stamps_ok (s\<lparr>s_track := v6\<rparr>) = stamps_ok s" "stamps_ok (s\<lparr>s_league := v7\<rparr>) = stamps_ok s"
  "stamps_ok (s\<lparr>s_closed := v8\<rparr>) = stamps_ok s" "stamps_ok (s\<lparr>s_rx := v9\<rparr>) = stamps_ok s"
  "stamps_ok (s\<lparr>s_stale := v10\<rparr>) = stamps_ok s" "stamps_ok (s\<lparr>s_session := v11\<rparr>) = stamps_ok s"
  "stamps_ok (s\<lparr>s_socket := v12\<rparr>) = stamps_ok s" "stamps_ok (s\<lparr>s_tick := v13\<rparr>) = stamps_ok s"
  "stamps_ok (s\<lparr>s_summary := v14\<rparr>) = stamps_ok s" "stamps_ok (s\<lparr>s_phase_since := v15\<rparr>) = stamps_ok s"
  "stamps_ok (s\<lparr>s_ring := v16\<rparr>) = stamps_ok s" "stamps_ok (poll_wait v17 s) = stamps_ok s"
  by (simp_all add: stamps_ok_def stamped_def read_before_def poll_wait_def)

lemma stamped_zero [simp]: "stamped w zero_player"
  by (simp add: stamped_def zero_player_def occupied_def)

lemma stamped_lobby_player: "stamped w p \<Longrightarrow> stamped w (lobby_player p)"
  by (simp add: lobby_player_def stamped_def occupied_def zero_player_def)

lemma stamped_updates [simp]:
  "stamped w p \<Longrightarrow> read_before w t \<Longrightarrow> stamped w (p\<lparr>p_seen := t\<rparr>)"
  "stamped w p \<Longrightarrow> read_before w t \<Longrightarrow> stamped w (p\<lparr>p_updated := t\<rparr>)"
  "stamped w p \<Longrightarrow> occupied p \<Longrightarrow> stamped w (p\<lparr>p_status := st\<rparr>)"
  "stamped w (p\<lparr>p_car := v\<rparr>) = stamped w p" "stamped w (p\<lparr>p_armed := t\<rparr>) = stamped w p"
  "stamped w (p\<lparr>p_x := x\<rparr>) = stamped w p" "stamped w (p\<lparr>p_y := x\<rparr>) = stamped w p"
  "stamped w (p\<lparr>p_orientation := v\<rparr>) = stamped w p" "stamped w (p\<lparr>p_command_seq := q\<rparr>) = stamped w p"
  "stamped w (p\<lparr>p_state_seq := q\<rparr>) = stamped w p" "stamped w (p\<lparr>p_packets := t\<rparr>) = stamped w p"
  "stamped w (p\<lparr>p_bytes := t\<rparr>) = stamped w p" "stamped w (p\<lparr>p_ping := t\<rparr>) = stamped w p"
  "stamped w (p\<lparr>p_rtt := d\<rparr>) = stamped w p" "stamped w (p\<lparr>p_jitter := d\<rparr>) = stamped w p"
  by (auto simp: stamped_def occupied_def)

lemma occupied_updates [simp]:
  "occupied (p\<lparr>p_car := v\<rparr>) = occupied p" "occupied (p\<lparr>p_armed := t\<rparr>) = occupied p"
  "occupied (p\<lparr>p_x := x\<rparr>) = occupied p" "occupied (p\<lparr>p_y := x\<rparr>) = occupied p"
  "occupied (p\<lparr>p_orientation := v\<rparr>) = occupied p" "occupied (p\<lparr>p_command_seq := q\<rparr>) = occupied p"
  by (simp_all add: occupied_def)

section \<open>Every operation\<close>

lemma s_io_departed [simp]: "s_io (departed i s) = s_io s"
  by (simp add: departed_def Let_def)

lemma s_io_barriers [simp]:
  "s_io (to_loading s) = s_io s" "s_io (to_countdown now s) = s_io s"
  "s_io (to_race now s) = s_io s" "s_io (to_results s) = s_io s"
  by (simp_all add: barrier_defs)

lemma stamps_lobby:
  "stamps_ok s \<Longrightarrow> stamps_ok (s\<lparr>s_race := r, s_start := t, s_phase := p, s_players := each lobby_player (s_players s)\<rparr>)"
  using stamps_each [of "s\<lparr>s_race := r, s_start := t, s_phase := p\<rparr>" lobby_player]
  by (simp add: stamped_lobby_player)

lemma stamps_begin_lobby [simp]: "stamps_ok s \<Longrightarrow> stamps_ok (begin_lobby s)"
  by (rule begin_lobby_op.stamps_act) (simp_all add: stamps_lobby)

lemma stamps_departed [simp]:
  assumes "stamps_ok s" and "i < 4"
  shows "stamps_ok (departed i s)"
proof -
  let ?p = "(player s i)\<lparr>p_status := FZ_DISCONNECTED, p_x := 0, p_y := 0\<rparr>"
  have p: "stamped (s_io s) ?p"
    using stamps_player [OF assms] by (simp add: stamped_def occupied_def)
  have "stamps_ok ((s\<lparr>s_players := ps\<rparr>)\<lparr>s_race := r, s_start := 0, s_phase := FZ_LOBBY,
      s_players := each lobby_player (s_players (s\<lparr>s_players := ps\<rparr>)), s_host := 255\<rparr>)"
    if "stamps_ok (s\<lparr>s_players := ps\<rparr>)" for ps r
    using stamps_lobby [OF that, where r = r and t = 0 and p = FZ_LOBBY] by (simp add: stamps_ok_def)
  then show ?thesis
    using assms p by (auto simp: departed_def Let_def)
qed

lemma stamps_timeouts [simp]: "stamps_ok s \<Longrightarrow> stamps_ok (timeouts now s)"
  by (simp add: timeouts_def upt_4)

lemma stamps_barriers [simp]:
  "stamps_ok s \<Longrightarrow> stamps_ok (to_loading s)" "stamps_ok s \<Longrightarrow> stamps_ok (to_countdown now s)"
  "stamps_ok s \<Longrightarrow> stamps_ok (to_race now s)" "stamps_ok s \<Longrightarrow> stamps_ok (to_results s)"
  using stamps_each [of "s\<lparr>s_start := now + 2000000, s_phase := FZ_COUNTDOWN\<rparr>" "\<lambda>p. p\<lparr>p_armed := 0\<rparr>"]
    stamps_each [of "s\<lparr>s_phase := FZ_RACING\<rparr>" racing_player]
  by (simp_all add: barrier_defs stamped_def occupied_def racing_player_def)

lemma stamps_advance [simp]: "stamps_ok s \<Longrightarrow> stamps_ok (advance now s)"
  by (simp add: advance_def Let_def)

lemma stamps_join_slot [simp]:
  assumes "stamps_ok s" and "i < 4"
  shows "stamps_ok (join_slot i a n s)"
proof -
  have "stamped w (zero_player\<lparr>p_address := a, p_token := t\<rparr>)" for w t
    by (simp add: stamped_def occupied_def zero_player_def)
  moreover have "stamped w (zero_player\<lparr>p_address := a, p_token := t, p_nonce := n, p_seen := v, p_status := 1\<rparr>)"
    if "read_before w v" for w t v
    using that by (simp add: stamped_def zero_player_def)
  ultimately show ?thesis
    using assms stamps_length [of s] by (simp add: join_slot_def Let_def case_prod_beta)
qed

lemma stamps_hello [simp]: "stamps_ok s \<Longrightarrow> stamps_ok (receive_hello packet a s)"
  by (auto simp: receive_hello_def Let_def find_Some_least split: option.split)

lemma stamps_pong [simp]:
  "stamps_ok s \<Longrightarrow> i < 4 \<Longrightarrow> stamps_ok (receive_pong i s)"
  by (simp add: receive_pong_def Let_def case_prod_beta stamps_player)

lemma stamps_ping [simp]:
  "stamps_ok s \<Longrightarrow> i < 4 \<Longrightarrow> stamps_ok (receive_ping i packet s)"
  by (simp add: receive_ping_def Let_def case_prod_beta stamps_player)

lemma stamps_state [simp]:
  "stamps_ok s \<Longrightarrow> i < 4 \<Longrightarrow> stamps_ok (receive_state i packet sz s)"
  by (simp add: receive_state_def Let_def case_prod_beta stamps_player stamps_length)

lemma stamps_apply:
  assumes "stamps_ok s" and "i < 4" and "occupied (player s i)"
  shows "stamps_ok (snd (apply_command i packet s))"
  using assms
  by (simp add: apply_command_def Let_def case_prod_beta stamps_player stamps_length)

lemma stamps_done:
  "stamps_ok s \<Longrightarrow> i < 4 \<Longrightarrow> stamps_ok (command_done i cmd q s)"
  by (simp add: command_done_def Let_def)

lemma stamps_run:
  assumes "stamps_ok s" and "i < 4" and "occupied (player s i)"
  shows "stamps_ok (run_command i packet s)"
proof -
  define s1 where "s1 = snd (apply_command i packet s)"
  have s1: "stamps_ok s1" using stamps_apply [OF assms] by (simp add: s1_def)
  then show ?thesis
    unfolding run_command_def Let_def case_prod_beta
    by (simp add: assms(2) stamps_done stamps_player stamps_length flip: s1_def)
qed

lemma stamps_command:
  "stamps_ok s \<Longrightarrow> i < 4 \<Longrightarrow> occupied (player s i) \<Longrightarrow> stamps_ok (receive_command i packet s)"
  by (simp add: receive_command_def Let_def case_prod_beta stamps_run)

lemma stamps_packet [simp]: "stamps_ok s \<Longrightarrow> stamps_ok (receive_packet b a s)"
  by (auto simp: receive_packet_def Let_def receive_player_def stamps_command
      dest!: authenticate_Some split: option.split)

lemma stamps_summary: "stamps_ok s \<Longrightarrow> i < 4 \<Longrightarrow> stamps_ok (summary_player now i s)"
  by (simp add: summary_player_def Let_def stamps_player)

interpretation clocked: server_safety stamps_ok w for w
proof
  fix c sz os s
  assume "fz_server_create c sz os w = Inr s"
  then show "stamps_ok s"
    by (elim create_Inr) (simp add: stamps_ok_def new_server_def)
qed (simp_all add: fz_server_close_def Let_def stamps_summary)

section \<open>Heartbeats\<close>

text \<open>The clock of a run is the one it was created with.\<close>

context framed
begin

lemma clock_act [simp]: "io_clock (s_io (act s)) = io_clock (s_io s)"
  using setup_act [of s] by (simp add: setup_of_def)

end

interpretation same_clock: server_safety "\<lambda>s. io_clock (s_io s) = io_clock w" w for w
proof
  fix c sz os s
  assume "fz_server_create c sz os w = Inr s"
  then show "io_clock (s_io s) = io_clock w"
    by (elim create_Inr) (simp add: new_server_def)
qed (simp_all add: fz_server_close_def Let_def summary_player_def poll_wait_def)

lemma elapsed_iff:
  fixes seen now :: u64
  assumes "seen \<le> now"
  shows "5000000 \<le> now - seen \<longleftrightarrow> unat seen + 5000000 \<le> unat now"
  using assms unat_sub [OF assms] by (auto simp: word_le_nat_alt)

lemma departed_other:
  assumes "length (s_players s) = 4" and "i < 4" and "j < 4" and "i \<noteq> j"
  shows "if occupied (player s j) then player (departed i s) j = player s j
    else \<not> occupied (player (departed i s) j)"
proof (cases "occupied (player s j)")
  case True
  then have left: "0 < count_players ((s_players s)[i := p])" for p
    using assms by (intro count_pos [of j]) simp_all
  show ?thesis
    using left [of zero_player] left [of "(player s i)\<lparr>p_status := FZ_DISCONNECTED, p_x := 0, p_y := 0\<rparr>"]
      True assms
    by (simp add: departed_def Let_def)
next
  case False
  with assms show ?thesis by (simp add: departed_def Let_def nth_each)
qed

lemma departed_self:
  "length (s_players s) = 4 \<Longrightarrow> i < 4 \<Longrightarrow> \<not> occupied (player (departed i s) i)"
  by (simp add: departed_def Let_def nth_each) (simp add: occupied_def zero_player_def)

lemma length_departed [simp]: "length (s_players (departed i s)) = length (s_players s)"
  by (simp add: departed_def Let_def)

text \<open>The loop over the first \<open>n\<close> players.\<close>

lemma timeouts_upto:
  fixes now :: u64
  defines "late p \<equiv> occupied p \<and> now - p_seen p \<ge> 5000000"
  assumes len: "length (s_players s) = 4" and n: "n \<le> 4"
  defines "t \<equiv> fold (\<lambda>i s. if late (player s i) then drop_player i ''heartbeat_timeout'' s else s) [0..<n] s"
  shows "length (s_players t) = 4
    \<and> (\<forall>j<4. if occupied (player s j) \<and> \<not> (j < n \<and> late (player s j)) then player t j = player s j
         else \<not> occupied (player t j))"
  using n unfolding t_def
proof (induction n)
  case (Suc n)
  define t where "t = fold (\<lambda>i s. if late (player s i) then drop_player i ''heartbeat_timeout'' s else s) [0..<n] s"
  have lt: "length (s_players t) = 4"
    and IH: "\<And>j. j < 4 \<Longrightarrow> if occupied (player s j) \<and> \<not> (j < n \<and> late (player s j)) then player t j = player s j
         else \<not> occupied (player t j)"
    using Suc by (simp_all add: t_def)
  have "n < 4" using Suc.prems by simp
  show ?case
  proof (cases "late (player t n)")
    case True
    then have "player t n = player s n" using IH [OF \<open>n < 4\<close>] by (auto simp: late_def split: if_splits)
    have "if occupied (player s j) \<and> \<not> (j < Suc n \<and> late (player s j)) then player (departed n t) j = player s j
         else \<not> occupied (player (departed n t) j)" if "j < 4" for j
    proof (cases "j = n")
      case True
      then show ?thesis
        using departed_self [OF lt \<open>n < 4\<close>] \<open>late (player t n)\<close> \<open>player t n = player s n\<close> by auto
    next
      case False
      then show ?thesis
        using IH [OF that] departed_other [OF lt \<open>n < 4\<close> that] by (auto simp: less_Suc_eq split: if_splits)
    qed
    with True lt show ?thesis by (simp add: t_def [symmetric])
  next
    case False
    have "if occupied (player s j) \<and> \<not> (j < Suc n \<and> late (player s j)) then player t j = player s j
         else \<not> occupied (player t j)" if "j < 4" for j
      using IH [OF that] False by (auto simp: less_Suc_eq late_def split: if_splits)
    with False lt show ?thesis by (simp add: t_def [symmetric])
  qed
qed (use len in simp)

lemma occupied_barriers [simp]:
  assumes "length (s_players s) = 4" and "i < 4"
  shows "occupied (player (to_loading s) i) = occupied (player s i)"
    and "occupied (player (to_countdown now s) i) = occupied (player s i)"
    and "occupied (player (to_race now s) i) = occupied (player s i)"
    and "occupied (player (to_results s) i) = occupied (player s i)"
  using assms by (simp_all add: barrier_defs nth_each)

lemma length_barriers [simp]:
  "length (s_players (to_loading s)) = length (s_players s)"
  "length (s_players (to_countdown now s)) = length (s_players s)"
  "length (s_players (to_race now s)) = length (s_players s)"
  "length (s_players (to_results s)) = length (s_players s)"
  by (simp_all add: barrier_defs)

lemma advance_occupied:
  assumes "length (s_players s) = 4" and "i < 4"
  shows "occupied (player (advance now s) i)
    \<longleftrightarrow> occupied (player s i) \<and> \<not> 5000000 \<le> now - p_seen (player s i)"
proof -
  have "length (s_players (timeouts now s)) = 4"
    and "occupied (player (timeouts now s) i) \<longleftrightarrow> occupied (player s i) \<and> \<not> 5000000 \<le> now - p_seen (player s i)"
    using timeouts_upto [OF assms(1), of 4 now] assms(2) by (auto simp: timeouts_def split: if_splits)
  with assms(2) show ?thesis
    by (simp add: advance_def Let_def)
qed

text \<open>
  C17. With a monotonic clock, one step of the phase logic keeps a player exactly when
  less than five seconds have passed since the player was last heard: nobody is dropped early, however
  the clock readings, the packets and the other departures are interleaved, and nobody stays beyond the
  limit. The unsigned subtraction of the source never wraps.
\<close>

theorem heartbeat_exact:
  assumes run: "reachable w s" and mono: "\<And>m n. m \<le> n \<Longrightarrow> io_clock w m \<le> io_clock w n"
    and i: "i < 4"
  shows "occupied (player (advance (fst (now_us s)) (snd (now_us s))) i)
    \<longleftrightarrow> occupied (player s i) \<and> unat (fst (now_us s)) < unat (p_seen (player s i)) + 5000000"
proof -
  have ok: "stamps_ok s" by (rule clocked.I_reachable [OF run])
  have clock: "io_clock (s_io s) = io_clock w" by (rule same_clock.I_reachable [OF run])
  have "p_seen (player s i) \<le> fst (now_us s)" if "occupied (player s i)"
    using stamps_player [OF ok i] that mono clock
    by (auto simp: stamped_def read_before_def fst_now_us)
  then show ?thesis
    using advance_occupied [of "snd (now_us s)" i "fst (now_us s)"] stamps_length [OF ok] i elapsed_iff
    by auto
qed

end
