(* ===== verification/Fz_Server_Steps.thy ===== *)
theory Fz_Server_Steps
  imports Fz_Server_Time
begin

text \<open>
  What one packet or one step of the phase logic can do to the seats of the room, to its
  configuration and to its phase, seen from outside: the facts the theorems on packets share.
\<close>

section \<open>Seats\<close>

text \<open>
  The part of a player that is fixed while the seat is taken, and the acknowledged command. After
  every operation but joining, the players present are players that were present before, in the
  same seats.
\<close>

definition seat :: "Player \<Rightarrow> _" where
  "seat p = (p_address p, p_token p, p_nonce p, p_command_seq p)"

definition stays :: "Server \<Rightarrow> Server \<Rightarrow> bool" where
  "stays s t \<longleftrightarrow> length (s_players t) = 4
     \<and> (\<forall>j<4. occupied (player t j) \<longrightarrow> occupied (player s j) \<and> seat (player t j) = seat (player s j))"

lemma stays_refl [simp]: "length (s_players s) = 4 \<Longrightarrow> stays s s"
  by (simp add: stays_def)

lemma stays_trans: "stays s t \<Longrightarrow> stays t u \<Longrightarrow> stays s u"
  by (auto simp: stays_def)

lemma stays_length: "stays s t \<Longrightarrow> length (s_players t) = 4"
  by (simp add: stays_def)

lemma staysD: "stays s t \<Longrightarrow> j < 4 \<Longrightarrow> occupied (player t j)
    \<Longrightarrow> occupied (player s j) \<and> seat (player t j) = seat (player s j)"
  by (simp add: stays_def)

lemma stays_cong: "s_players t = s_players u \<Longrightarrow> stays s t = stays s u"
  by (simp add: stays_def)

context acts_as
begin

lemma stays_act [simp]: "stays s (act t) = stays s (upd t)"
  by (rule stays_cong) simp

end

lemma stays_other [simp]:
  "stays s (t\<lparr>s_host := v1\<rparr>) = stays s t" "stays s (t\<lparr>s_start := v2\<rparr>) = stays s t"
  "stays s (t\<lparr>s_race := v3\<rparr>) = stays s t" "stays s (t\<lparr>s_phase := v4\<rparr>) = stays s t"
  "stays s (t\<lparr>s_expected := v5\<rparr>) = stays s t" "stays s (t\<lparr>s_track := v6\<rparr>) = stays s t"
  "stays s (t\<lparr>s_league := v7\<rparr>) = stays s t" "stays s (t\<lparr>s_closed := v8\<rparr>) = stays s t"
  "stays s (t\<lparr>s_rx := v9\<rparr>) = stays s t" "stays s (t\<lparr>s_stale := v10\<rparr>) = stays s t"
  by (simp_all add: stays_def)

lemma stays_update:
  assumes "stays s t"
    and "occupied (f (player t i)) \<Longrightarrow> occupied (player t i) \<and> seat (f (player t i)) = seat (player t i)"
  shows "stays s (update_player i f t)"
  using assms by (cases "i < 4") (auto simp: stays_def update_player_def nth_list_update list_update_beyond)

lemma stays_lobby:
  "stays s t \<Longrightarrow> stays s (t\<lparr>s_race := r, s_start := v, s_phase := ph, s_players := each lobby_player (s_players t)\<rparr>)"
  by (simp add: stays_def nth_each seat_def lobby_player_fields) (simp add: lobby_player_def)

lemma stays_begin_lobby [simp]: "stays s t \<Longrightarrow> stays s (begin_lobby t)"
  unfolding begin_lobby_op.stays_act by (rule stays_lobby)

lemma stays_departed:
  assumes "stays s t" and "i < 4"
  shows "stays s (departed i t)"
proof -
  have len: "length (s_players t) = 4" by (rule stays_length [OF assms(1)])
  have "occupied (player t j) \<and> seat (player (departed i t) j) = seat (player t j)"
    if "j < 4" "occupied (player (departed i t) j)" for j
    using that departed_self [OF len assms(2)] departed_other [OF len assms(2) that(1)]
    by (cases "j = i") (auto split: if_splits)
  with assms(1) len show ?thesis by (simp add: stays_def)
qed

lemma stays_drop [simp]: "stays s t \<Longrightarrow> i < 4 \<Longrightarrow> stays s (drop_player i r t)"
  by (simp add: stays_departed)

lemma stays_timeouts [simp]: "stays s t \<Longrightarrow> stays s (timeouts now t)"
  by (simp add: timeouts_def upt_4 stays_departed)

lemma stays_barriers [simp]:
  assumes "stays s t"
  shows "stays s (to_loading t)" and "stays s (to_countdown now t)" and "stays s (to_race now t)"
    and "stays s (to_results t)"
  using assms by (simp_all add: barrier_defs stays_def nth_each seat_def racing_player_def occupied_def)

lemma stays_advance [simp]: "stays s t \<Longrightarrow> stays s (advance now t)"
  by (simp add: advance_def Let_def)

text \<open>A command in sequence: its number is the one acknowledged, and the seats stay.\<close>

definition acked :: "nat \<Rightarrow> u32 \<Rightarrow> Server \<Rightarrow> Server" where
  "acked i q s = update_player i (\<lambda>p. p\<lparr>p_command_seq := q\<rparr>) s"

lemma apply_command_seats:
  assumes "length (s_players s) = 4" and "i < 4" and "occupied (player s i)"
    and "t = snd (apply_command i packet s)"
  shows "length (s_players t) = 4" and "occupied (player t i)" and "seat (player t i) = seat (player s i)"
    and "\<And>j. j \<noteq> i \<Longrightarrow> player t j = player s j"
  using assms(1-3) unfolding assms(4) apply_command_def Let_def case_prod_beta
  by (simp_all add: seat_def) (auto simp: occupied_def)

lemma stays_command_done:
  "stays s t \<Longrightarrow> i < 4 \<Longrightarrow> stays s (command_done i cmd q t)"
  unfolding command_done_def Let_def by (simp add: stays_departed del: begin_lobby_op.stays_act)

lemma run_command_stays:
  assumes "length (s_players s) = 4" and "i < 4" and "occupied (player s i)"
  shows "stays (acked i (pk_seq packet) s) (run_command i packet s)"
proof -
  define s1 where "s1 = snd (apply_command i packet s)"
  define s2 where "s2 = update_player i (\<lambda>p. p\<lparr>p_command_seq := pk_seq packet\<rparr>) s1"
  define s3 where "s3 = update_player i (\<lambda>p. p\<lparr>p_seen := fst (now_us s2)\<rparr>) (snd (now_us s2))"
  note s1 = apply_command_seats [OF assms s1_def]
  have "stays (acked i (pk_seq packet) s) s2"
    unfolding stays_def
  proof (intro conjI allI impI)
    fix j :: nat
    assume "j < 4" and occ: "occupied (player s2 j)"
    show "occupied (player (acked i (pk_seq packet) s) j)"
      using assms occ s1(1) s1(4) [of j] \<open>j < 4\<close> by (cases "j = i") (simp_all add: acked_def s2_def)
    show "seat (player s2 j) = seat (player (acked i (pk_seq packet) s) j)"
      using assms s1 s1(4) [of j] \<open>j < 4\<close> by (cases "j = i") (simp_all add: acked_def s2_def seat_def)
  qed (use s1 in \<open>simp add: s2_def\<close>)
  then have "stays (acked i (pk_seq packet) s) s3"
    unfolding s3_def by (intro stays_update) (simp_all add: seat_def occupied_def)
  then show ?thesis
    unfolding run_command_def Let_def case_prod_beta
    using assms(2) by (simp add: stays_command_done flip: s1_def s2_def s3_def)
qed

section \<open>Settings of the room\<close>

definition settings :: "Server \<Rightarrow> u8 \<times> u8 \<times> u8" where
  "settings s = (s_expected s, s_track s, s_league s)"

context acts_as
begin

lemma settings_act [simp]: "settings (act s) = settings (upd s)"
  by (simp add: settings_def)

end

lemma settings_updates [simp]:
  "settings (s\<lparr>s_players := v0\<rparr>) = settings s" "settings (s\<lparr>s_host := v1\<rparr>) = settings s"
  "settings (s\<lparr>s_start := v2\<rparr>) = settings s" "settings (s\<lparr>s_race := v3\<rparr>) = settings s"
  "settings (s\<lparr>s_phase := v4\<rparr>) = settings s" "settings (s\<lparr>s_closed := v5\<rparr>) = settings s"
  "settings (s\<lparr>s_rx := v6\<rparr>) = settings s" "settings (s\<lparr>s_stale := v7\<rparr>) = settings s"
  by (simp_all add: settings_def)

lemma settings_phases [simp]:
  "settings (departed i s) = settings s" "settings (to_loading s) = settings s"
  "settings (to_countdown now s) = settings s" "settings (to_race now s) = settings s"
  "settings (to_results s) = settings s"
  by (simp_all add: departed_def Let_def barrier_defs)

lemma settings_timeouts [simp]: "settings (timeouts now s) = settings s"
  by (simp add: timeouts_def upt_4)

lemma settings_advance [simp]: "settings (advance now s) = settings s"
  by (simp add: advance_def Let_def)

lemma settings_join_slot [simp]: "settings (join_slot i a n s) = settings s"
  by (simp add: join_slot_def Let_def case_prod_beta)

lemma settings_hello [simp]: "settings (receive_hello packet a s) = settings s"
  by (simp add: receive_hello_def Let_def split: option.split)

lemma settings_pong [simp]: "settings (receive_pong i s) = settings s"
  by (simp add: receive_pong_def Let_def case_prod_beta)

lemma settings_ping [simp]: "settings (receive_ping i packet s) = settings s"
  by (simp add: receive_ping_def Let_def case_prod_beta)

lemma settings_state [simp]: "settings (receive_state i packet sz s) = settings s"
  by (simp add: receive_state_def Let_def case_prod_beta)

lemma settings_command_done [simp]: "settings (command_done i c q s) = settings s"
  by (simp add: command_done_def Let_def)

lemma settings_apply:
  assumes "settings (snd (apply_command i packet s)) \<noteq> settings s"
  shows "i = unat (s_host s) \<and> s_phase s = FZ_LOBBY \<and> pk_payload packet ! 0 = FZ_CONFIG
    \<and> settings (snd (apply_command i packet s))
      = (pk_payload packet ! 1, pk_payload packet ! 2, pk_payload packet ! 3)"
  using assms by (auto simp: apply_command_def Let_def case_prod_beta settings_def split: if_splits)

lemma settings_run [simp]:
  "settings (run_command i packet s) = settings (snd (apply_command i packet s))"
  by (simp add: run_command_def Let_def case_prod_beta)

section \<open>Timeouts and the phase\<close>

text \<open>While somebody stays, timeouts leave the phase, the race, the start time and the players who stay.\<close>

lemma departed_room:
  assumes "length (s_players s) = 4" and "i < 4" and "j < 4" and "occupied (player (departed i s) j)"
  shows "s_phase (departed i s) = s_phase s \<and> s_race (departed i s) = s_race s \<and> s_start (departed i s) = s_start s
    \<and> s_expected (departed i s) = s_expected s"
proof -
  have "0 < count (departed i s)" using assms by (intro count_pos [of j])
  then show ?thesis
    using assms(1) by (auto simp: departed_def Let_def count_each split: if_splits)
qed

lemma timeouts_room_upto:
  fixes now :: u64
  assumes "length (s_players s) = 4" and "n \<le> 4" and "j < 4"
    and "occupied (player (fold (\<lambda>i s. if occupied (player s i) \<and> now - p_seen (player s i) \<ge> 5000000
                then drop_player i ''heartbeat_timeout'' s else s) [0..<n] s) j)"
  defines "t \<equiv> fold (\<lambda>i s. if occupied (player s i) \<and> now - p_seen (player s i) \<ge> 5000000
                then drop_player i ''heartbeat_timeout'' s else s) [0..<n] s"
  shows "length (s_players t) = 4 \<and> s_phase t = s_phase s \<and> s_race t = s_race s \<and> s_start t = s_start s
    \<and> s_expected t = s_expected s"
  using assms(2,4) unfolding t_def
proof (induction n)
  case (Suc n)
  define u where "u = fold (\<lambda>i s. if occupied (player s i) \<and> now - p_seen (player s i) \<ge> 5000000
                then drop_player i ''heartbeat_timeout'' s else s) [0..<n] s"
  have len: "length (s_players u) = 4"
    using timeouts_upto [OF assms(1), of n now] Suc.prems by (simp add: u_def)
  have occ: "occupied (player u j)"
  proof (cases "occupied (player u n) \<and> now - p_seen (player u n) \<ge> 5000000")
    case True
    with Suc.prems have "occupied (player (departed n u) j)" by (simp add: u_def)
    moreover have "n < 4" using Suc.prems by simp
    ultimately show ?thesis
      using departed_self [OF len] departed_other [OF len _ assms(3)]
      by (metis (full_types))
  next
    case False
    with Suc.prems show ?thesis by (auto simp flip: u_def split: if_splits)
  qed
  have IH: "s_phase u = s_phase s" "s_race u = s_race s" "s_start u = s_start s" "s_expected u = s_expected s"
    using Suc occ by (simp_all add: u_def)
  show ?case
    using Suc.prems IH len departed_room [OF len, of n j] assms(3)
    by (auto simp: u_def [symmetric] split: if_splits)
qed (use assms(1) in simp)

lemma timeouts_room:
  assumes "length (s_players s) = 4" and "j < 4" and "occupied (player (timeouts now s) j)"
  shows "length (s_players (timeouts now s)) = 4 \<and> s_phase (timeouts now s) = s_phase s
    \<and> s_race (timeouts now s) = s_race s \<and> s_start (timeouts now s) = s_start s
    \<and> s_expected (timeouts now s) = s_expected s"
  using timeouts_room_upto [OF assms(1), of 4 j now] assms(2,3) unfolding timeouts_def by simp

lemma timeouts_players:
  assumes "length (s_players s) = 4" and "j < 4"
  shows "length (s_players (timeouts now s)) = 4"
    and "if occupied (player s j) \<and> \<not> now - p_seen (player s j) \<ge> 5000000 then player (timeouts now s) j = player s j
         else \<not> occupied (player (timeouts now s) j)"
  using timeouts_upto [OF assms(1), of 4 now] assms(2) by (auto simp: timeouts_def split: if_splits)

end
