(* ===== verification/Fz_Server_Sample.thy ===== *)
theory Fz_Server_Sample
  imports Fz_Server_Time
begin

text \<open>
  A sample run on which the hypotheses of the theorems on servers are discharged: a two-player room
  is created, and a first player joins it.
\<close>

definition sample_io :: io where
  "sample_io = \<lparr>io_clock = \<lambda>_. 7, io_readings = 0, io_entropy = \<lambda>_. Some 42, io_draws = 0,
     io_send_ok = \<lambda>_. True, io_sent = [], io_waits = []\<rparr>"

definition sample_config :: fz_server_config where
  "sample_config = \<lparr>c_bind_address = Some ''0.0.0.0'', c_room_key = Some [], c_port = 12000,
     c_players = 2, c_track = 0, c_league = 0, c_log_level = - 1, c_trace_player = - 1,
     c_owner_nonce = 0\<rparr>"

definition sample_os :: os_setup where
  "sample_os = \<lparr>os_alloc = True, os_socket = 3, os_bind = True, os_nonblock = True, os_strerror = []\<rparr>"

definition sample_server :: Server where
  "sample_server = (new_server sample_config (sample_io\<lparr>io_readings := 1, io_draws := 1\<rparr>))
     \<lparr>s_session := 42, s_socket := 3, s_tick := 7, s_summary := 7, s_phase_since := 7\<rparr>"

lemma sample_create: "fz_server_create (Some sample_config) 0 sample_os sample_io = Inr sample_server"
  by (simp add: fz_server_create_def sample_config_def valid_config_def sample_os_def sample_io_def
      random_id_def now_us_def new_server_def sample_server_def inet_pton_def Let_def log_event_def)

lemma sample_reachable: "reachable sample_io sample_server"
  by (rule reachable.created [OF sample_create])

lemma sample_inv: "server_inv sample_server"
  by (rule room.I_reachable [OF sample_reachable])

definition sample_address :: sockaddr_in where
  "sample_address = \<lparr>sin_addr = 0x7F000001, sin_port = 4000\<rparr>"

definition sample_hello :: fz_packet where
  "sample_hello = zero_packet\<lparr>pk_type := FZ_HELLO, pk_length := 9, pk_payload := fill (fz_put64 5 @ [0])\<rparr>"

definition sample_hello_data :: bytes where
  "sample_hello_data = fz_encode FZ_MAX_PACKET sample_hello"

lemma canonical_hello: "canonical sample_hello"
  by (simp add: canonical_def sample_hello_def)

lemma hello_payload:
  "fz_u64 (fill (fz_put64 v @ r)) = v" "fill (fz_put64 v @ (k # r)) ! 8 = k"
  "drop 9 (fill (fz_put64 v @ (k # r))) = r @ replicate (211 - length r) 0"
  by (simp_all add: fill_def nth_append)

lemma sample_hello_data [simp]:
  "fz_decode sample_hello_data = Some sample_hello" "take 257 sample_hello_data = sample_hello_data"
  using length_encode [OF canonical_hello]
  by (simp_all add: sample_hello_data_def decode_encode canonical_hello) (simp add: sample_hello_def)

definition sample_player :: Player where
  "sample_player = zero_player\<lparr>p_address := sample_address, p_token := 42, p_nonce := 5, p_seen := 7,
     p_status := FZ_JOINED\<rparr>"

definition sample_env :: poll_env where
  "sample_env = \<lparr>pe_poll_error = None, pe_recv = [Datagram sample_hello_data sample_address]\<rparr>"

definition sample_joined :: Server where
  "sample_joined = snd (fz_server_poll 0 sample_env sample_server)"

lemma joined_reachable: "reachable sample_io sample_joined"
  unfolding sample_joined_def by (rule reachable.polled [OF sample_reachable])

lemma joined_inv: "server_inv sample_joined"
  by (rule room.I_reachable [OF joined_reachable])

lemma receive_one: "\<not> s_closed s \<Longrightarrow> receive_loop 128 [Datagram b a] s = (True, receive_packet (take 257 b) a s)"
  using receive_loop.simps(2) [of 127 "[Datagram b a]" s] receive_loop.simps(2) [of 126 "[]"]
  by simp

lemma vacant_players: "\<not> occupied zero_player" "replicate 4 zero_player = [zero_player, zero_player, zero_player, zero_player]"
  by (simp_all add: occupied_def zero_player_def numeral_eq_Suc)

lemma sample_join:
  assumes "s_players s = replicate 4 zero_player" "s_phase s = FZ_LOBBY" "s_expected s = 2" "s_key s = []"
    "s_owner_nonce s = 0 \<or> s_owner_nonce s = 5" "\<not> s_closed s" "s_host s = 255" "io_clock (s_io s) = (\<lambda>_. 7)"
    "io_entropy (s_io s) = (\<lambda>_. Some 42)"
  defines "t \<equiv> receive_packet sample_hello_data sample_address s"
  shows "s_players t = [sample_player, zero_player, zero_player, zero_player]" "s_host t = 0"
    "s_phase t = FZ_LOBBY" "s_expected t = 2" "\<not> s_closed t"
  unfolding t_def
  by (rule disjE [OF assms(5)]; simp add: assms(1-4,6-9) receive_packet_def receive_hello_def
      sample_hello_def hello_payload Let_def vacant_players upt_4 count_players_def join_slot_def
      case_prod_beta random_id_def now_us_def sample_player_def)+

text \<open>The same with or without an owner, if the player who joins is the owner.\<close>

lemma first_joined:
  fixes n :: u64
  assumes "n = 0 \<or> n = 5"
  defines "s0 \<equiv> sample_server\<lparr>s_owner_nonce := n\<rparr>"
  defines "j \<equiv> snd (fz_server_poll 0 sample_env s0)"
  shows "s_players j = [sample_player, zero_player, zero_player, zero_player]"
    "s_host j = 0" "s_phase j = FZ_LOBBY" "s_expected j = 2"
    "\<not> s_closed j" "s_owner_nonce j = n" "s_session j = 42"
proof -
  define s1 where "s1 = poll_wait (poll_timeout 0 7 7) (snd (now_us s0))"
  define s2 where "s2 = snd (now_us (receive_packet sample_hello_data sample_address s1))"
  have s1: "s_players s1 = replicate 4 zero_player" "s_phase s1 = FZ_LOBBY" "s_expected s1 = 2" "s_key s1 = []"
    "s_owner_nonce s1 = 0 \<or> s_owner_nonce s1 = 5" "\<not> s_closed s1" "s_host s1 = 255" "io_clock (s_io s1) = (\<lambda>_. 7)"
    "io_entropy (s_io s1) = (\<lambda>_. Some 42)" "s_tick s1 = 7" "s_summary s1 = 7" "s_session s1 = 42"
    "s_owner_nonce s1 = n"
    using assms(1) by (simp_all add: s0_def s1_def poll_wait_def now_us_def sample_server_def new_server_def sample_config_def sample_io_def)
  note s2 = sample_join [OF s1(1-9)]
  have setup2: "setup_of s2 = setup_of s1" by (simp add: s2_def)
  then have "s_tick s2 = 7" "s_summary s2 = 7" "s_owner_nonce s2 = n" "s_session s2 = 42"
    using s1 by (simp_all add: setup_of_def)
  have occ: "occupied sample_player" "p_seen sample_player = 7" by (simp_all add: occupied_def sample_player_def)
  have p2: "s_players s2 = [sample_player, zero_player, zero_player, zero_player]" "s_host s2 = 0"
    "s_phase s2 = FZ_LOBBY" "s_expected s2 = 2" "\<not> s_closed s2"
    using s2 by (simp_all add: s2_def)
  have adv: "advance 7 s2 = s2"
    using p2 occ by (simp add: advance_def timeouts_def upt_4 vacant_players start_loading_def count_players_def
        start_countdown_def start_race_def end_race_def)
  have r: "receive_loop 128 [Datagram sample_hello_data sample_address] s1
      = (True, receive_packet sample_hello_data sample_address s1)"
    using s1 by (simp add: receive_one)
  have fresh: "\<not> s_closed s0" "s_tick s0 = 7" "fst (now_us s0) = 7"
    by (simp_all add: s0_def sample_server_def new_server_def sample_io_def now_us_def)
  have "fst (now_us (receive_packet sample_hello_data sample_address s1)) = 7"
    by (simp add: fst_now_us s1)
  then have "j = poll_summary 7 (poll_tick 7 s2)"
    unfolding j_def fz_server_poll_def
    by (simp add: fresh sample_env_def Let_def case_prod_beta r s2_def flip: s1_def)
  also have "\<dots> = (snapshot s2)\<lparr>s_tick := 7 + 16667\<rparr>"
    using \<open>s_tick s2 = 7\<close> \<open>s_summary s2 = 7\<close> p2 by (simp add: poll_summary_def poll_tick_def adv)
  finally have eq: "j = (snapshot s2)\<lparr>s_tick := 7 + 16667\<rparr>" .
  show "s_players j = [sample_player, zero_player, zero_player, zero_player]"
    "s_host j = 0" "s_phase j = FZ_LOBBY" "s_expected j = 2"
    "\<not> s_closed j" "s_owner_nonce j = n" "s_session j = 42"
    using p2 \<open>s_owner_nonce s2 = n\<close> \<open>s_session s2 = 42\<close> unfolding eq by simp_all
qed

lemma sample_joined:
  "s_players sample_joined = [sample_player, zero_player, zero_player, zero_player]"
  "s_host sample_joined = 0" "s_phase sample_joined = FZ_LOBBY" "s_expected sample_joined = 2"
  "\<not> s_closed sample_joined" "s_owner_nonce sample_joined = 0" "s_session sample_joined = 42"
proof -
  have "sample_server\<lparr>s_owner_nonce := 0\<rparr> = sample_server"
    by (simp add: sample_server_def new_server_def sample_config_def)
  then show "s_players sample_joined = [sample_player, zero_player, zero_player, zero_player]"
    "s_host sample_joined = 0" "s_phase sample_joined = FZ_LOBBY" "s_expected sample_joined = 2"
    "\<not> s_closed sample_joined" "s_owner_nonce sample_joined = 0" "s_session sample_joined = 42"
    using first_joined [of 0] by (simp_all add: sample_joined_def)
qed

text \<open>A room whose owner has joined.\<close>

definition sample_hosted :: Server where
  "sample_hosted = snd (fz_server_poll 0 sample_env (sample_server\<lparr>s_owner_nonce := 5\<rparr>))"

lemma hosted_reachable: "reachable sample_io sample_hosted"
proof -
  have "fz_server_create (Some (sample_config\<lparr>c_owner_nonce := 5\<rparr>)) 0 sample_os sample_io
      = Inr (sample_server\<lparr>s_owner_nonce := 5\<rparr>)"
    by (simp add: fz_server_create_def sample_config_def valid_config_def sample_os_def sample_io_def
        random_id_def now_us_def new_server_def sample_server_def inet_pton_def Let_def log_event_def)
  then show ?thesis unfolding sample_hosted_def by (intro reachable.polled reachable.created)
qed

lemmas sample_hosted = first_joined [of 5, folded sample_hosted_def, simplified]

theorem heartbeat_exact_witness:
  "occupied (player (advance (fst (now_us sample_joined)) (snd (now_us sample_joined))) 0)"
proof -
  have "io_clock (s_io sample_joined) = (\<lambda>_. 7)"
    using same_clock.I_reachable [OF joined_reachable] by (simp add: sample_io_def)
  then have "fst (now_us sample_joined) = 7" by (simp add: fst_now_us)
  then show ?thesis
    using heartbeat_exact [OF joined_reachable, of 0]
    by (simp add: sample_joined) (simp add: sample_io_def sample_player_def occupied_def)
qed

end
