(* ===== verification/Fz_Server_Props.thy ===== *)
theory Fz_Server_Props
  imports Fz_Server_Steps Fz_Server_Sample
begin

text \<open>
  The promises of the race server: what holds in every run, and what each kind of packet does.
\<close>

section \<open>Every run\<close>

text \<open>
  C1. In every state a server can be brought to, the room is consistent: four
  slots with known states and machines; every player present has a token, and no two share an endpoint;
  phase, number of players, track and league are in range and no more players are present than the room
  expects; while the room is open the host is present (and there is none exactly when nobody is), every
  player's state is one the phase allows, and the first seat of a hosted room belongs to its owner. The
  event log is well formed.
\<close>

theorem room_always_consistent:
  "reachable w s \<Longrightarrow> server_inv s \<and> log_ok s"
  using room.I_reachable logging.I_reachable by blast

theorem room_always_consistent_witness:
  "server_inv sample_joined \<and> count sample_joined = 1"
  using room_always_consistent [OF joined_reachable]
  by (simp add: sample_joined count_players_def upt_4 vacant_players)
    (simp add: sample_player_def occupied_def)

section \<open>Unauthenticated packets\<close>

text \<open>
  C31. A packet other than HELLO whose session, token or endpoint is not that of a
  player present changes nothing but the counters of received and rejected packets, and is not
  answered.
\<close>

theorem spoofed_packet_inert:
  assumes "fz_decode b = Some packet" and "pk_type packet \<noteq> FZ_HELLO" and "\<not> s_closed s"
    and "\<And>i. i < 4 \<Longrightarrow> occupied (player s i) \<Longrightarrow> pk_session packet = s_session s
      \<Longrightarrow> pk_token packet = p_token (player s i) \<Longrightarrow> \<not> same_address address (p_address (player s i))"
  shows "receive_packet b address s = s\<lparr>s_rx := s_rx s + 1, s_rejected := s_rejected s + 1\<rparr>"
proof -
  have "authenticate packet address (s\<lparr>s_rx := s_rx s + 1\<rparr>) = None"
    using assms(4) by (auto simp: authenticate_def find_None_upt)
  with assms(1-3) show ?thesis
    by (simp add: receive_packet_def reject_def Let_def)
qed

section \<open>Commands\<close>

lemma receive_command_packet:
  assumes "fz_decode b = Some packet" and "pk_type packet = FZ_COMMAND" and "\<not> s_closed s"
  shows "receive_packet b a s =
    (case authenticate packet a s of None \<Rightarrow> reject (s\<lparr>s_rx := s_rx s + 1\<rparr>)
     | Some i \<Rightarrow> if pk_race packet \<noteq> s_race s then s\<lparr>s_rx := s_rx s + 1, s_stale := s_stale s + 1\<rparr>
         else receive_command i packet (s\<lparr>s_rx := s_rx s + 1\<rparr>))"
proof -
  have "authenticate packet a (s\<lparr>s_rx := s_rx s + 1\<rparr>) = authenticate packet a s"
    by (simp add: authenticate_def)
  with assms show ?thesis
    by (simp add: receive_packet_def receive_player_def Let_def split: option.split)
qed

lemma stays_acked_seats:
  assumes "stays (acked i q s) t" and "length (s_players s) = 4" and "i < 4" and "j < 4"
    and "occupied (player t j)"
  shows "occupied (player s j)" and "p_address (player t j) = p_address (player s j)"
    and "j = i \<Longrightarrow> p_command_seq (player t j) = q"
  using staysD [OF assms(1,4,5)] assms(2-4)
  by (cases "j = i"; simp add: acked_def seat_def occupied_def)+

text \<open>A datagram of the player in seat \<open>i\<close> authenticates in no other seat once it was handled.\<close>

lemma authenticate_same_seat:
  assumes "server_inv s" and "stays (acked i q s) t" and "authenticate packet a s = Some i"
    and "authenticate packet a t = Some j"
  shows "j = i"
proof -
  have i: "i < 4" "occupied (player s i)" "same_address a (p_address (player s i))"
    using assms(3) by (simp_all add: authenticate_def find_Some_least)
  have j: "j < 4" "occupied (player t j)" "same_address a (p_address (player t j))"
    using assms(4) by (simp_all add: authenticate_def find_Some_least)
  have len: "length (s_players s) = 4" using assms(1) by (simp add: server_inv_def slots_ok_def)
  note js = stays_acked_seats(1,2) [OF assms(2) len i(1) j(1,2)]
  have "same_address (p_address (player s i)) (p_address (player s j))"
    using i(3) j(3) js(2) by (simp add: same_address_def)
  with assms(1) i j js(1) show ?thesis by (auto simp: server_inv_def seats_ok_def)
qed

text \<open>A command that cannot run any more in a state.\<close>

definition spent :: "fz_packet \<Rightarrow> sockaddr_in \<Rightarrow> Server \<Rightarrow> bool" where
  "spent packet a s \<longleftrightarrow> (\<forall>i. authenticate packet a s = Some i \<and> pk_race packet = s_race s
     \<and> \<not> pk_length packet < 1 \<longrightarrow> pk_seq packet \<noteq> p_command_seq (player s i) + 1)"

lemma authenticate_game: "game s = game t \<Longrightarrow> authenticate packet a s = authenticate packet a t"
  and spent_game: "game s = game t \<Longrightarrow> spent packet a s = spent packet a t"
proof -
  assume g: "game s = game t"
  note game_eqD(2-4) [OF g]
  then show "authenticate packet a s = authenticate packet a t" "spent packet a s = spent packet a t"
    by (simp_all add: authenticate_def spent_def)
qed

lemma spent_inert:
  assumes b: "fz_decode b = Some packet" "pk_type packet = FZ_COMMAND"
    and "s_closed s \<or> spent packet a s"
  shows "game (receive_packet b a s) = game s \<and> io_sent (s_io (receive_packet b a s)) = io_sent (s_io s)"
proof (cases "s_closed s")
  case True
  with b show ?thesis by (simp add: receive_packet_def)
next
  case False
  with assms show ?thesis
    using receive_command_packet [OF b False, of a]
    by (auto simp: receive_command_def reject_def spent_def split: option.split)
qed

lemma receive_command_spends:
  assumes inv: "server_inv s" and i: "authenticate packet a s = Some i"
  shows "spent packet a (snapshot (advance now (snd (now_us (run_command i packet s)))))" (is "spent _ _ ?t")
  unfolding spent_def
proof (intro allI impI, elim conjE)
  fix j
  assume j: "authenticate packet a ?t = Some j"
  have len: "length (s_players s) = 4" using inv by (simp add: server_inv_def slots_ok_def)
  have occ: "i < 4" "occupied (player s i)" using authenticate_Some [OF i] by simp_all
  have st: "stays (acked i (pk_seq packet) s) ?t"
    using run_command_stays [OF len occ] by simp
  have ij: "j = i" by (rule authenticate_same_seat [OF inv st i j])
  have "p_command_seq (player ?t i) = pk_seq packet"
    using stays_acked_seats(3) [OF st len occ(1), of i] authenticate_Some [OF j] ij occ(1) by simp
  with ij show "pk_seq packet \<noteq> p_command_seq (player ?t j) + 1" by simp
qed

lemma receive_packet_spends:
  assumes inv: "server_inv s" and b: "fz_decode b = Some packet" "pk_type packet = FZ_COMMAND"
  shows "s_closed s \<or> spent packet a (receive_packet b a s)"
proof (cases "s_closed s")
  case False
  let ?s = "s\<lparr>s_rx := s_rx s + 1\<rparr>"
  show ?thesis
  proof (cases "spent packet a s")
    case True
    then have "game (receive_packet b a s) = game s" using spent_inert [OF b] by blast
    with True show ?thesis using spent_game by blast
  next
    case notspent: False
    then obtain i where i: "authenticate packet a s = Some i" "pk_race packet = s_race s"
        "\<not> pk_length packet < 1" "pk_seq packet = p_command_seq (player s i) + 1"
      by (auto simp: spent_def)
    have "receive_packet b a s = snapshot (advance (fst (now_us (run_command i packet ?s)))
        (snd (now_us (run_command i packet ?s))))"
      using i b receive_command_packet [OF b False, of a]
      by (simp add: receive_command_def Let_def case_prod_beta newer_Suc)
    moreover have "server_inv ?s" "authenticate packet a ?s = Some i"
      using inv i by (simp_all add: authenticate_def)
    ultimately show ?thesis
      using receive_command_spends by metis
  qed
qed simp

text \<open>
  C2. Commands take effect at most once: receiving a COMMAND datagram a second time
  right after the first leaves the whole state of the game, and the datagrams sent, as the first left
  them, whatever the command, its number, its sender and the state of the room.
\<close>

theorem command_exactly_once:
  assumes "server_inv s" and "fz_decode b = Some packet" and "pk_type packet = FZ_COMMAND"
  shows "game (receive_packet b a (receive_packet b a s)) = game (receive_packet b a s)
    \<and> io_sent (s_io (receive_packet b a (receive_packet b a s))) = io_sent (s_io (receive_packet b a s))"
proof (rule spent_inert [OF assms(2,3)])
  show "s_closed (receive_packet b a s) \<or> spent packet a (receive_packet b a s)"
    using receive_packet_spends [OF assms] assms(2) by (auto simp: receive_packet_def)
qed

lemma command_answered:
  assumes "server_inv s" and "fz_decode b = Some packet" and "pk_type packet = FZ_COMMAND"
    and "\<not> s_closed s" and "authenticate packet a s = Some i" and "pk_race packet = s_race s"
    and "\<not> pk_length packet < 1" and "pk_seq packet = p_command_seq (player s i) + 1"
  shows "\<exists>u. receive_packet b a s = snapshot u
    \<and> (occupied (player (receive_packet b a s) i) \<longrightarrow> p_command_seq (player (receive_packet b a s) i) = pk_seq packet)"
proof -
  let ?s = "s\<lparr>s_rx := s_rx s + 1\<rparr>"
  have len: "length (s_players ?s) = 4" using assms(1) by (simp add: server_inv_def slots_ok_def)
  have occ: "i < 4" "occupied (player ?s i)" using authenticate_Some [OF assms(5)] by simp_all
  have t: "receive_packet b a s = snapshot (advance (fst (now_us (run_command i packet ?s)))
      (snd (now_us (run_command i packet ?s))))"
    using assms receive_command_packet [OF assms(2-4), of a]
    by (simp add: receive_command_def Let_def case_prod_beta newer_Suc)
  have "stays (acked i (pk_seq packet) ?s) (receive_packet b a s)"
    unfolding t using run_command_stays [OF len occ] by simp
  from stays_acked_seats(3) [OF this len occ(1,1)] t show ?thesis by auto
qed

text \<open>
  C30. A command of the running race that is next in its sender's sequence is
  always acknowledged, even when its phase has passed and it is refused: whenever the sender is still
  present afterwards, the acknowledged number is the command's, so the stream of commands cannot block.
\<close>

theorem command_acknowledged:
  assumes "server_inv s" and "fz_decode b = Some packet" and "pk_type packet = FZ_COMMAND"
    and "\<not> s_closed s" and "authenticate packet a s = Some i" and "pk_race packet = s_race s"
    and "\<not> pk_length packet < 1" and "pk_seq packet = p_command_seq (player s i) + 1"
    and "occupied (player (receive_packet b a s) i)"
  shows "p_command_seq (player (receive_packet b a s) i) = pk_seq packet"
  using command_answered [OF assms(1-8)] assms(9) by blast

section \<open>Movement\<close>

text \<open>A movement packet the server acts on.\<close>

definition moves :: "nat \<Rightarrow> fz_packet \<Rightarrow> Server \<Rightarrow> bool" where
  "moves i packet s \<longleftrightarrow> pk_race packet = s_race s \<and> pk_length packet = 5 \<and> s_phase s = FZ_RACING
     \<and> p_status (player s i) = FZ_PLAYER_RACING \<and> fz_newer (pk_seq packet) (p_state_seq (player s i))"

lemma receive_state_packet:
  assumes "fz_decode b = Some packet" and "pk_type packet = FZ_STATE" and "\<not> s_closed s"
    and "authenticate packet a s = Some i"
  shows "receive_packet b a s =
    (if pk_race packet \<noteq> s_race s then s\<lparr>s_rx := s_rx s + 1, s_stale := s_stale s + 1\<rparr>
     else receive_state i packet (length b) (s\<lparr>s_rx := s_rx s + 1\<rparr>))"
proof -
  have "authenticate packet a (s\<lparr>s_rx := s_rx s + 1\<rparr>) = authenticate packet a s"
    by (simp add: authenticate_def)
  with assms show ?thesis
    by (simp add: receive_packet_def receive_player_def Let_def)
qed

text \<open>
  C32. A movement packet of a player present moves that player and nobody else, and only
  when it belongs to the running race, has the right length, the player is still racing and the packet
  is newer than the last one accepted; otherwise no player changes. It never changes the phase, nor the
  player's state: a player who has finished is not brought back.
\<close>

theorem movement_filter:
  assumes "fz_decode b = Some packet" and "pk_type packet = FZ_STATE" and "\<not> s_closed s"
    and "authenticate packet a s = Some i" and "length (s_players s) = 4"
  shows "s_phase (receive_packet b a s) = s_phase s
    \<and> (if moves i packet s
       then \<exists>t. s_players (receive_packet b a s) = (s_players s)[i := (player s i)
              \<lparr>p_state_seq := pk_seq packet, p_x := fz_u16 (pk_payload packet),
               p_y := fz_u16 (drop 2 (pk_payload packet)), p_orientation := pk_payload packet ! 4,
               p_updated := t, p_seen := t, p_packets := p_packets (player s i) + 1,
               p_bytes := p_bytes (player s i) + of_nat (length b)\<rparr>]
       else s_players (receive_packet b a s) = s_players s)"
  using authenticate_Some [OF assms(4)] assms(5)
  by (auto simp: receive_state_packet [OF assms(1-4)] moves_def receive_state_def Let_def case_prod_beta)

lemma authenticate_cong:
  assumes "s_session t = s_session s"
    and "\<And>j. j < 4 \<Longrightarrow> occupied (player t j) = occupied (player s j)
      \<and> p_token (player t j) = p_token (player s j) \<and> p_address (player t j) = p_address (player s j)"
  shows "authenticate packet a t = authenticate packet a s"
  unfolding authenticate_def using assms by (intro find_cong) auto

text \<open>A player \<open>i\<close> in a race whose movement packets from \<open>a\<close> are the ones in \<open>P\<close>.\<close>

definition racing_with :: "nat \<Rightarrow> sockaddr_in \<Rightarrow> fz_packet set \<Rightarrow> Server \<Rightarrow> bool" where
  "racing_with i a P s \<longleftrightarrow> length (s_players s) = 4 \<and> \<not> s_closed s \<and> s_phase s = FZ_RACING
     \<and> p_status (player s i) = FZ_PLAYER_RACING
     \<and> (\<forall>p\<in>P. pk_type p = FZ_STATE \<and> pk_length p = 5 \<and> pk_race p = s_race s
          \<and> authenticate p a s = Some i)"

lemma racing_receive:
  assumes r: "racing_with i a P s" and p: "p \<in> P" and b: "fz_decode b = Some p"
  defines "newer \<equiv> fz_newer (pk_seq p) (p_state_seq (player s i))"
  shows "racing_with i a P (receive_packet b a s)"
    and "p_state_seq (player (receive_packet b a s) i) = (if newer then pk_seq p else p_state_seq (player s i))"
    and "p_x (player (receive_packet b a s) i) = (if newer then fz_u16 (pk_payload p) else p_x (player s i))"
    and "p_y (player (receive_packet b a s) i) = (if newer then fz_u16 (drop 2 (pk_payload p)) else p_y (player s i))"
    and "p_orientation (player (receive_packet b a s) i) = (if newer then pk_payload p ! 4 else p_orientation (player s i))"
proof -
  have i: "i < 4" "authenticate p a s = Some i" using r p by (auto simp: racing_with_def dest: authenticate_Some)
  have eq: "receive_packet b a s = receive_state i p (length b) (s\<lparr>s_rx := s_rx s + 1\<rparr>)"
    using r p b i by (subst receive_state_packet [OF b]) (auto simp: racing_with_def)
  have keep: "authenticate q a (receive_packet b a s) = authenticate q a s" for q
    using r p i unfolding eq
    by (intro authenticate_cong)
      (auto simp: racing_with_def receive_state_def Let_def case_prod_beta nth_list_update occupied_def)
  show "racing_with i a P (receive_packet b a s)"
    using r p i keep unfolding eq
    by (simp add: racing_with_def receive_state_def Let_def case_prod_beta)
  show "p_state_seq (player (receive_packet b a s) i) = (if newer then pk_seq p else p_state_seq (player s i))"
    "p_x (player (receive_packet b a s) i) = (if newer then fz_u16 (pk_payload p) else p_x (player s i))"
    "p_y (player (receive_packet b a s) i) = (if newer then fz_u16 (drop 2 (pk_payload p)) else p_y (player s i))"
    "p_orientation (player (receive_packet b a s) i) = (if newer then pk_payload p ! 4 else p_orientation (player s i))"
    using r p i unfolding eq newer_def
    by (simp_all add: racing_with_def receive_state_def Let_def case_prod_beta)
qed

text \<open>Player \<open>i\<close> is where the movement packet at position \<open>k\<close> put it; position 0 is the start.\<close>

definition moved_to :: "u32 \<Rightarrow> (nat \<Rightarrow> fz_packet) \<Rightarrow> nat \<Rightarrow> nat \<Rightarrow> Server \<Rightarrow> bool" where
  "moved_to base P i k s \<longleftrightarrow> p_state_seq (player s i) = base + of_nat k
     \<and> (0 < k \<longrightarrow> p_x (player s i) = fz_u16 (pk_payload (P k))
          \<and> p_y (player s i) = fz_u16 (drop 2 (pk_payload (P k)))
          \<and> p_orientation (player s i) = pk_payload (P k) ! 4)"

lemma moved_to_receive:
  assumes "racing_with i a Q s" and "P n \<in> Q" and "fz_decode b = Some (P n)"
    and "moved_to base P i k s" and "pk_seq (P n) = base + of_nat n" and "n < 2 ^ 31" and "k < 2 ^ 31"
  shows "racing_with i a Q (receive_packet b a s) \<and> moved_to base P i (max k n) (receive_packet b a s)"
proof -
  have "fz_newer (pk_seq (P n)) (p_state_seq (player s i)) \<longleftrightarrow> k < n"
    using newer_positions [of n k base] assms(4-7) by (simp add: moved_to_def)
  then show ?thesis
    using racing_receive [OF assms(1-3)] assms(4,5) by (simp add: moved_to_def max_def)
qed

lemma Max_snoc: "Max (insert 0 (set (ks @ [n]))) = max (Max (insert 0 (set ks))) (n :: nat)"
proof -
  have "insert 0 (set (ks @ [n])) = insert n (insert 0 (set ks))" by auto
  then show ?thesis by (metis Max_insert List.finite_set finite_insert insert_not_empty max.commute)
qed

lemma moved_to_newest:
  assumes "racing_with i a (P ` set ns) s" and "\<And>n. n \<in> set ns \<Longrightarrow> fz_decode (d n) = Some (P n)"
    and seq: "\<And>n. n \<in> set ns \<Longrightarrow> pk_seq (P n) = p_state_seq (player s i) + of_nat n \<and> n < 2 ^ 31"
  shows "set ks \<subseteq> set ns \<Longrightarrow> racing_with i a (P ` set ns) (fold (\<lambda>n. receive_packet (d n) a) ks s)
    \<and> moved_to (p_state_seq (player s i)) P i (Max (insert 0 (set ks))) (fold (\<lambda>n. receive_packet (d n) a) ks s)"
proof (induction ks rule: rev_induct)
  case Nil
  show ?case using assms(1) by (simp add: moved_to_def)
next
  case (snoc n ks)
  have n: "n \<in> set ns" using snoc.prems by simp
  have "Max (insert 0 (set ks)) \<in> insert 0 (set ks)" by (rule Max_in) simp_all
  then have "Max (insert 0 (set ks)) < 2 ^ 31" using snoc.prems seq by auto
  moreover have "P n \<in> P ` set ns" using n by (rule imageI)
  ultimately show ?case
    using moved_to_receive [where P = P and n = n and b = "d n" and Q = "P ` set ns" and k = "Max (insert 0 (set ks))"
        and s = "fold (\<lambda>n. receive_packet (d n) a) ks s" and i = i and a = a
        and base = "p_state_seq (player s i)"] snoc assms(2) [OF n] seq [OF n]
    unfolding Max_snoc by simp
qed

text \<open>
  C6. However the movement packets of a racing player are reordered, duplicated and
  delayed within half the sequence number circle, the server ends with the position of the newest one it
  has received: late and repeated packets never move a player back.
\<close>

theorem newest_movement_wins:
  assumes r: "racing_with i a (P ` set ns) s"
    and dec: "\<And>n. n \<in> set ns \<Longrightarrow> fz_decode (d n) = Some (P n)"
    and seq: "\<And>n. n \<in> set ns \<Longrightarrow> pk_seq (P n) = p_state_seq (player s i) + of_nat n \<and> n < 2 ^ 31"
  defines "t \<equiv> fold (\<lambda>n. receive_packet (d n) a) ns s"
    and "m \<equiv> Max (insert 0 (set ns))"
  shows "p_state_seq (player t i) = p_state_seq (player s i) + of_nat m
    \<and> (0 < m \<longrightarrow> p_x (player t i) = fz_u16 (pk_payload (P m))
        \<and> p_y (player t i) = fz_u16 (drop 2 (pk_payload (P m)))
        \<and> p_orientation (player t i) = pk_payload (P m) ! 4)"
  using moved_to_newest [OF r dec seq, of ns] by (simp add: moved_to_def t_def m_def)

section \<open>Configuration\<close>

text \<open>
  C29. The number of players, the track and the league change only by a CONFIG command
  that the host sends while the room is in the lobby, and then to the values of that command.
\<close>

theorem only_host_configures:
  assumes "settings (receive_packet b a s) \<noteq> settings s"
  shows "\<exists>packet. fz_decode b = Some packet \<and> authenticate packet a s = Some (unat (s_host s))
    \<and> s_phase s = FZ_LOBBY \<and> pk_type packet = FZ_COMMAND \<and> pk_payload packet ! 0 = FZ_CONFIG
    \<and> settings (receive_packet b a s)
      = (pk_payload packet ! 1, pk_payload packet ! 2, pk_payload packet ! 3)"
proof -
  obtain packet where b: "fz_decode b = Some packet"
    using assms by (cases "fz_decode b") (auto simp: receive_packet_def split: if_splits)
  let ?s = "s\<lparr>s_rx := s_rx s + 1\<rparr>"
  have auth: "authenticate packet a ?s = authenticate packet a s" by (simp add: authenticate_def)
  obtain i where i: "authenticate packet a s = Some i"
    and eq: "settings (receive_packet b a s) = settings (receive_player i packet (length b) ?s)"
    using assms b auth
    by (cases "authenticate packet a s") (auto simp: receive_packet_def Let_def split: if_splits)
  have cmd: "pk_type packet = FZ_COMMAND" "settings (receive_player i packet (length b) ?s)
      = settings (snd (apply_command i packet ?s))"
    using assms unfolding eq
    by (auto simp: receive_player_def receive_command_def Let_def case_prod_beta split: if_splits)
  then have "settings (snd (apply_command i packet ?s)) \<noteq> settings ?s"
    using assms eq by simp
  from settings_apply [OF this] show ?thesis
    using b i cmd eq by auto
qed

section \<open>Phases\<close>

text \<open>The four barriers in turn.\<close>

definition barriers :: "u64 \<Rightarrow> Server \<Rightarrow> Server" where
  "barriers now s = to_results (to_race now (to_countdown now (to_loading s)))"

lemma barriers_of_game:
  "to_loading (game s) = game (to_loading s)" "to_countdown now (game s) = game (to_countdown now s)"
  "to_race now (game s) = game (to_race now s)" "to_results (game s) = game (to_results s)"
  by (simp_all add: barrier_defs game_def all_at_least_def all_armed_def)

lemma advance_game:
  assumes "\<not> s_closed (timeouts now s)"
  shows "game (advance now s) = game (barriers now (timeouts now s))"
proof -
  have "game (end_race (start_race now (start_countdown now (start_loading t)))) = game (barriers now t)" for t
    unfolding barriers_def
    by (simp only: end_race_op.game_act start_race_op.game_act start_countdown_op.game_act
        start_loading_op.game_act flip: barriers_of_game)
  with assms show ?thesis by (simp add: advance_def Let_def)
qed

lemma timeouts_none:
  "(\<And>i. i < 4 \<Longrightarrow> occupied (player s i) \<Longrightarrow> \<not> 5000000 \<le> now - p_seen (player s i)) \<Longrightarrow> timeouts now s = s"
  unfolding timeouts_def by (rule fold_fixed) auto

lemma departed_phase:
  "(s_phase (departed i s) = s_phase s \<and> s_start (departed i s) = s_start s) \<or> s_phase (departed i s) = FZ_LOBBY"
  by (simp add: departed_def Let_def)

lemma phase_timeouts:
  "(s_phase (timeouts now s) = s_phase s \<and> s_start (timeouts now s) = s_start s)
     \<or> s_phase (timeouts now s) = FZ_LOBBY"
proof -
  have "(s_phase (fold (\<lambda>i s. if c i s then drop_player i r s else s) xs s) = s_phase s
        \<and> s_start (fold (\<lambda>i s. if c i s then drop_player i r s else s) xs s) = s_start s)
      \<or> s_phase (fold (\<lambda>i s. if c i s then drop_player i r s else s) xs s) = FZ_LOBBY" for c r xs
  proof (induction xs rule: rev_induct)
    case (snoc i xs)
    then show ?case
      using departed_phase [of i "fold (\<lambda>i s. if c i s then drop_player i r s else s) xs s"] by auto
  qed simp
  then show ?thesis unfolding timeouts_def .
qed

text \<open>
  C16. The start of a race is a barrier with acknowledgement: when everybody was heard in
  time, one step of the phase logic in the countdown starts the race exactly when every player present
  has armed the announced start time and that time has come; while somebody has not armed it and it is
  half a second away or less, a new start time two seconds ahead is announced instead; otherwise nothing
  changes.
\<close>

theorem countdown_exact:
  assumes "server_inv s" and "\<not> s_closed s" and "s_phase s = FZ_COUNTDOWN"
    and "\<And>i. i < 4 \<Longrightarrow> occupied (player s i) \<Longrightarrow> now - p_seen (player s i) < 5000000"
  shows "(s_phase (advance now s), s_start (advance now s)) =
    (if \<forall>i<4. occupied (player s i) \<longrightarrow> p_armed (player s i) = s_start s
     then (if s_start s \<le> now then FZ_RACING else FZ_COUNTDOWN, s_start s)
     else (FZ_COUNTDOWN, if s_start s \<le> now + 500000 then now + 2000000 else s_start s))"
proof -
  have t: "timeouts now s = s" by (rule timeouts_none) (use assms(4) in \<open>simp add: not_le\<close>)
  have g: "game (advance now s) = game (barriers now s)"
    using advance_game [of now s] assms(2) by (simp add: t)
  have len: "length (s_players s) = 4" and c: "0 < count s"
    using assms(1-3) by (simp_all add: server_inv_def slots_ok_def stage_ok_def)
  obtain i where i: "i < 4" "occupied (player s i)"
    using c count_0_iff [of "s_players s"] by auto
  have "\<not> all_at_least FZ_FINISHED (s\<lparr>s_phase := FZ_RACING, s_players := each racing_player (s_players s)\<rparr>)"
    using i len by (auto simp: all_at_least_iff nth_each intro!: exI [of _ i])
  then show ?thesis
    using assms(3) unfolding game_eqD(1,5) [OF g]
    by (simp add: barriers_def barrier_defs flip: all_armed_iff)
qed

text \<open>
  C4. No race starts early, whatever else happens in the same step: when a step of the
  phase logic enters the race, the room was in the countdown, its start time has come, and every player
  still present had armed exactly that time.
\<close>

theorem race_start_barrier:
  assumes len: "length (s_players s) = 4" and now: "unat now + 2000000 < 2 ^ 64"
    and before: "s_phase s \<noteq> FZ_RACING" and after: "s_phase (advance now s) = FZ_RACING"
  shows "s_phase s = FZ_COUNTDOWN \<and> s_start s \<le> now
    \<and> (\<forall>i<4. occupied (player (advance now s) i) \<longrightarrow> p_armed (player s i) = s_start s)"
proof -
  define t where "t = timeouts now s"
  have t: "(s_phase t = s_phase s \<and> s_start t = s_start s) \<or> s_phase t = FZ_LOBBY" "length (s_players t) = 4"
    using phase_timeouts [of now s] timeouts_players(1) [OF len, of 0] by (auto simp: t_def)
  have "\<not> s_closed t"
  proof
    assume "s_closed t"
    then have "advance now s = t" by (simp add: advance_def Let_def t_def)
    with before after t(1) show False by auto
  qed
  then have g: "game (advance now s) = game (barriers now t)"
    using advance_game by (simp add: t_def)
  have "\<not> now + 2000000 \<le> now"
    using now by (simp add: word_le_nat_alt unat_word_ariths)
  then have armed: "s_phase t = FZ_COUNTDOWN" "all_armed t" "s_start t \<le> now"
    using after before t(1) unfolding game_eqD(1) [OF g]
    by (auto simp: barriers_def barrier_defs split: if_splits)
  have "p_armed (player s i) = s_start s"
    if "i < 4" "occupied (player (advance now s) i)" for i
  proof -
    have "occupied (player t i)"
      using that t(2) unfolding game_eqD(2) [OF g] by (simp add: barriers_def)
    then show ?thesis
      using timeouts_players(2) [OF len that(1), of now] armed t(1) that(1)
      by (auto simp: t_def all_armed_iff split: if_splits)
  qed
  with armed t(1) show ?thesis by auto
qed

section \<open>Joining\<close>

text \<open>The server a packet of a player present leaves has no new player.\<close>

lemma receive_player_nobody_new:
  assumes len: "length (s_players s) = 4" and i: "i < 4" "occupied (player s i)"
    and j: "j < 4" "occupied (player (receive_player i packet sz s) j)"
  shows "occupied (player s j)"
proof -
  have "occupied (player (receive_pong i s) j) \<Longrightarrow> occupied (player s j)"
    and "occupied (player (receive_ping i packet s) j) \<Longrightarrow> occupied (player s j)"
    and "occupied (player (receive_state i packet sz s) j) \<Longrightarrow> occupied (player s j)"
    using len i j(1)
    by (auto simp: receive_pong_def receive_ping_def receive_state_def Let_def case_prod_beta nth_list_update
        split: if_splits)
  moreover have "occupied (player s j)" if "occupied (player (receive_command i packet s) j)"
  proof (rule ccontr)
    assume vacant: "\<not> occupied (player s j)"
    with that have "stays (acked i (pk_seq packet) s) (receive_command i packet s)"
      using run_command_stays [OF len i, of packet]
      by (auto simp: receive_command_def Let_def case_prod_beta reject_def split: if_splits)
    from stays_acked_seats(1) [OF this len i(1) j(1) that] vacant show False by simp
  qed
  ultimately show ?thesis
    using j by (auto simp: receive_player_def split: if_splits)
qed

text \<open>What a HELLO has to satisfy to be given a new seat, and the seat it is given.\<close>

definition admissible :: "fz_packet \<Rightarrow> sockaddr_in \<Rightarrow> Server \<Rightarrow> bool" where
  "admissible packet a s \<longleftrightarrow>
     pk_type packet = FZ_HELLO \<and> s_phase s = FZ_LOBBY \<and> count s < unat (s_expected s)
     \<and> unat (pk_length packet) = 9 + length (s_key s) \<and> unat (pk_payload packet ! 8) = length (s_key s)
     \<and> take (length (s_key s)) (drop 9 (pk_payload packet)) = s_key s \<and> length (s_key s) \<le> FZ_KEY_MAX
     \<and> (s_owner_nonce s = 0 \<or> occupied (player s 0) \<or> fz_u64 (pk_payload packet) = s_owner_nonce s)
     \<and> (\<forall>k<4. occupied (player s k) \<longrightarrow> \<not> same_address a (p_address (player s k)))"

lemma receive_hello_admissible:
  assumes "admissible packet a s" and "j < 4" and "\<not> occupied (player s j)" and "\<forall>k<j. occupied (player s k)"
  shows "receive_hello packet a s = join_slot j a (fz_u64 (pk_payload packet)) s"
proof -
  have "find (\<lambda>i. occupied (player s i) \<and> same_address a (p_address (player s i))) [0..<4] = None"
    using assms(1) by (auto simp: admissible_def find_None_upt)
  moreover have "find (\<lambda>i. \<not> occupied (player s i)) [0..<4] = Some j"
    using assms(2-) by (auto simp: find_Some_least)
  ultimately show ?thesis
    using assms(1) by (auto simp: admissible_def receive_hello_def Let_def)
qed

lemma receive_hello_join:
  assumes "pk_type packet = FZ_HELLO" and "j < 4" and "\<not> occupied (player s j)"
    and "occupied (player (receive_hello packet a s) j)"
  shows "admissible packet a s \<and> (\<exists>i. i < 4 \<and> \<not> occupied (player s i) \<and> (\<forall>k<i. occupied (player s k))
    \<and> receive_hello packet a s = join_slot i a (fz_u64 (pk_payload packet)) s)"
proof -
  let ?len = "unat (pk_length packet)" and ?key = "unat (pk_payload packet ! 8)"
    and ?nonce = "fz_u64 (pk_payload packet)"
    and ?at = "find (\<lambda>i. occupied (player s i) \<and> same_address a (p_address (player s i))) [0..<4]"
    and ?free = "find (\<lambda>i. \<not> occupied (player s i)) [0..<4]"
  have change: "s_players (receive_hello packet a s) \<noteq> s_players s"
    using assms(3,4) by auto
  have c1: "\<not> (?len < 9 \<or> ?key > FZ_KEY_MAX \<or> ?len \<noteq> 9 + ?key)"
  proof
    assume c: "?len < 9 \<or> ?key > FZ_KEY_MAX \<or> ?len \<noteq> 9 + ?key"
    show False using change unfolding receive_hello_def Let_def  if_P [OF c] by simp
  qed
  have c2: "\<not> (?key \<noteq> length (s_key s) \<or> take ?key (drop 9 (pk_payload packet)) \<noteq> take ?key (s_key s))"
  proof
    assume c: "?key \<noteq> length (s_key s) \<or> take ?key (drop 9 (pk_payload packet)) \<noteq> take ?key (s_key s)"
    show False using change unfolding receive_hello_def Let_def if_not_P [OF c1] if_P [OF c] by simp
  qed
  have c3: "\<not> (s_owner_nonce s \<noteq> 0 \<and> \<not> occupied (player s 0) \<and> ?nonce \<noteq> s_owner_nonce s)"
  proof
    assume c: "s_owner_nonce s \<noteq> 0 \<and> \<not> occupied (player s 0) \<and> ?nonce \<noteq> s_owner_nonce s"
    show False using change unfolding receive_hello_def Let_def if_not_P [OF c1] if_not_P [OF c2] if_P [OF c] by simp
  qed
  have c4: "?at = None"
    using change unfolding receive_hello_def Let_def if_not_P [OF c1] if_not_P [OF c2] if_not_P [OF c3]
    by (cases ?at) (auto split: if_splits)
  have c5: "\<not> s_phase s \<noteq> FZ_LOBBY" "\<not> count s \<ge> unat (s_expected s)"
    using change unfolding receive_hello_def Let_def if_not_P [OF c1] if_not_P [OF c2] if_not_P [OF c3] c4
    by (auto split: if_splits)
  obtain i where i: "?free = Some i"
    using assms(2,3) by (cases ?free) (auto simp: find_None_upt)
  have "receive_hello packet a s = join_slot i a ?nonce s"
    unfolding receive_hello_def Let_def if_not_P [OF c1] if_not_P [OF c2] if_not_P [OF c3] c4 option.case
      if_not_P [OF c5(1)] if_not_P [OF c5(2)] i by (rule refl)
  moreover have "admissible packet a s"
    using c1 c2 c3 c4 c5 assms(1) by (auto simp: admissible_def find_None_upt)
  ultimately show ?thesis using i by (auto simp: find_Some_least)
qed

definition new_player :: "sockaddr_in \<Rightarrow> u64 \<Rightarrow> u64 \<Rightarrow> u64 \<Rightarrow> Player" where
  "new_player a nonce token t = zero_player\<lparr>p_address := a, p_token := token, p_nonce := nonce, p_seen := t,
     p_status := FZ_JOINED\<rparr>"

lemma join_slot_players:
  assumes "length (s_players s) = 4" and "i < 4"
  shows "if fst (random_id s) = 0
    then s_players (join_slot i a n s) = (s_players s)[i := zero_player\<lparr>p_address := a, p_token := 0\<rparr>]
    else \<exists>t. s_players (join_slot i a n s) = (s_players s)[i := new_player a n (fst (random_id s)) t]"
  using assms by (auto simp: join_slot_def Let_def case_prod_beta new_player_def)

text \<open>
  C10. A seat is taken only by a HELLO that is entitled to it: the room is open, in the lobby and
  not full, the key is right, the endpoint has no seat yet, the first player of a hosted room is its
  owner; the seat is the lowest free one, and its player starts with the endpoint and the nonce of the
  HELLO, a token that is not zero and nothing selected.
\<close>

theorem join_sound:
  assumes len: "length (s_players s) = 4" and j: "j < 4" "\<not> occupied (player s j)"
    and new: "occupied (player (receive_packet b a s) j)"
  shows "\<exists>packet token t. fz_decode b = Some packet \<and> \<not> s_closed s \<and> admissible packet a s
    \<and> (\<forall>k<j. occupied (player s k)) \<and> token \<noteq> 0
    \<and> s_players (receive_packet b a s) = (s_players s)[j := new_player a (fz_u64 (pk_payload packet)) token t]"
proof -
  let ?s = "s\<lparr>s_rx := s_rx s + 1\<rparr>"
  obtain packet where b: "fz_decode b = Some packet" "\<not> s_closed s"
    using j new by (cases "fz_decode b") (auto simp: receive_packet_def split: if_splits)
  have hello: "pk_type packet = FZ_HELLO"
  proof (rule ccontr)
    assume "pk_type packet \<noteq> FZ_HELLO"
    then obtain i where i: "authenticate packet a ?s = Some i"
      and new': "occupied (player (receive_player i packet (length b) ?s) j)"
      using b new j by (auto simp: receive_packet_def Let_def split: option.splits)
    show False
      using receive_player_nobody_new [OF _ _ _ j(1) new'] authenticate_Some [OF i] len j(2) by simp
  qed
  then have r: "receive_packet b a s = receive_hello packet a ?s"
    using b by (simp add: receive_packet_def Let_def)
  obtain i where adm: "admissible packet a ?s" and i: "i < 4" "\<not> occupied (player s i)" "\<forall>k<i. occupied (player s k)"
    and eq: "receive_packet b a s = join_slot i a (fz_u64 (pk_payload packet)) ?s"
    using receive_hello_join [OF hello j(1), of ?s a] j new unfolding r by auto
  note players = join_slot_players [of ?s i a "fz_u64 (pk_payload packet)", folded eq]
  have vacant: "\<not> occupied (zero_player\<lparr>p_address := a, p_token := 0\<rparr>)"
    by (simp add: occupied_def zero_player_def)
  have token: "fst (random_id ?s) \<noteq> 0"
    using players len i(1,2) j new vacant by (cases "i = j") auto
  then obtain t where t: "s_players (receive_packet b a s)
      = (s_players s)[i := new_player a (fz_u64 (pk_payload packet)) (fst (random_id ?s)) t]"
    using players len i(1) by auto
  have "i = j" using t j new by (cases "i = j") auto
  moreover have "admissible packet a s" using adm by (simp add: admissible_def)
  ultimately show ?thesis
    using b i(3) token t by blast
qed

end
