(* ===== verification/Fz_Server_Life.thy ===== *)
theory Fz_Server_Life
  imports Fz_Server_Props
begin

text \<open>
  The life of a room as an abstract machine of its own, and that the server refines it. The machine
  knows the phase and the seats that are taken; it says who may come and go when, how the phases follow
  one another, and what begins a new race.
\<close>

section \<open>The abstract room\<close>

type_synonym room = "u8 \<times> nat set"







section \<open>The room of a server\<close>

definition taken :: "Server \<Rightarrow> nat set" where
  "taken s = {i. i < 4 \<and> occupied (player s i)}"

definition room_state :: "Server \<Rightarrow> room" where
  "room_state s = (s_phase s, taken s)"


definition unmoved :: "Server \<Rightarrow> _" where
  "unmoved s = (s_owner_nonce s, room_state s, s_race s)"











context acts_as
begin

lemma unmoved_act [simp]: "unmoved (act s) = unmoved (upd s)"
  by (simp add: unmoved_def room_state_def taken_def)

end

lemma unmoved_fields [simp]:
  "unmoved (s\<lparr>s_host := v1\<rparr>) = unmoved s" "unmoved (s\<lparr>s_start := v2\<rparr>) = unmoved s"
  "unmoved (s\<lparr>s_expected := v3\<rparr>) = unmoved s" "unmoved (s\<lparr>s_track := v4\<rparr>) = unmoved s"
  "unmoved (s\<lparr>s_league := v5\<rparr>) = unmoved s" "unmoved (s\<lparr>s_closed := v6\<rparr>) = unmoved s"
  "unmoved (s\<lparr>s_rx := v7\<rparr>) = unmoved s" "unmoved (s\<lparr>s_stale := v8\<rparr>) = unmoved s"
  "unmoved (s\<lparr>s_tick := v9\<rparr>) = unmoved s" "unmoved (s\<lparr>s_summary := v10\<rparr>) = unmoved s"
  "unmoved (poll_wait v s) = unmoved s"
  by (simp_all add: unmoved_def room_state_def taken_def poll_wait_def)




section \<open>Departures and phases\<close>









section \<open>Packets\<close>













section \<open>Polling\<close>





end
