(* ===== verification/Fz_Server_Props2.thy ===== *)
theory Fz_Server_Props2
  imports Fz_Server_Props
begin

text \<open>
  The promises of the race server, continued: admission, departures, shutdown and the bounds of
  one polling call.
\<close>

section \<open>Admission\<close>

definition welcome_packet :: "nat \<Rightarrow> u64 \<Rightarrow> fz_packet" where
  "welcome_packet i nonce = zero_packet\<lparr>pk_type := FZ_WELCOME, pk_length := 9,
     pk_payload := fill (of_nat i # fz_put64 nonce)\<rparr>"

lemma join_seat:
  assumes inv: "server_inv s" and b: "fz_decode b = Some packet" "\<not> s_closed s"
    and adm: "admissible packet a s" and random: "io_entropy (s_io s) (io_draws (s_io s)) \<noteq> None"
  shows "\<exists>j<4. \<not> occupied (player s j) \<and> p_status (player (receive_packet b a s) j) = FZ_JOINED
    \<and> p_address (player (receive_packet b a s) j) = a \<and> p_token (player (receive_packet b a s) j) \<noteq> 0
    \<and> (a, fz_encode FZ_MAX_PACKET (addressed j (welcome_packet j (fz_u64 (pk_payload packet))) (receive_packet b a s)))
      \<in> set (io_sent (s_io (receive_packet b a s)))"
proof -
  let ?s = "s\<lparr>s_rx := s_rx s + 1\<rparr>" and ?n = "fz_u64 (pk_payload packet)"
  have len: "length (s_players s) = 4" using inv by (simp add: server_inv_def slots_ok_def)
  have "count s < 4"
    using adm inv by (auto simp: admissible_def server_inv_def room_ok_def word_le_nat_alt)
  then have "\<exists>j<4. \<not> occupied (player s j)"
    by (auto simp: count_players_def upt_4 all_less_4 ex_less_4 split: if_splits)
  then obtain j where "find (\<lambda>i. \<not> occupied (player s i)) [0..<4] = Some j"
    by (cases "find (\<lambda>i. \<not> occupied (player s i)) [0..<4]") (auto simp: find_None_upt)
  then have j: "j < 4" "\<not> occupied (player s j)" "\<forall>k<j. occupied (player s k)"
    by (auto simp: find_Some_least)
  have token: "fst (random_id ?s) \<noteq> 0" using random by (auto simp: random_id_def split: if_splits)
  have t: "receive_packet b a s = join_slot j a ?n ?s"
    using b adm receive_hello_admissible [of packet a ?s j] j
    by (simp add: receive_packet_def Let_def admissible_def)
  have sent: "(a, fz_encode FZ_MAX_PACKET (addressed j (welcome_packet j ?n) (receive_packet b a s)))
      \<in> set (io_sent (s_io (receive_packet b a s)))"
    using j len token unfolding t
    by (simp add: join_slot_def send_welcome_def snapshot_def welcome_packet_def addressed_def Let_def case_prod_beta)
  show ?thesis
    using j token join_slot_players [of ?s j a ?n] len sent unfolding t
    by (intro exI [of _ j]) (auto simp: new_player_def)
qed

text \<open>
  C11. Whoever is entitled to a seat gets one: a HELLO that satisfies the conditions of
  admission is given a free seat of the room in the same call, as long as the random device answers, and
  a WELCOME with the number of the seat, the nonce of the HELLO and the token of the new player is sent
  to the endpoint it came from.
\<close>

theorem join_complete:
  assumes inv: "server_inv s" and b: "fz_decode b = Some packet" "\<not> s_closed s"
    and adm: "admissible packet a s" and random: "io_entropy (s_io s) (io_draws (s_io s)) \<noteq> None"
  shows "\<exists>j<4. \<not> occupied (player s j) \<and> p_status (player (receive_packet b a s) j) = FZ_JOINED
    \<and> p_token (player (receive_packet b a s) j) \<noteq> 0
    \<and> (a, fz_encode FZ_MAX_PACKET (addressed j (welcome_packet j (fz_u64 (pk_payload packet))) (receive_packet b a s)))
      \<in> set (io_sent (s_io (receive_packet b a s)))"
  using join_seat [OF assms] by blast

section \<open>Departures\<close>

lemma next_host_least:
  assumes "k < unat (next_host s)" and "k < 4"
  shows "\<not> occupied (player s k)"
proof (cases "find (\<lambda>j. occupied (player s j)) [0..<4]")
  case None
  with assms show ?thesis by (simp add: find_None_upt)
next
  case (Some j)
  then have "j < 4" "\<forall>k<j. \<not> occupied (player s k)" by (simp_all add: find_Some_least)
  with Some assms show ?thesis by (simp add: next_host_def unat_of_nat)
qed

lemma closed_departed: "s_closed s \<Longrightarrow> s_closed (departed i s)"
  by (simp add: departed_def Let_def)

lemma closed_advance: "s_closed s \<Longrightarrow> s_closed (advance now s)"
  by (simp add: advance_def timeouts_def upt_4 Let_def closed_departed)

text \<open>
  C34. When a player leaves a room that goes on, the room has a host again at once: the same
  one if somebody else left, otherwise the present player with the lowest number.
\<close>

theorem host_migrates:
  assumes inv: "server_inv s" "\<not> s_closed s" and i: "i < 4"
    and rest: "j < 4" "occupied (player (drop_player i reason s) j)" "\<not> s_closed (drop_player i reason s)"
  shows "occupied (player (drop_player i reason s) (unat (s_host (drop_player i reason s))))
    \<and> (if unat (s_host s) \<noteq> i then s_host (drop_player i reason s) = s_host s
       else \<forall>k < unat (s_host (drop_player i reason s)). \<not> occupied (player (drop_player i reason s) k))"
proof -
  have inv': "server_inv (drop_player i reason s)" using inv_departed [OF inv(1) i] by simp
  have c: "0 < count (drop_player i reason s)" using rest by (intro count_pos)
  have len: "length (s_players s) = 4" using inv by (simp add: server_inv_def slots_ok_def)
  have "occupied (player (drop_player i reason s) (unat (s_host (drop_player i reason s))))"
    using inv' c rest(3) by (simp add: server_inv_def host_ok_def)
  moreover have "s_host (drop_player i reason s) = s_host s" if "unat (s_host s) \<noteq> i"
    using that c by (auto simp: departed_def Let_def count_each len split: if_splits)
  moreover have "\<not> occupied (player (drop_player i reason s) k)"
    if "unat (s_host s) = i" "k < unat (s_host (drop_player i reason s))" for k
  proof -
    let ?p = "(player s i)\<lparr>p_status := FZ_DISCONNECTED, p_x := 0, p_y := 0\<rparr>"
    have host: "s_host (departed i s) = next_host (s\<lparr>s_players := (s_players s)[i := ?p]\<rparr>)"
      "s_players (departed i s) = (s_players s)[i := if s_phase s = FZ_LOBBY then zero_player else ?p]"
      using that(1) c rest(3) by (auto simp: departed_def Let_def count_each len split: if_splits)
    have "k < 4" using that(2) inv' c rest(3) by (simp add: server_inv_def host_ok_def word_less_nat_alt)
    then have "\<not> occupied ((s_players s)[i := ?p] ! k)"
      using next_host_least [of k "s\<lparr>s_players := (s_players s)[i := ?p]\<rparr>"] that(2) host(1) by simp
    then show ?thesis
      using host(2) i len \<open>k < 4\<close> vacant_players(1) by (cases "k = i") simp_all
  qed
  ultimately show ?thesis by simp
qed

text \<open>
  C33. When the owner of a hosted room leaves, the room is closed by the same
  packet, and every later call of the polling function reports a closed server and does nothing.
\<close>

theorem owner_leaves_room_closes:
  assumes "server_inv s" and "s_owner_nonce s \<noteq> 0" and "\<not> s_closed s"
    and "fz_decode b = Some packet" and "pk_type packet = FZ_COMMAND" and "authenticate packet a s = Some 0"
    and "pk_race packet = s_race s" and "pk_seq packet = p_command_seq (player s 0) + 1"
    and "pk_length packet = 1" and "pk_payload packet ! 0 = FZ_LEAVE"
  shows "s_closed (receive_packet b a s)
    \<and> fz_server_poll wait_ms env (receive_packet b a s) = (0, receive_packet b a s)"
proof -
  let ?s = "s\<lparr>s_rx := s_rx s + 1\<rparr>"
  have "s_closed (run_command 0 packet ?s)"
    using assms(2,9,10)
    by (simp add: run_command_def apply_command_def command_done_def departed_def Let_def case_prod_beta)
  moreover have "receive_packet b a s = snapshot (advance (fst (now_us (run_command 0 packet ?s)))
      (snd (now_us (run_command 0 packet ?s))))"
    using assms receive_command_packet [OF assms(4,5,3), of a]
    by (simp add: receive_command_def Let_def case_prod_beta newer_Suc)
  ultimately have "s_closed (receive_packet b a s)"
    by (simp add: closed_advance)
  then show ?thesis by (simp add: fz_server_poll_def)
qed

section \<open>Shutdown\<close>

text \<open>
  C35. Closing a server tells every player present, in the order of the seats and
  each with the credentials of the session, exactly once; it leaves the server closed and without a
  socket, and closing it again does nothing.
\<close>

theorem close_notifies_everyone:
  assumes "0 \<le> s_socket s"
  shows "io_sent (s_io (fz_server_close s)) = io_sent (s_io s)
      @ map (\<lambda>i. (p_address (player s i), fz_encode FZ_MAX_PACKET (addressed i room_closed_packet s)))
          (filter (\<lambda>i. occupied (player s i)) [0..<4])
    \<and> s_closed (fz_server_close s) \<and> s_socket (fz_server_close s) = - 1
    \<and> fz_server_close (fz_server_close s) = fz_server_close s \<and> fz_server_destroy s = fz_server_close s"
  using assms by (simp add: fz_server_close_def fz_server_destroy_def Let_def)

section \<open>One polling call\<close>

lemma receive_loop_take: "receive_loop n (take n rs) s = receive_loop n rs s"
proof (induction n rs s rule: receive_loop.induct)
  case (2 n rs s)
  then show ?case by (cases rs) (auto split: recv_result.split)
qed simp

lemma waits_receive_loop [simp]: "io_waits (s_io (snd (receive_loop n rs s))) = io_waits (s_io s)"
  by (induction n rs s rule: receive_loop.induct) (auto split: list.split recv_result.split)

lemma waits_poll_parts [simp]:
  "io_waits (s_io (poll_tick now s)) = io_waits (s_io s)"
  "io_waits (s_io (summary_player now i s)) = io_waits (s_io s)"
  "io_waits (s_io (poll_wait v s)) = io_waits (s_io s) @ [v]"
  by (simp_all add: poll_tick_def summary_player_def poll_wait_def Let_def)

lemma waits_poll_summary [simp]: "io_waits (s_io (poll_summary now s)) = io_waits (s_io s)"
  by (simp add: poll_summary_def Let_def upt_4)

lemma poll_timeout_bounds: "poll_timeout wait_ms tick before \<le> 16 \<and> poll_timeout wait_ms tick before \<le> wait_ms"
  by (auto simp: poll_timeout_def Let_def not_less intro: order_trans less_imp_le)

text \<open>
  One polling call waits at most once, for at most 16 milliseconds and never longer than
  its caller allows, and looks at no more than the first 128 datagrams, however many are waiting.
\<close>

lemma poll_bounded:
  "(\<exists>ws. io_waits (s_io (snd (fz_server_poll wait_ms env s))) = io_waits (s_io s) @ ws
      \<and> (ws = [] \<or> (\<exists>v. ws = [v] \<and> v \<le> 16 \<and> v \<le> wait_ms)))
   \<and> fz_server_poll wait_ms (env\<lparr>pe_recv := take 128 (pe_recv env)\<rparr>) s = fz_server_poll wait_ms env s"
proof -
  have "io_waits (s_io (snd (fz_server_poll wait_ms env s))) = io_waits (s_io s)
    @ (if s_closed s then [] else [poll_timeout wait_ms (s_tick s) (fst (now_us s))])"
    unfolding fz_server_poll_def Let_def case_prod_beta by (simp split: option.split)
  moreover have "fz_server_poll wait_ms (env\<lparr>pe_recv := take 128 (pe_recv env)\<rparr>) s = fz_server_poll wait_ms env s"
    by (cases env) (simp only: poll_env.simps poll_env.update_convs fz_server_poll_def receive_loop_take)
  ultimately show ?thesis
    using poll_timeout_bounds by (cases "s_closed s") auto
qed

section \<open>Addresses\<close>

lemma pton_fmt: "n \<le> 255 \<Longrightarrow> pton_parts None (fmt_u n @ cs) = pton_parts (Some n) cs"
proof (induction n arbitrary: cs rule: fmt_u.induct)
  case (1 n)
  show ?case
  proof (cases "n < 10")
    case True
    then show ?thesis by (simp add: fmt_u.simps [of n])
  next
    case False
    then have "n div 10 \<noteq> 0" "n mod 10 \<le> 9" by simp_all
    with False 1 show ?thesis by (simp add: fmt_u.simps [of n] Let_def)
  qed
qed

text \<open>
  The textual form of an IPv4 address, as the server logs endpoints, is read back
  to the same address by the parser the server binds with.
\<close>

lemma address_round_trip: "inet_pton (inet_ntoa a) = Some a"
proof -
  define x where "x = unat a"
  have x: "x < 2 ^ 32" using unsigned_less [of a] by (simp add: x_def)
  have m: "y AND 255 = take_bit 8 y" for y :: u32
    by (simp add: take_bit_eq_mask mask_eq_exp_minus_1)
  have parts: "unat (drop_bit 24 a) = x div 2 ^ 24" "unat (drop_bit 16 a AND 255) = x div 2 ^ 16 mod 256"
      "unat (drop_bit 8 a AND 255) = x div 2 ^ 8 mod 256" "unat (a AND 255) = x mod 256"
    unfolding m x_def by (simp_all add: unsigned_drop_bit_eq unsigned_take_bit_eq take_bit_eq_mod drop_bit_eq_div unat_div unat_mod)
  have b: "unat (drop_bit 24 a) \<le> 255" "unat (drop_bit 16 a AND 255) \<le> 255"
      "unat (drop_bit 8 a AND 255) \<le> 255" "unat (a AND 255) \<le> 255"
    unfolding parts using x by simp_all
  have "((x div 2 ^ 24 * 256 + x div 2 ^ 16 mod 256) * 256 + x div 2 ^ 8 mod 256) * 256 + x mod 256 = x"
  proof -
    have "x div 2 ^ 24 = x div 2 ^ 16 div 256" "x div 2 ^ 16 = x div 2 ^ 8 div 256" "x div 2 ^ 8 = x div 256"
      by (simp_all flip: div_mult2_eq)
    then show ?thesis
      using div_mult_mod_eq [of "x div 2 ^ 16" 256] div_mult_mod_eq [of "x div 2 ^ 8" 256] div_mult_mod_eq [of x 256]
      by metis
  qed
  then have whole: "of_nat (((x div 2 ^ 24 * 256 + x div 2 ^ 16 mod 256) * 256 + x div 2 ^ 8 mod 256) * 256 + x mod 256) = a"
    by (simp only: x_def) simp
  have "pton_parts None (inet_ntoa a) = Some [unat (drop_bit 24 a), unat (drop_bit 16 a AND 255),
      unat (drop_bit 8 a AND 255), unat (a AND 255)]"
    using b pton_fmt [OF b(4), of "[]"] by (simp add: inet_ntoa_def pton_fmt)
  then show ?thesis
    unfolding inet_pton_def parts by (simp only: option.case list.case whole)
qed

end
