(* ===== verification/Fz_Server_Create.thy ===== *)
theory Fz_Server_Create
  imports Fz_Server_Props2
begin

text \<open>
  Which configurations the server accepts, said without its tests: the ranges of its numbers, the dotted
  notation of its address, and what the operating system has to provide. Creation succeeds exactly
  then, with an empty room of these settings, and explains itself otherwise.
\<close>

section \<open>Dotted addresses\<close>

definition dotted :: "nat \<Rightarrow> nat \<Rightarrow> nat \<Rightarrow> nat \<Rightarrow> string" where
  "dotted a b c d = fmt_u a @ ''.'' @ fmt_u b @ ''.'' @ fmt_u c @ ''.'' @ fmt_u d"

fun joined_parts :: "nat list \<Rightarrow> string" where
  "joined_parts [] = []"
| "joined_parts [p] = fmt_u p"
| "joined_parts (p # ps) = fmt_u p @ ''.'' @ joined_parts ps"

lemma joined_Cons: "ps \<noteq> [] \<Longrightarrow> joined_parts (p # ps) = fmt_u p @ ''.'' @ joined_parts ps"
  by (cases ps) simp_all

lemma digit_of: "48 \<le> (of_char c :: nat) \<Longrightarrow> char_of (48 + (of_char c - 48 :: nat)) = c"
  by simp

lemma fmt_u_snoc: "v \<noteq> 0 \<Longrightarrow> d < 10 \<Longrightarrow> fmt_u (v * 10 + d) = fmt_u v @ [char_of (48 + d)]"
  by (simp add: fmt_u.simps [of "v * 10 + d"])

text \<open>What the parser reads is the canonical text of the parts it returns.\<close>

lemma pton_parts_text:
  assumes "pton_parts acc cs = Some ps" and "\<And>v. acc = Some v \<Longrightarrow> v \<le> 255"
  shows "ps \<noteq> [] \<and> (\<forall>p\<in>set ps. p \<le> 255)
    \<and> joined_parts ps = (case acc of None \<Rightarrow> cs | Some v \<Rightarrow> fmt_u v @ cs)"
  using assms
proof (induction acc cs arbitrary: ps rule: pton_parts.induct)
  case (1 acc)
  then show ?case by auto
next
  case (2 acc c cs)
  let ?n = "of_char c :: nat"
  show ?case
  proof (cases "48 \<le> ?n \<and> ?n \<le> 57")
    case True
    then have d: "?n - 48 < 10" "char_of (48 + (?n - 48)) = c" using digit_of by auto
    show ?thesis
    proof (cases acc)
      case None
      with 2 True d show ?thesis by (auto simp: fmt_u.simps [of "?n - 48"] Let_def)
    next
      case (Some v)
      then have v: "v \<noteq> 0" "v * 10 + (?n - 48) \<le> 255" "pton_parts (Some (v * 10 + (?n - 48))) cs = Some ps"
        using 2(4) True by (auto simp: Let_def split: if_splits)
      have "fmt_u (v * 10 + (?n - 48)) = fmt_u v @ [c]"
        using fmt_u_snoc [OF v(1) d(1)] unfolding d(2) .
      with 2(2) [OF refl _ Some] v True Some show ?thesis by simp
    qed
  next
    case False
    then obtain v qs where v: "acc = Some v" "?n = 46" "pton_parts None cs = Some qs" "ps = v # qs"
      using 2(4) by (auto simp: Let_def split: if_splits option.splits)
    have "c = CHR ''.''" using v(2) of_char_eq_iff [of c "CHR ''.''", where 'a = nat] by simp
    with 2(3) [OF refl _ v(2,1) v(3)] 2(5) v False show ?thesis by (auto simp: joined_Cons)
  qed
qed

lemma pton_iff: "inet_pton text \<noteq> None \<longleftrightarrow> (\<exists>a b c d. a \<le> 255 \<and> b \<le> 255 \<and> c \<le> 255 \<and> d \<le> 255 \<and> text = dotted a b c d)"
proof
  assume "inet_pton text \<noteq> None"
  then obtain a b c d where "pton_parts None text = Some [a, b, c, d]"
    by (auto simp: inet_pton_def split: option.splits list.splits)
  from pton_parts_text [OF this] show "\<exists>a b c d. a \<le> 255 \<and> b \<le> 255 \<and> c \<le> 255 \<and> d \<le> 255 \<and> text = dotted a b c d"
    by (auto simp: dotted_def)
next
  assume "\<exists>a b c d. a \<le> 255 \<and> b \<le> 255 \<and> c \<le> 255 \<and> d \<le> 255 \<and> text = dotted a b c d"
  then obtain a b c d where p: "a \<le> 255" "b \<le> 255" "c \<le> 255" "d \<le> 255" "text = dotted a b c d" by blast
  have "pton_parts None text = Some [a, b, c, d]"
    using p pton_fmt [of d "[]"] by (simp add: dotted_def pton_fmt)
  then show "inet_pton text \<noteq> None" by (simp add: inet_pton_def)
qed

section \<open>Creation\<close>

definition acceptable :: "fz_server_config \<Rightarrow> bool" where
  "acceptable c \<longleftrightarrow>
     (\<exists>p q r s. p \<le> 255 \<and> q \<le> 255 \<and> r \<le> 255 \<and> s \<le> 255 \<and> c_bind_address c = Some (dotted p q r s))
     \<and> (\<exists>key. c_room_key c = Some key \<and> length key \<le> 64)
     \<and> unat (c_port c) \<in> {1..65535} - {12001} \<and> unat (c_players c) \<in> {2, 3, 4}
     \<and> unat (c_track c) \<in> {0, 1, 2, 3, 4} \<and> unat (c_league c) \<in> {0, 1, 2}"

definition provided :: "os_setup \<Rightarrow> io \<Rightarrow> bool" where
  "provided os w \<longleftrightarrow> os_alloc os \<and> io_entropy w (io_draws w) \<noteq> None \<and> 0 \<le> os_socket os \<and> os_bind os \<and> os_nonblock os"

text \<open>The empty room of a configuration.\<close>

definition opened :: "fz_server_config \<Rightarrow> os_setup \<Rightarrow> Server \<Rightarrow> bool" where
  "opened c os s \<longleftrightarrow> s_phase s = FZ_LOBBY \<and> count s = 0 \<and> s_host s = 255 \<and> s_race s = 1 \<and> \<not> s_closed s
     \<and> unat (s_expected s) = unat (c_players c) \<and> unat (s_track s) = unat (c_track c)
     \<and> unat (s_league s) = unat (c_league c) \<and> s_port s = unat (c_port c) \<and> c_room_key c = Some (s_key s)
     \<and> s_owner_nonce s = c_owner_nonce c \<and> s_session s \<noteq> 0 \<and> s_socket s = os_socket os"

lemma valid_config_iff:
  "valid_config c \<and> inet_pton (the (c_bind_address c)) \<noteq> None \<longleftrightarrow> acceptable c"
proof -
  have "valid_config c \<longleftrightarrow> (\<exists>t. c_bind_address c = Some t) \<and> (\<exists>key. c_room_key c = Some key \<and> length key \<le> 64)
      \<and> 1 \<le> unat (c_port c) \<and> unat (c_port c) \<le> 65535 \<and> unat (c_port c) \<noteq> 12001
      \<and> 2 \<le> unat (c_players c) \<and> unat (c_players c) \<le> 4 \<and> unat (c_track c) \<le> 4 \<and> unat (c_league c) \<le> 2"
    by (cases "c_bind_address c"; cases "c_room_key c")
      (simp_all add: valid_config_def word_less_nat_alt word_unat_eq_iff not_less Suc_le_eq conj_ac)
  moreover have "unat (c_players c) \<in> {2, 3, 4} \<longleftrightarrow> 2 \<le> unat (c_players c) \<and> unat (c_players c) \<le> 4"
    "unat (c_track c) \<in> {0, 1, 2, 3, 4} \<longleftrightarrow> unat (c_track c) \<le> 4" "unat (c_league c) \<in> {0, 1, 2} \<longleftrightarrow> unat (c_league c) \<le> 2"
    by auto
  moreover have "(\<exists>p q r s. p \<le> 255 \<and> q \<le> 255 \<and> r \<le> 255 \<and> s \<le> 255 \<and> c_bind_address c = Some (dotted p q r s))
      \<longleftrightarrow> (\<exists>t. c_bind_address c = Some t) \<and> inet_pton (the (c_bind_address c)) \<noteq> None"
    unfolding pton_iff by fastforce
  ultimately show ?thesis
    unfolding acceptable_def by simp (simp add: conj_ac)
qed

lemma created_opened:
  assumes "fz_server_create (Some c) sz os w = Inr s"
  shows "opened c os s"
proof -
  obtain cfg m s0 where some: "Some c = Some cfg" and cfg: "valid_config cfg" "fst (random_id (new_server cfg w)) \<noteq> 0"
      "s0 = (snd (random_id (new_server cfg w)))\<lparr>s_session := fst (random_id (new_server cfg w)), s_socket := os_socket os\<rparr>"
      "0 \<le> os_socket os" "s = log_event 1 (- 1) m ((snd (now_us s0))\<lparr>s_tick := fst (now_us s0), s_summary := fst (now_us s0),
         s_phase_since := fst (now_us s0)\<rparr>)"
    using assms by (rule create_Inr)
  have small: "unat (ucast x :: u8) = unat x" if "unat x \<le> 4" for x :: u32
    using that by (simp add: unsigned_ucast_eq take_bit_nat_eq_self)
  have "unat (c_players c) \<le> 4" "unat (c_track c) \<le> 4" "unat (c_league c) \<le> 4" and key: "c_room_key c \<noteq> None"
    using cfg(1) some by (auto simp: valid_config_def word_less_nat_alt)
  note smalls = this(1-3) [THEN small]
  define n where "n = new_server c w"
  have f: "s_phase s = s_phase n" "s_players s = s_players n" "s_host s = s_host n" "s_race s = s_race n"
      "s_closed s = s_closed n" "s_expected s = s_expected n" "s_track s = s_track n" "s_league s = s_league n"
      "s_port s = s_port n" "s_key s = s_key n" "s_owner_nonce s = s_owner_nonce n"
      "s_session s = fst (random_id n)" "s_socket s = os_socket os"
    unfolding cfg(5) cfg(3) using some by (simp_all add: n_def)
  have "fst (random_id n) \<noteq> 0" using cfg(2) some by (simp add: n_def)
  moreover have "count_players (replicate 4 zero_player) = 0" by (simp add: count_0_iff vacant_players(1))
  ultimately show ?thesis
    unfolding opened_def f using key smalls by (simp add: n_def new_server_def)
qed

text \<open>
  C38. A server comes into being exactly when the configuration is acceptable and the operating
  system provides memory, randomness and the socket: an IPv4 address in dotted notation, a key of at most
  64 bytes, a port other than 0 and the discovery port 12001, two to four players, one of five tracks and
  three leagues. Then it has an open, empty lobby with these settings. In every other case the caller
  gets a text that says why and fits the buffer, if it gave one.
\<close>

theorem create_exact:
  "case fz_server_create config sz os w of
     Inr s \<Rightarrow> (\<exists>c. config = Some c \<and> acceptable c \<and> provided os w \<and> opened c os s)
   | Inl e \<Rightarrow> \<not> (\<exists>c. config = Some c \<and> acceptable c \<and> provided os w)
       \<and> (sz = 0 \<longrightarrow> e = None) \<and> (2 \<le> sz \<longrightarrow> (\<exists>m. e = Some m \<and> m \<noteq> [] \<and> length m < sz))"
proof -
  have random: "fst (random_id (new_server c w)) = 0 \<longleftrightarrow> io_entropy w (io_draws w) = None" for c
    by (auto simp: random_id_def new_server_def split: option.split)
  have says: "(sz = 0 \<longrightarrow> error_text sz m = None) \<and> (2 \<le> sz \<longrightarrow> (\<exists>n. error_text sz m = Some n \<and> n \<noteq> [] \<and> length n < sz))"
    if "m \<noteq> []" for m
    using that by (auto simp: error_text_def)
  show ?thesis
  proof (cases config)
    case None
    then show ?thesis using says by (simp add: fz_server_create_def)
  next
    case (Some c)
    have "\<exists>e. fz_server_create (Some c) sz os w = Inl e \<and> (sz = 0 \<longrightarrow> e = None)
        \<and> (2 \<le> sz \<longrightarrow> (\<exists>m. e = Some m \<and> m \<noteq> [] \<and> length m < sz))" if "\<not> (acceptable c \<and> provided os w)"
      using that says random valid_config_iff [of c]
      by (auto simp: fz_server_create_def provided_def Let_def case_prod_beta split: option.splits)
    moreover have "\<exists>s. fz_server_create (Some c) sz os w = Inr s" if "acceptable c \<and> provided os w"
      using that random valid_config_iff [of c]
      by (auto simp: fz_server_create_def provided_def Let_def case_prod_beta split: option.splits)
    ultimately show ?thesis
      using Some created_opened by (cases "acceptable c \<and> provided os w") auto
  qed
qed

theorem create_exact_witness:
  "opened sample_config sample_os sample_server
    \<and> (\<exists>m. fz_server_create None 8 sample_os sample_io = Inl (Some m) \<and> m \<noteq> [] \<and> length m < 8)"
proof -
  have "fz_server_create None 8 sample_os sample_io = Inl (error_text 8 ''Invalid server configuration (port 12001 is reserved for discovery)'')"
    by (simp add: fz_server_create_def)
  then show ?thesis
    using create_exact [where config = "Some sample_config" and sz = 0 and os = sample_os and w = sample_io]
      create_exact [where config = None and sz = 8 and os = sample_os and w = sample_io]
    by (simp add: sample_create)
qed

end
