(* ===== verification/Fz_Server_Witness.thy ===== *)
theory Fz_Server_Witness
  imports Fz_Server_Life Fz_Server_Create
begin

text \<open>
  Concrete packets and rooms on which the hypotheses of the theorems on the server hold.
\<close>

lemma less_4_cases: "i < (4 :: nat) \<Longrightarrow> i = 0 \<or> i = 1 \<or> i = 2 \<or> i = 3"
  by linarith

section \<open>Packets\<close>

definition sample_packet :: "u8 \<Rightarrow> u16 \<Rightarrow> u32 \<Rightarrow> bytes \<Rightarrow> fz_packet" where
  "sample_packet ty len q b = zero_packet\<lparr>pk_type := ty, pk_length := len, pk_session := 42, pk_token := 42,
     pk_race := 1, pk_seq := q, pk_payload := fill b\<rparr>"

definition sample_data :: "u8 \<Rightarrow> u16 \<Rightarrow> u32 \<Rightarrow> bytes \<Rightarrow> bytes" where
  "sample_data ty len q b = fz_encode FZ_MAX_PACKET (sample_packet ty len q b)"

lemma sample_decode:
  assumes "\<not> ty < FZ_HELLO" "\<not> ty > FZ_ROOM_CLOSED" "unat len = length b" "length b \<le> 220"
  shows "fz_decode (sample_data ty len q b) = Some (sample_packet ty len q b)"
  unfolding sample_data_def
  by (rule decode_encode) (use assms in \<open>simp add: canonical_def sample_packet_def\<close>)

lemma sample_packet_simps [simp]:
  "pk_type (sample_packet ty len q b) = ty" "pk_length (sample_packet ty len q b) = len"
  "pk_session (sample_packet ty len q b) = 42" "pk_token (sample_packet ty len q b) = 42"
  "pk_race (sample_packet ty len q b) = 1" "pk_seq (sample_packet ty len q b) = q"
  "pk_payload (sample_packet ty len q b) = fill b"
  by (simp_all add: sample_packet_def)

section \<open>Rooms\<close>

text \<open>A room of two with a given phase, host, owner and players, otherwise as it was created.\<close>

definition sample_room :: "u8 \<Rightarrow> u8 \<Rightarrow> u64 \<Rightarrow> Player list \<Rightarrow> Server" where
  "sample_room ph h own ps = sample_server\<lparr>s_phase := ph, s_host := h, s_owner_nonce := own, s_players := ps, s_start := 5\<rparr>"

definition sample_second :: Player where
  "sample_second = sample_player\<lparr>p_address := \<lparr>sin_addr = 0x7F000001, sin_port = 4001\<rparr>, p_token := 43\<rparr>"

lemma sample_room_simps [simp]:
  "s_phase (sample_room ph h own ps) = ph" "s_host (sample_room ph h own ps) = h"
  "s_owner_nonce (sample_room ph h own ps) = own" "s_players (sample_room ph h own ps) = ps"
  "s_start (sample_room ph h own ps) = 5" "s_session (sample_room ph h own ps) = 42"
  "s_race (sample_room ph h own ps) = 1" "\<not> s_closed (sample_room ph h own ps)"
  "s_expected (sample_room ph h own ps) = 2" "s_track (sample_room ph h own ps) = 0"
  "s_league (sample_room ph h own ps) = 0" "s_key (sample_room ph h own ps) = []"
  "io_clock (s_io (sample_room ph h own ps)) = (\<lambda>_. 7)" "s_log_level (sample_room ph h own ps) = - 1"
  by (simp_all add: sample_room_def sample_server_def new_server_def sample_config_def sample_io_def)

lemma sample_players [simp]:
  "p_status sample_player = FZ_JOINED" "p_car sample_player = 0" "p_token sample_player = 42" "p_nonce sample_player = 5"
  "p_seen sample_player = 7" "p_command_seq sample_player = 0" "p_state_seq sample_player = 0"
  "p_address sample_player = sample_address"
  "p_status sample_second = FZ_JOINED" "p_car sample_second = 0" "p_token sample_second = 43" "p_nonce sample_second = 5"
  "p_seen sample_second = 7" "p_status zero_player = FZ_EMPTY" "p_car zero_player = 0"
  "occupied sample_player" "occupied sample_second" "\<not> occupied zero_player"
  "same_address (p_address sample_player) sample_address" "same_address sample_address (p_address sample_player)"
  "\<not> same_address sample_address (p_address sample_second)" "same_address sample_address sample_address"
  "\<not> same_address (p_address sample_second) sample_address"
  by (simp_all add: sample_player_def sample_second_def zero_player_def occupied_def same_address_def sample_address_def)

lemma sample_lobby_inv: "server_inv (sample_room FZ_LOBBY 0 own [sample_player, sample_second, zero_player, zero_player])"
  if "own = 0 \<or> own = 5"
  using that by (auto simp: inv_defs all_less_4 count_players_def upt_4 allowed_def)

section \<open>Witnesses\<close>

theorem spoofed_packet_inert_witness:
  "receive_packet (sample_data FZ_COMMAND 1 1 [FZ_LEAVE]) \<lparr>sin_addr = 1, sin_port = 2\<rparr> sample_joined
    = sample_joined\<lparr>s_rx := s_rx sample_joined + 1, s_rejected := s_rejected sample_joined + 1\<rparr>"
  by (rule spoofed_packet_inert [OF sample_decode [of FZ_COMMAND 1 "[FZ_LEAVE]"]])
    (auto simp: sample_joined same_address_def sample_address_def dest!: less_4_cases)

theorem command_exactly_once_witness:
  "game (receive_packet (sample_data FZ_COMMAND 2 1 [FZ_SELECT, 3]) sample_address
      (receive_packet (sample_data FZ_COMMAND 2 1 [FZ_SELECT, 3]) sample_address sample_joined))
    = game (receive_packet (sample_data FZ_COMMAND 2 1 [FZ_SELECT, 3]) sample_address sample_joined)"
  using command_exactly_once [OF joined_inv sample_decode [of FZ_COMMAND 2 "[FZ_SELECT, 3]" 1]] by simp

abbreviation sample_lobby :: Server where
  "sample_lobby \<equiv> sample_room FZ_LOBBY 0 0 [sample_player, sample_second, zero_player, zero_player]"

lemma sample_authenticate [simp]:
  assumes "p_token p = 42" "occupied p" "p_address p = sample_address"
  shows "authenticate (sample_packet ty len q b) sample_address (sample_room ph h own (p # ps)) = Some 0"
  using assms by (simp add: authenticate_def upt_4)

lemma nth_fill_simps [simp]:
  "fill (x # xs) ! 0 = x" "fill (x # y # xs) ! Suc 0 = y" "fill (x # y # z # xs) ! 2 = z"
  "fill (x # y # z # w # xs) ! 3 = w" "fill (x # y # z # w # v # xs) ! 4 = v"
  by (simp_all add: fill_def nth_append numeral_eq_Suc)

theorem command_acknowledged_witness:
  "p_command_seq (player (receive_packet (sample_data FZ_COMMAND 2 1 [FZ_SELECT, 3]) sample_address sample_lobby) 0) = 1"
proof -
  let ?b = "sample_data FZ_COMMAND 2 1 [FZ_SELECT, 3]"
  note d = sample_decode [of FZ_COMMAND 2 "[FZ_SELECT, 3]" 1]
  have "occupied (player (receive_packet ?b sample_address sample_lobby) 0)"
    using d by (simp add: receive_command_packet receive_command_def run_command_def apply_command_def
        command_done_def newer_Suc [of 0, simplified] Let_def case_prod_beta advance_occupied fst_now_us)
      (simp add: occupied_def)
  then show ?thesis
    using command_acknowledged [OF sample_lobby_inv d, of 0 sample_address 0] by simp
qed

abbreviation sample_race :: Server where
  "sample_race \<equiv> sample_room FZ_RACING 0 0 [sample_player\<lparr>p_status := FZ_PLAYER_RACING\<rparr>, zero_player, zero_player, zero_player]"

lemma occupied_racing [simp]: "occupied (sample_player\<lparr>p_status := FZ_PLAYER_RACING\<rparr>)"
  by (simp add: occupied_def)

theorem movement_filter_witness:
  "p_x (player (receive_packet (sample_data FZ_STATE 5 1 [2, 0, 3, 0, 9]) sample_address sample_race) 0)
    = fz_u16 (fill [2, 0, 3, 0, 9])"
  using movement_filter [OF sample_decode [of FZ_STATE 5 "[2, 0, 3, 0, 9]" 1], of sample_race sample_address 0]
  by (auto simp: moves_def fz_newer_def)

theorem newest_movement_wins_witness:
  "p_state_seq (player (fold (\<lambda>n. receive_packet (sample_data FZ_STATE 5 (of_nat n) [of_nat n, 0, 0, 0, 0]) sample_address)
      [2, 1] sample_race) 0) = 2"
proof -
  let ?P = "\<lambda>n. sample_packet FZ_STATE 5 (of_nat n) [of_nat n, 0, 0, 0, 0]"
    and ?d = "\<lambda>n. sample_data FZ_STATE 5 (of_nat n) [of_nat n, 0, 0, 0, 0]"
  have r: "racing_with 0 sample_address (?P ` set [2, 1]) sample_race"
    by (simp add: racing_with_def)
  have seq: "n \<in> set [2, 1] \<Longrightarrow> pk_seq (?P n) = p_state_seq (player sample_race 0) + of_nat n \<and> n < 2 ^ 31" for n :: nat
    by auto
  have dec: "n \<in> set [2, 1] \<Longrightarrow> fz_decode (?d n) = Some (?P n)" for n :: nat
    by (simp add: sample_decode)
  show ?thesis
    using newest_movement_wins [OF r dec seq] by simp
qed

theorem only_host_configures_witness:
  "settings (receive_packet (sample_data FZ_COMMAND 4 1 [FZ_CONFIG, 3, 1, 2]) sample_address sample_lobby) = (3, 1, 2)"
proof -
  let ?b = "sample_data FZ_COMMAND 4 1 [FZ_CONFIG, 3, 1, 2]"
  note d = sample_decode [of FZ_COMMAND 4 "[FZ_CONFIG, 3, 1, 2]" 1]
  have "settings (receive_packet ?b sample_address sample_lobby) \<noteq> settings sample_lobby"
    using d by (simp add: receive_command_packet receive_command_def apply_command_def
        newer_Suc [of 0, simplified] Let_def case_prod_beta count_players_def upt_4)
      (simp add: settings_def)
  from only_host_configures [OF this] show ?thesis
    using d by auto
qed

abbreviation sample_countdown :: "u64 \<Rightarrow> Server" where
  "sample_countdown armed \<equiv> sample_room FZ_COUNTDOWN 0 0
     [sample_player\<lparr>p_status := FZ_PLAYER_LOADED, p_armed := armed\<rparr>, zero_player, zero_player, zero_player]"

lemma occupied_loaded [simp]: "occupied (sample_player\<lparr>p_status := FZ_PLAYER_LOADED\<rparr>)"
  by (simp add: occupied_def)

theorem countdown_exact_witness:
  "s_phase (advance 7 (sample_countdown 5)) = FZ_RACING \<and> s_start (advance 7 (sample_countdown 4)) = 2000007"
proof -
  have inv: "server_inv (sample_countdown v)" for v
    by (simp add: inv_defs all_less_4 count_players_def upt_4 allowed_def)
  have fresh: "i < 4 \<Longrightarrow> occupied (player (sample_countdown v) i) \<Longrightarrow> 7 - p_seen (player (sample_countdown v) i) < 5000000" for v i
    by (auto dest!: less_4_cases)
  show ?thesis
    using countdown_exact [OF inv [of 5] _ _ fresh] countdown_exact [OF inv [of 4] _ _ fresh]
    by (simp add: all_less_4)
qed

theorem race_start_barrier_witness:
  "p_armed (player (sample_countdown 5) 0) = 5"
proof -
  have after: "s_phase (advance 7 (sample_countdown 5)) = FZ_RACING" "occupied (player (advance 7 (sample_countdown 5)) 0)"
    by (simp_all add: advance_def timeouts_def upt_4 barrier_defs all_armed_def all_at_least_def count_players_def
        nth_each each_def)
  show ?thesis
    using race_start_barrier [of "sample_countdown 5" 7] after by simp
qed

abbreviation sample_empty :: Server where
  "sample_empty \<equiv> sample_room FZ_LOBBY 255 0 [zero_player, zero_player, zero_player, zero_player]"

lemma sample_admissible: "admissible sample_hello sample_address sample_empty"
  by (simp add: admissible_def sample_hello_def hello_payload count_players_def upt_4 all_less_4)

lemma sample_entropy: "io_entropy (s_io (sample_room ph h own ps)) = (\<lambda>_. Some 42)"
  by (simp add: sample_room_def sample_server_def new_server_def sample_io_def)

lemma sample_empty_inv: "server_inv sample_empty"
  by (simp add: inv_defs all_less_4 count_players_def upt_4 allowed_def)

theorem join_complete_witness:
  "\<exists>j<4. p_status (player (receive_packet sample_hello_data sample_address sample_empty) j) = FZ_JOINED"
  using join_complete [OF sample_empty_inv sample_hello_data(1) _ sample_admissible]
  by (auto simp: sample_entropy)

theorem join_sound_witness:
  "\<exists>token t. player (receive_packet sample_hello_data sample_address sample_empty) 0 = new_player sample_address 5 token t"
proof -
  have "occupied (player (receive_packet sample_hello_data sample_address sample_empty) 0)"
    using sample_join(1) [of sample_empty] by (simp add: vacant_players sample_entropy)
  from join_sound [OF _ _ _ this] obtain token t where
    "s_players (receive_packet sample_hello_data sample_address sample_empty)
      = [new_player sample_address 5 token t, zero_player, zero_player, zero_player]"
    by (auto simp: sample_hello_def hello_payload)
  then show ?thesis by (intro exI [of _ token] exI [of _ t]) simp
qed

theorem host_migrates_witness:
  "s_host (drop_player 0 ''left_room'' sample_lobby) = 1"
proof -
  have "s_host (drop_player 0 ''left_room'' sample_lobby) = 1 \<and> occupied (player (drop_player 0 ''left_room'' sample_lobby) 1)
      \<and> \<not> s_closed (drop_player 0 ''left_room'' sample_lobby)"
    by (simp add: departed_def next_host_def upt_4 count_players_def) (simp add: occupied_def)
  then show ?thesis
    using host_migrates [OF sample_lobby_inv, of 0 0 1] by simp
qed

theorem owner_leaves_room_closes_witness:
  "s_closed (receive_packet (sample_data FZ_COMMAND 1 1 [FZ_LEAVE]) sample_address
    (sample_room FZ_LOBBY 0 5 [sample_player, sample_second, zero_player, zero_player]))"
  using owner_leaves_room_closes [OF sample_lobby_inv [of 5] _ _ sample_decode [of FZ_COMMAND 1 "[FZ_LEAVE]" 1],
      of sample_address]
  by simp

theorem close_notifies_everyone_witness:
  "length (io_sent (s_io (fz_server_close sample_lobby))) = length (io_sent (s_io sample_lobby)) + 2"
proof -
  have "s_socket sample_lobby = 3" by (simp add: sample_room_def sample_server_def)
  then show ?thesis
    using close_notifies_everyone [of sample_lobby] by (simp add: upt_4)
qed

end
