(* ===== verification/Fz_Memory.thy ===== *)
theory Fz_Memory
  imports Fz_Prelude
begin

text \<open>
  The emulator's memory as the client sees it (\<open>struct Memory\<close> of \<^verbatim>\<open>client/fzvs_client.hpp\<close>): the console's
  RAM and the cartridge image as byte arrays, where a read outside the array gives 0 and a write
  outside is ignored, and the power cycle, whose effect on RAM is a parameter. The byte maps the
  client keeps of what it has overwritten are ordered by address, as \<open>std::map\<close> is.
\<close>

section \<open>Arrays of bytes\<close>

definition read_at :: "bytes \<Rightarrow> u32 \<Rightarrow> u8" where
  "read_at xs a = (if unat a < length xs then xs ! unat a else 0)"

definition write_at :: "u32 \<Rightarrow> u8 \<Rightarrow> bytes \<Rightarrow> bytes" where
  "write_at a v xs = xs[unat a := v]"

record Memory =
  mem_ram :: bytes
  mem_rom :: bytes
  mem_power :: "bytes \<Rightarrow> bytes"
  mem_resets :: nat

definition mem_reset :: "Memory \<Rightarrow> Memory" where
  "mem_reset m = m\<lparr>mem_ram := mem_power m (mem_ram m), mem_resets := mem_resets m + 1\<rparr>"

definition writeRam :: "u32 \<Rightarrow> u8 \<Rightarrow> Memory \<Rightarrow> Memory" where
  "writeRam a v m = m\<lparr>mem_ram := write_at a v (mem_ram m)\<rparr>"

definition writeRom :: "u32 \<Rightarrow> u8 \<Rightarrow> Memory \<Rightarrow> Memory" where
  "writeRom a v m = m\<lparr>mem_rom := write_at a v (mem_rom m)\<rparr>"

lemma length_write_at [simp]: "length (write_at a v xs) = length xs"
  by (simp add: write_at_def)

lemma read_write: "read_at (write_at a v xs) b = (if a = b \<and> unat a < length xs then v else read_at xs b)"
proof (cases "a = b")
  case False
  then have "unat a \<noteq> unat b" by (simp add: word_unat_eq_iff)
  then show ?thesis by (simp add: read_at_def write_at_def False)
qed (simp add: read_at_def write_at_def)

lemma bytes_eqI: "length xs = length ys \<Longrightarrow> length xs \<le> 2 ^ 32 \<Longrightarrow> (\<And>a. read_at xs a = read_at ys a) \<Longrightarrow> xs = ys"
proof (rule nth_equalityI)
  fix i
  assume "length xs = length ys" "length xs \<le> 2 ^ 32" "\<And>a. read_at xs a = read_at ys a" "i < length xs"
  then show "xs ! i = ys ! i"
  proof -
    have "unat (of_nat i :: u32) = i"
      using \<open>i < length xs\<close> \<open>length xs \<le> 2 ^ 32\<close> by (simp add: unat_of_nat)
    then show ?thesis
      using \<open>\<And>a. read_at xs a = read_at ys a\<close> [of "of_nat i"] \<open>i < length xs\<close> \<open>length xs = length ys\<close>
      by (simp add: read_at_def)
  qed
qed

section \<open>Ordered byte maps\<close>

type_synonym byte_map = "(u32 \<times> u8) list"

fun map_put :: "u32 \<Rightarrow> u8 \<Rightarrow> byte_map \<Rightarrow> byte_map" where
  "map_put k v [] = [(k, v)]"
| "map_put k v ((a, w) # m) =
     (if k < a then (k, v) # (a, w) # m else if k = a then (k, v) # m else (a, w) # map_put k v m)"

text \<open>\<open>for(auto [address,value]:map) memory.writeRom(address,value)\<close>\<close>

definition write_back :: "byte_map \<Rightarrow> bytes \<Rightarrow> bytes" where
  "write_back m xs = fold (\<lambda>(a, v). write_at a v) m xs"

lemma map_of_put: "map_of (map_put k v m) = (map_of m)(k \<mapsto> v)"
  by (induction k v m rule: map_put.induct) auto

lemma keys_put: "fst ` set (map_put k v m) = insert k (fst ` set m)"
  by (induction k v m rule: map_put.induct) auto

lemma sorted_put:
  "sorted_wrt (<) (map fst m) \<Longrightarrow> sorted_wrt (<) (map fst (map_put k v m))"
proof (induction k v m rule: map_put.induct)
  case (2 k v a w m)
  have "set (map fst (map_put k v m)) = insert k (fst ` set m)" by (simp add: keys_put)
  with 2 show ?case by auto
qed simp

lemma length_write_back [simp]: "length (write_back m xs) = length xs"
  unfolding write_back_def by (induction m arbitrary: xs) auto

lemma read_write_back:
  assumes "distinct (map fst m)"
  shows "read_at (write_back m xs) a =
    (case map_of m a of Some v \<Rightarrow> if unat a < length xs then v else 0 | None \<Rightarrow> read_at xs a)"
  using assms
proof (induction m arbitrary: xs)
  case (Cons p m)
  obtain k v where p: "p = (k, v)" by (cases p)
  from Cons.prems have "distinct (map fst m)" "map_of m k = None"
    by (auto simp: p map_of_eq_None_iff)
  then show ?case
    using Cons.IH [of "write_at k v xs"]
    by (auto simp: p write_back_def read_write split: option.split) (simp add: read_at_def)
qed (simp add: write_back_def)

end
