(* ===== verification/Fz_Client.thy ===== *)
theory Fz_Client
  imports Fz_Protocol Fz_Events Fz_Memory
begin

text \<open>
  The client of \<^verbatim>\<open>client/fzvs_client.cpp\<close>: its state, logging, sending, the patches it applies to the
  game, the packet handler, the network tick and the per-frame state machine. Every member function
  takes the client and returns the updated one. The outside is part of the state as \<open>cl_io\<close>: the
  successive readings of the clock, the outcome of each \<open>send\<close>, the datagrams sent and the lines
  printed so far. The emulator's memory is \<open>cl_memory\<close>; \<open>cl_attached\<close> says whether the functions of
  \<open>memory\<close> are set, which \<open>attach\<close> and \<open>detach\<close> do for all of them together.
\<close>

section \<open>State\<close>

record Config =
  cf_baseline :: bool
  cf_autoNext :: bool
  cf_overlay :: bool
  cf_address :: string
  cf_key :: bytes
  cf_ownerNonce :: u64
  cf_autoCar :: int

record Peer =
  pr_status :: u8
  pr_car :: u8
  pr_orientation :: u8
  pr_x :: u16
  pr_y :: u16
  pr_seq :: u32
  pr_age :: u32

definition zero_peer :: Peer where
  "zero_peer = \<lparr>pr_status = 0, pr_car = 0, pr_orientation = 0, pr_x = 0, pr_y = 0, pr_seq = 0, pr_age = 0\<rparr>"

record View =
  vw_connected :: bool
  vw_player :: int
  vw_host :: int
  vw_expected :: int
  vw_phase :: int
  vw_track :: int
  vw_league :: int
  vw_race :: u32
  vw_rtt :: rat
  vw_jitter :: rat
  vw_loss :: rat
  vw_rxRate :: rat
  vw_txRate :: rat
  vw_kbps :: rat
  vw_fps :: rat
  vw_stale :: u64
  vw_retries :: u64
  vw_ram54 :: u8
  vw_ram55 :: u8
  vw_ram56 :: u8
  vw_x :: u16
  vw_y :: u16
  vw_patches :: nat
  vw_game :: string
  vw_message :: string
  vw_events :: string
  vw_peers :: "Peer list"

text \<open>\<open>View\<close> as its member initialisers leave it.\<close>

definition default_view :: View where
  "default_view = \<lparr>vw_connected = False, vw_player = - 1, vw_host = - 1, vw_expected = 2, vw_phase = 0,
     vw_track = 0, vw_league = 0, vw_race = 0, vw_rtt = 0, vw_jitter = 0, vw_loss = 0, vw_rxRate = 0,
     vw_txRate = 0, vw_kbps = 0, vw_fps = 0, vw_stale = 0, vw_retries = 0, vw_ram54 = 0, vw_ram55 = 0,
     vw_ram56 = 0, vw_x = 0, vw_y = 0, vw_patches = 0, vw_game = ''unloaded'',
     vw_message = ''Load the supported F-Zero US ROM'', vw_events = [], vw_peers = replicate 4 zero_peer\<rparr>"

datatype Game = Init | CarSelect | Waiting | Prepare | Location | Race | Finished | Results | Disconnected

record Pending =
  pd_packet :: fz_packet
  pd_sent :: u64

record Snapshot =
  sn_time :: u64
  sn_peers :: "Peer list"

record client_io =
  ci_clock :: "nat \<Rightarrow> u64"
  ci_readings :: nat
  ci_send_ok :: "nat \<Rightarrow> bool"
  ci_sent :: "bytes list"
  ci_printed :: "string list"

record Client =
  cl_config :: Config
  cl_attached :: bool
  cl_memory :: Memory
  cl_socket :: int
  cl_id :: int
  cl_session :: u64
  cl_token :: u64
  cl_nonce :: u64
  cl_lastRecv :: u64
  cl_lastHello :: u64
  cl_lastPing :: u64
  cl_startTime :: u64
  cl_armedTime :: u64
  cl_lastPublish :: u64
  cl_lastLog :: u64
  cl_resultsTime :: u64
  cl_race :: u32
  cl_commandSeq :: u32
  cl_stateSeq :: u32
  cl_snapshotSeq :: u32
  cl_phase :: u8
  cl_host :: u8
  cl_expected :: u8
  cl_track :: u8
  cl_league :: u8
  cl_armedMask :: u8
  cl_car :: u8
  cl_rx :: u64
  cl_tx :: u64
  cl_bytes :: u64
  cl_stale :: u64
  cl_retries :: u64
  cl_gaps :: u64
  cl_snapshots :: u64
  cl_frames :: u64
  cl_prevRx :: u64
  cl_prevTx :: u64
  cl_prevBytes :: u64
  cl_prevFrames :: u64
  cl_rateTime :: u64
  cl_rtt :: rat
  cl_jitter :: rat
  cl_offset :: rat
  cl_bestRtt :: rat
  cl_peers :: "Peer list"
  cl_snapshotBuffer :: "Snapshot list"
  cl_game :: Game
  cl_loadedSent :: bool
  cl_selectedSent :: bool
  cl_finishedSent :: bool
  cl_originals :: byte_map
  cl_titleOriginals :: byte_map
  cl_pending :: "Pending list"
  cl_published :: View
  cl_requests :: "bytes list"
  cl_events :: "string list"
  cl_message :: string
  cl_io :: client_io

section \<open>Clock, log, requests\<close>

definition client_now :: "Client \<Rightarrow> u64 \<times> Client" where
  "client_now s =
     (ci_clock (cl_io s) (ci_readings (cl_io s)),
      s\<lparr>cl_io := (cl_io s)\<lparr>ci_readings := ci_readings (cl_io s) + 1\<rparr>\<rparr>)"

definition print_line :: "string \<Rightarrow> Client \<Rightarrow> Client" where
  "print_line text s = s\<lparr>cl_io := (cl_io s)\<lparr>ci_printed := ci_printed (cl_io s) @ [text]\<rparr>\<rparr>"

definition client_log :: "string \<Rightarrow> Client \<Rightarrow> Client" where
  "client_log text s =
     (let s = s\<lparr>cl_message := text\<rparr>;
          (t, s) = client_now s;
          s = print_line (fmt_u (unat t) @ '' FZVS race='' @ fmt_u (unat (cl_race s)) @ '' player=''
                @ fmt_d (cl_id s + 1) @ '' '' @ text @ ''\<newline>'') s;
          events = cl_events s @ [text]
      in s\<lparr>cl_events := (if length events > 12 then tl events else events)\<rparr>)"

definition game_name :: "Game \<Rightarrow> string" where
  "game_name g = (case g of Init \<Rightarrow> ''init'' | CarSelect \<Rightarrow> ''car-select'' | Waiting \<Rightarrow> ''waiting''
     | Prepare \<Rightarrow> ''prepare'' | Location \<Rightarrow> ''location-load'' | Race \<Rightarrow> ''racing''
     | Finished \<Rightarrow> ''finished'' | Results \<Rightarrow> ''results'' | Disconnected \<Rightarrow> ''disconnected'')"

definition change :: "Game \<Rightarrow> Client \<Rightarrow> Client" where
  "change nxt s =
     (if cl_game s \<noteq> nxt
      then (client_log (''game='' @ game_name (cl_game s) @ ''->'' @ game_name nxt) s)\<lparr>cl_game := nxt\<rparr>
      else s)"

definition request :: "u8 \<Rightarrow> bytes \<Rightarrow> Client \<Rightarrow> Client" where
  "request command data s =
     (if length (cl_requests s) < 8 then s\<lparr>cl_requests := cl_requests s @ [command # data]\<rparr> else s)"

section \<open>Memory and patches\<close>

definition ram :: "Client \<Rightarrow> u32 \<Rightarrow> u8" where
  "ram s a = read_at (mem_ram (cl_memory s)) a"

definition rom :: "Client \<Rightarrow> u32 \<Rightarrow> u8" where
  "rom s a = read_at (mem_rom (cl_memory s)) a"

definition poke_ram :: "u32 \<Rightarrow> u8 \<Rightarrow> Client \<Rightarrow> Client" where
  "poke_ram a v s = s\<lparr>cl_memory := writeRam a v (cl_memory s)\<rparr>"

definition poke_rom :: "u32 \<Rightarrow> u8 \<Rightarrow> Client \<Rightarrow> Client" where
  "poke_rom a v s = s\<lparr>cl_memory := writeRom a v (cl_memory s)\<rparr>"

text \<open>\<open>if(memory.reset) memory.reset()\<close>\<close>

definition power_cycle :: "Client \<Rightarrow> Client" where
  "power_cycle s = (if cl_attached s then s\<lparr>cl_memory := mem_reset (cl_memory s)\<rparr> else s)"

fun patch :: "u32 \<Rightarrow> bytes \<Rightarrow> Client \<Rightarrow> Client" where
  "patch address [] s = s"
| "patch address (v # values) s =
     (let s = (if map_of (cl_originals s) address = None
               then s\<lparr>cl_originals := map_put address (rom s address) (cl_originals s)\<rparr> else s)
      in patch (address + 1) values (poke_rom address v s))"

definition restore :: "Client \<Rightarrow> Client" where
  "restore s =
     (let s = (if cl_attached s
               then s\<lparr>cl_memory := (cl_memory s)\<lparr>mem_rom := write_back (cl_originals s) (mem_rom (cl_memory s))\<rparr>\<rparr>
               else s)
      in s\<lparr>cl_originals := []\<rparr>)"

definition restoreTitle :: "Client \<Rightarrow> Client" where
  "restoreTitle s =
     (let s = (if cl_attached s
               then s\<lparr>cl_memory := (cl_memory s)\<lparr>mem_rom := write_back (cl_titleOriginals s) (mem_rom (cl_memory s))\<rparr>\<rparr>
               else s)
      in s\<lparr>cl_titleOriginals := []\<rparr>)"

definition clearSnapshotBuffer :: "Client \<Rightarrow> Client" where
  "clearSnapshotBuffer s = s\<lparr>cl_snapshotBuffer := []\<rparr>"

definition resetGame :: "Client \<Rightarrow> Client" where
  "resetGame s =
     (let s = clearSnapshotBuffer (power_cycle (restore s))
      in s\<lparr>cl_game := Init, cl_selectedSent := False, cl_loadedSent := False, cl_finishedSent := False,
           cl_armedTime := 0, cl_startTime := 0, cl_car := 0\<rparr>)"

definition word_at :: "Client \<Rightarrow> u32 \<Rightarrow> u16" where
  "word_at s a = ucast (ram s a) OR push_bit 8 (ucast (ram s (a + 1)))"

definition putWord :: "u32 \<Rightarrow> u16 \<Rightarrow> Client \<Rightarrow> Client" where
  "putWord a v s = poke_ram (a + 1) (ucast (drop_bit 8 v)) (poke_ram a (ucast v) s)"

definition position :: "u8 \<Rightarrow> Client \<Rightarrow> bytes" where
  "position command s = command # fz_put16 (word_at s 0xb70) @ fz_put16 (word_at s 0xb90) @ [ram s 0xbd1]"

section \<open>Publishing\<close>

text \<open>\<open>%02x\<close> of a byte.\<close>

definition fmt_x2 :: "u8 \<Rightarrow> string" where
  "fmt_x2 v = [''0123456789abcdef'' ! unat (drop_bit 4 v), ''0123456789abcdef'' ! unat (v AND 15)]"

definition publish :: "Client \<Rightarrow> Client" where
  "publish s =
     (let v = default_view\<lparr>
            vw_connected := (cl_id s \<ge> 0 \<and> cl_game s \<noteq> Disconnected), vw_player := cl_id s,
            vw_host := int (unat (cl_host s)), vw_expected := int (unat (cl_expected s)),
            vw_phase := int (unat (cl_phase s)), vw_race := cl_race s, vw_track := int (unat (cl_track s)),
            vw_league := int (unat (cl_league s)), vw_rtt := cl_rtt s, vw_jitter := cl_jitter s,
            vw_stale := cl_stale s, vw_retries := cl_retries s,
            vw_loss := (if cl_snapshots s + cl_gaps s \<noteq> 0
              then fl (fl (100 * double_of_u64 (cl_gaps s)) / double_of_u64 (cl_snapshots s + cl_gaps s))
              else 0),
            vw_peers := cl_peers s, vw_message := cl_message s, vw_patches := length (cl_originals s),
            vw_game := game_name (cl_game s)\<rparr>;
          v = (if cl_attached s
               then v\<lparr>vw_ram54 := ram s 0x54, vw_ram55 := ram s 0x55, vw_ram56 := ram s 0x56,
                      vw_x := word_at s 0xb70, vw_y := word_at s 0xb90\<rparr> else v);
          (t, s) = client_now s;
          elapsed = fl (double_of_u64 (t - cl_rateTime s) / 1000000);
          v = (if elapsed > 0
               then v\<lparr>vw_rxRate := fl (double_of_u64 (cl_rx s - cl_prevRx s) / elapsed),
                      vw_txRate := fl (double_of_u64 (cl_tx s - cl_prevTx s) / elapsed),
                      vw_kbps := fl (fl (double_of_u64 (cl_bytes s - cl_prevBytes s) / elapsed) / 1024),
                      vw_fps := fl (double_of_u64 (cl_frames s - cl_prevFrames s) / elapsed)\<rparr> else v);
          s = s\<lparr>cl_prevRx := cl_rx s, cl_prevTx := cl_tx s, cl_prevBytes := cl_bytes s,
                cl_prevFrames := cl_frames s, cl_rateTime := t, cl_lastPublish := t\<rparr>;
          s = (if t - cl_lastLog s > 5000000
               then print_line (fmt_u (unat t) @ '' FZVS race='' @ fmt_u (unat (cl_race s)) @ '' player=''
                      @ fmt_d (cl_id s + 1) @ '' stats game='' @ vw_game v @ '' ram='' @ fmt_x2 (vw_ram54 v)
                      @ ''/'' @ fmt_x2 (vw_ram55 v) @ ''/'' @ fmt_x2 (vw_ram56 v) @ '' fps='' @ fmt_f1 (vw_fps v)
                      @ '' rtt_ms='' @ fmt_f1 (vw_rtt v) @ '' jitter_ms='' @ fmt_f1 (vw_jitter v) @ '' loss=''
                      @ fmt_f1 (vw_loss v) @ '' rx_pps='' @ fmt_f1 (vw_rxRate v) @ '' tx_pps=''
                      @ fmt_f1 (vw_txRate v) @ '' x='' @ fmt_u (unat (vw_x v)) @ '' y='' @ fmt_u (unat (vw_y v))
                      @ ''\<newline>'') (s\<lparr>cl_lastLog := t\<rparr>)
               else s);
          v = v\<lparr>vw_events := concat (map (\<lambda>e. e @ ''\<newline>'') (cl_events s))\<rparr>
      in s\<lparr>cl_published := v\<rparr>)"

definition view :: "Client \<Rightarrow> View" where
  "view s = cl_published s"

definition failure :: "string \<Rightarrow> Client \<Rightarrow> Client" where
  "failure text s =
     (let s = power_cycle (clearSnapshotBuffer (restoreTitle (restore s)));
          s = (if cl_socket s \<ge> 0 then s\<lparr>cl_socket := - 1\<rparr> else s)
      in publish (client_log text (change Disconnected s)))"

section \<open>Sending\<close>

definition client_send :: "fz_packet \<Rightarrow> Client \<Rightarrow> Client" where
  "client_send packet s =
     (let data = fz_encode FZ_MAX_PACKET (packet\<lparr>pk_session := cl_session s, pk_token := cl_token s,
                   pk_race := cl_race s\<rparr>);
          sent = ci_sent (cl_io s)
      in if cl_socket s \<ge> 0
         then let s' = s\<lparr>cl_io := (cl_io s)\<lparr>ci_sent := sent @ [data]\<rparr>\<rparr>
           in if ci_send_ok (cl_io s) (length sent)
              then s'\<lparr>cl_tx := cl_tx s + 1, cl_bytes := cl_bytes s + of_nat (length data)\<rparr> else s'
         else s)"

definition queue :: "bytes \<Rightarrow> Client \<Rightarrow> Client" where
  "queue command s =
     (if cl_id s < 0 \<or> length (cl_pending s) \<ge> 8 \<or> length command > FZ_PAYLOAD then s
      else let s = s\<lparr>cl_commandSeq := cl_commandSeq s + 1\<rparr>
        in s\<lparr>cl_pending := cl_pending s @ [\<lparr>pd_packet = zero_packet\<lparr>pk_type := FZ_COMMAND,
               pk_seq := cl_commandSeq s, pk_length := of_nat (length command), pk_payload := fill command\<rparr>,
               pd_sent = 0\<rparr>]\<rparr>)"

end
