(* ===== verification/Fz_Client_Title.thy ===== *)
theory Fz_Client_Title
  imports Fz_Client
begin

text \<open>
  The title menu entry the client draws into the cartridge image (\<open>Client::patchTitleMenu\<close>): five
  glyphs of 8 by 16 pixels, encoded as ten planar 4-bit tiles.
\<close>

section \<open>The glyphs\<close>

definition glyphs :: "(char \<times> string list) list" where
  "glyphs = [
    (CHR ''I'', [''..5555..'',''.533335.'',''.553355.'',''..5335..'',''..5335..'',''..5335..'',''..5225..'',''..5115..'',
      ''..5225..'',''..5335..'',''..5445..'',''..5335..'',''..5335..'',''.553355.'',''.533335.'',''.555555.'']),
    (CHR ''L'', [''5555....'',''5335....'',''5335....'',''5335....'',''5335....'',''5335....'',''5225....'',''5115....'',
      ''5225....'',''5335....'',''5445....'',''5335....'',''5335....'',''53355555'',''53333335'',''55555555'']),
    (CHR ''M'', [''55555555'',''53333335'',''53333335'',''53355335'',''53333335'',''53355335'',''52255225'',''51155115'',
      ''52255225'',''53355335'',''54455445'',''53355335'',''53355335'',''53355335'',''53355335'',''55555555'']),
    (CHR ''T'', [''55555555'',''53333335'',''55533555'',''..5335..'',''..5335..'',''..5335..'',''..5225..'',''..5115..'',
      ''..5225..'',''..5335..'',''..5445..'',''..5335..'',''..5335..'',''..5335..'',''.533335.'',''.555555.'']),
    (CHR ''U'', [''55555555'',''53355335'',''53355335'',''53355335'',''53355335'',''53355335'',''52255225'',''51155115'',
      ''52255225'',''53355335'',''54455445'',''53355335'',''53355335'',''53333335'',''.533335.'',''.555555.''])]"

definition glyph :: "char \<Rightarrow> string list option" where
  "glyph character = map_of glyphs character"

section \<open>Drawing\<close>

text \<open>\<open>pixels[y][x]\<close>: sixteen rows of eighty colours.\<close>

type_synonym canvas = "u8 list list"

definition draw_cell :: "string list \<Rightarrow> nat \<Rightarrow> nat \<Rightarrow> nat \<Rightarrow> canvas \<Rightarrow> canvas" where
  "draw_cell rows cursor y x pixels =
     (let cell = rows ! y ! x
      in if cell \<noteq> CHR ''.''
         then pixels[y := (pixels ! y)[cursor + x := of_nat (of_char cell - 48)]] else pixels)"

definition draw_glyph :: "string list \<Rightarrow> nat \<Rightarrow> canvas \<Rightarrow> canvas" where
  "draw_glyph rows cursor pixels =
     fold (\<lambda>y. fold (\<lambda>x. draw_cell rows cursor y x) [0..<8]) [0..<16] pixels"

fun draw_text :: "string \<Rightarrow> nat \<Rightarrow> canvas \<Rightarrow> canvas" where
  "draw_text [] cursor pixels = pixels"
| "draw_text (letter # text) cursor pixels =
     (case glyph letter of None \<Rightarrow> draw_text text cursor pixels
      | Some rows \<Rightarrow> draw_text text (cursor + 8) (draw_glyph rows cursor pixels))"

definition title_pixels :: canvas where
  "title_pixels = draw_text ''MULTI'' 0 (replicate 16 (replicate 80 0))"

section \<open>Planar tiles\<close>

text \<open>One pixel's contribution: bit \<open>7 - x\<close> of the plane's byte of row \<open>y\<close>.\<close>

definition encode_pixel :: "u8 \<Rightarrow> nat \<Rightarrow> nat \<Rightarrow> bytes \<Rightarrow> bytes" where
  "encode_pixel color y x encoded =
     fold (\<lambda>plane encoded.
       if drop_bit plane color AND 1 \<noteq> 0
       then let k = (plane div 2) * 16 + y * 2 + plane mod 2
         in encoded[k := encoded ! k OR push_bit (7 - x) 1]
       else encoded) [0..<4] encoded"

definition encode_tile :: "(nat \<Rightarrow> nat \<Rightarrow> u8) \<Rightarrow> bytes" where
  "encode_tile color =
     fold (\<lambda>y. fold (\<lambda>x. encode_pixel (color y x) y x) [0..<8]) [0..<8] (replicate 32 0)"

fun put_title :: "u32 \<Rightarrow> bytes \<Rightarrow> Client \<Rightarrow> Client" where
  "put_title address [] s = s"
| "put_title address (v # values) s =
     put_title (address + 1) values
       (poke_rom address v
         (s\<lparr>cl_titleOriginals := map_put address (rom s address) (cl_titleOriginals s)\<rparr>))"

definition patchTile :: "canvas \<Rightarrow> nat \<Rightarrow> nat \<Rightarrow> u32 \<Rightarrow> Client \<Rightarrow> Client" where
  "patchTile pixels tileX tileY address s =
     put_title address (encode_tile (\<lambda>y x. pixels ! (tileY * 8 + y) ! (tileX * 8 + x))) s"

definition patchTitleMenu :: "Client \<Rightarrow> Client" where
  "patchTitleMenu s =
     (if \<not> cl_attached s \<or> cl_titleOriginals s \<noteq> [] then s
      else fold (\<lambda>x s. patchTile title_pixels x 1 (0x67a00 + of_nat x * 32)
                  (patchTile title_pixels x 0 (0x67800 + of_nat x * 32) s)) [0..<5] s)"

end
