(* ===== verification/Fz_Client_Render.thy ===== *)
theory Fz_Client_Render
  imports Fz_Client
begin

text \<open>
  Smoothing the movement of the opponents (\<open>interpolationDelay\<close>, \<open>renderedPeers\<close>, \<open>bufferSnapshot\<close> of
  \<^verbatim>\<open>client/fzvs_client.cpp\<close>): the client renders a little behind the server's time and interpolates
  between the two snapshots around that time, in double arithmetic.
\<close>

section \<open>Model\<close>

text \<open>A conversion of a double to an integer type drops the fraction.\<close>

definition trunc :: "rat \<Rightarrow> int" where
  "trunc x = (if x < 0 then - \<lfloor>- x\<rfloor> else \<lfloor>x\<rfloor>)"

definition clamp :: "rat \<Rightarrow> rat \<Rightarrow> rat \<Rightarrow> rat" where
  "clamp v lo hi = (if v < lo then lo else if hi < v then hi else v)"

definition interpolationDelay :: "Client \<Rightarrow> u64" where
  "interpolationDelay s = of_int (trunc (fl (clamp (fl (50 + fl (2 * cl_jitter s))) 50 100 * 1000)))"

definition blend :: "rat \<Rightarrow> u16 \<Rightarrow> u16 \<Rightarrow> u16" where
  "blend fraction a b =
     of_int (lround (fl (of_nat (unat a) + fl (fl (of_nat (unat b) - of_nat (unat a)) * fraction))))"

definition turn_between :: "u8 \<Rightarrow> u8 \<Rightarrow> int" where
  "turn_between a b =
     (let turn = int (unat b) - int (unat a)
      in if turn > 127 then turn - 256 else if turn < - 128 then turn + 256 else turn)"

definition blend_turn :: "rat \<Rightarrow> u8 \<Rightarrow> u8 \<Rightarrow> u8" where
  "blend_turn fraction a b =
     of_int (lround (fl (of_nat (unat a) + fl (of_int (turn_between a b) * fraction))) AND 255)"

definition blend_peer :: "rat \<Rightarrow> Peer \<Rightarrow> Peer \<Rightarrow> Peer" where
  "blend_peer fraction a b =
     a\<lparr>pr_x := blend fraction (pr_x a) (pr_x b), pr_y := blend fraction (pr_y a) (pr_y b),
       pr_orientation := blend_turn fraction (pr_orientation a) (pr_orientation b)\<rparr>"

definition fraction_at :: "u64 \<Rightarrow> Snapshot \<Rightarrow> Snapshot \<Rightarrow> rat" where
  "fraction_at renderTime before after =
     fl (double_of_u64 (renderTime - sn_time before) / double_of_u64 (sn_time after - sn_time before))"

text \<open>The loop over neighbouring snapshots; the first pair whose later one is not before the render time.\<close>

fun interpolate :: "u64 \<Rightarrow> Snapshot list \<Rightarrow> Peer list option" where
  "interpolate renderTime (before # after # rest) =
     (if renderTime > sn_time after then interpolate renderTime (after # rest)
      else Some (map (\<lambda>i. blend_peer (fraction_at renderTime before after) (sn_peers before ! i)
                   (sn_peers after ! i)) [0..<4]))"
| "interpolate renderTime _ = None"

definition renderedPeers :: "u64 \<Rightarrow> Client \<Rightarrow> Peer list" where
  "renderedPeers serverTime s =
     (let buffer = cl_snapshotBuffer s
      in if buffer = [] then cl_peers s
         else let delay = interpolationDelay s;
                  renderTime = (if serverTime > delay then serverTime - delay else 0)
           in if renderTime \<le> sn_time (hd buffer) then sn_peers (hd buffer)
              else if renderTime \<ge> sn_time (last buffer) then sn_peers (last buffer)
              else case interpolate renderTime buffer of
                Some peers \<Rightarrow> peers | None \<Rightarrow> sn_peers (last buffer))"

abbreviation (input) FZ_SNAPSHOT_BUFFER_CAPACITY :: nat where "FZ_SNAPSHOT_BUFFER_CAPACITY \<equiv> 16"

text \<open>\<open>while(size()>CAPACITY) pop_front()\<close> keeps the newest.\<close>

definition bufferSnapshot :: "u64 \<Rightarrow> Client \<Rightarrow> Client" where
  "bufferSnapshot serverTime s =
     s\<lparr>cl_snapshotBuffer := newest FZ_SNAPSHOT_BUFFER_CAPACITY
         (cl_snapshotBuffer s @ [\<lparr>sn_time = serverTime, sn_peers = cl_peers s\<rparr>])\<rparr>"

end
