(* ===== verification/Fz_Client_Net.thy ===== *)
theory Fz_Client_Net
  imports Fz_Client_Title Fz_Client_Render
begin

text \<open>
  The network side of the client (\<^verbatim>\<open>client/fzvs_client.cpp\<close>): attaching to a server, the packet handler,
  the network tick and detaching.
\<close>

section \<open>Receiving\<close>

definition reject_reason :: "u8 \<Rightarrow> string" where
  "reject_reason r =
     (let reasons = [''Join rejected'', ''Incorrect room password'', ''Room is full'', ''Race is already underway'',
            ''Host is still starting'', ''Incompatible network protocol'']
      in if r \<le> FZ_REJECT_VERSION then reasons ! unat r else reasons ! 0)"

definition colors :: "string list" where
  "colors = [''Pink'', ''Blue'', ''Green'', ''Yellow'']"

definition accept_welcome :: "u64 \<Rightarrow> fz_packet \<Rightarrow> Client \<Rightarrow> Client" where
  "accept_welcome t p s =
     (let s = s\<lparr>cl_id := int (unat (pk_payload p ! 0)), cl_session := pk_session p, cl_token := pk_token p,
               cl_race := pk_race p, cl_commandSeq := pk_ack p, cl_lastRecv := t\<rparr>
      in client_log (''Joined as P'' @ fmt_d (cl_id s + 1) @ '' ('' @ colors ! nat (cl_id s) @ '')'') s)"

definition accept_pong :: "u64 \<Rightarrow> fz_packet \<Rightarrow> Client \<Rightarrow> Client" where
  "accept_pong t p s =
     (let sent = fz_u64 (pk_payload p)
      in if sent > t \<or> t - sent > 5000000 then s
         else let sample = fl (double_of_u64 (t - sent) / 1000);
                  s = s\<lparr>cl_jitter := fl (fl (fl (9 / 10) * cl_jitter s) + fl (fl (1 / 10) * \<bar>fl (sample - cl_rtt s)\<bar>))\<rparr>;
                  s = s\<lparr>cl_rtt := (if cl_rtt s \<noteq> 0
                        then fl (fl (cl_rtt s * fl (8 / 10)) + fl (sample * fl (2 / 10))) else sample)\<rparr>;
                  s = (if sample < cl_bestRtt s
                       then s\<lparr>cl_bestRtt := sample,
                              cl_offset := fl (double_of_u64 (fz_u64 (drop 8 (pk_payload p)))
                                - fl (fl (double_of_u64 sent + double_of_u64 t) / 2))\<rparr> else s)
           in s\<lparr>cl_lastRecv := t\<rparr>)"

definition valid_snapshot :: "fz_packet \<Rightarrow> bool" where
  "valid_snapshot p \<longleftrightarrow>
     \<not> (pk_type p \<noteq> FZ_SNAPSHOT \<or> unat (pk_length p) \<noteq> FZ_SNAPSHOT_SIZE \<or> pk_payload p ! 0 > FZ_RESULTS
       \<or> pk_payload p ! 1 < 2 \<or> pk_payload p ! 1 > 4 \<or> (pk_payload p ! 2 > 3 \<and> pk_payload p ! 2 \<noteq> 255)
       \<or> pk_payload p ! 3 > 4 \<or> pk_payload p ! 4 > 2)
     \<and> list_all (\<lambda>i. \<not> (pk_payload p ! (24 + i * 16) > FZ_DISCONNECTED \<or> pk_payload p ! (25 + i * 16) > 3)) [0..<4]"

definition peer_record :: "bytes \<Rightarrow> Peer" where
  "peer_record q = \<lparr>pr_status = q ! 0, pr_car = q ! 1, pr_orientation = q ! 6, pr_x = fz_u16 (drop 2 q),
     pr_y = fz_u16 (drop 4 q), pr_seq = fz_u32 (drop 8 q), pr_age = fz_u32 (drop 12 q)\<rparr>"

definition new_race :: "fz_packet \<Rightarrow> Client \<Rightarrow> Client" where
  "new_race p s =
     (if pk_race p \<noteq> cl_race s
      then client_log ''New race lobby''
        (resetGame (s\<lparr>cl_race := pk_race p, cl_commandSeq := pk_ack p, cl_stateSeq := 0, cl_pending := []\<rparr>))
      else s)"

definition load_snapshot :: "fz_packet \<Rightarrow> Client \<Rightarrow> Client" where
  "load_snapshot p s =
     s\<lparr>cl_phase := pk_payload p ! 0, cl_expected := pk_payload p ! 1, cl_host := pk_payload p ! 2,
       cl_track := pk_payload p ! 3, cl_league := pk_payload p ! 4, cl_armedMask := pk_payload p ! 5,
       cl_startTime := fz_u64 (drop 16 (pk_payload p)),
       cl_peers := map (\<lambda>i. peer_record (drop (24 + i * 16) (pk_payload p))) [0..<4]\<rparr>"

definition arm_start :: "Client \<Rightarrow> Client" where
  "arm_start s =
     (if cl_phase s = FZ_COUNTDOWN \<and> cl_startTime s \<noteq> cl_armedTime s
      then (queue (FZ_ARM # fz_put64 (cl_startTime s)) s)\<lparr>cl_armedTime := cl_startTime s\<rparr> else s)"

text \<open>Counting the snapshots that went missing, and dropping the commands it acknowledges.\<close>

definition note_snapshot :: "u64 \<Rightarrow> fz_packet \<Rightarrow> Client \<Rightarrow> Client" where
  "note_snapshot t p s =
     (let s = (if cl_snapshotSeq s \<noteq> 0
               then let delta = pk_seq p - cl_snapshotSeq s
                 in if delta < 10000 then s\<lparr>cl_gaps := cl_gaps s + ucast (delta - 1)\<rparr> else s
               else s)
      in s\<lparr>cl_snapshotSeq := pk_seq p, cl_snapshots := cl_snapshots s + 1, cl_lastRecv := t\<rparr>)"

definition acknowledge :: "u32 \<Rightarrow> Client \<Rightarrow> Client" where
  "acknowledge ack s =
     s\<lparr>cl_pending := dropWhile (\<lambda>d. ack = pk_seq (pd_packet d) \<or> fz_newer ack (pk_seq (pd_packet d))) (cl_pending s)\<rparr>"

definition accept_snapshot :: "u64 \<Rightarrow> fz_packet \<Rightarrow> Client \<Rightarrow> Client" where
  "accept_snapshot t p s =
     (if \<not> fz_newer (pk_seq p) (cl_snapshotSeq s)
         \<or> (pk_race p \<noteq> cl_race s \<and> \<not> fz_newer (pk_race p) (cl_race s)) then s\<lparr>cl_stale := cl_stale s + 1\<rparr>
      else let s = acknowledge (pk_ack p) (note_snapshot t p s);
               s = load_snapshot p (new_race p s);
               s = bufferSnapshot (fz_u64 (drop 8 (pk_payload p))) s
        in arm_start s)"

definition client_receive :: "fz_packet \<Rightarrow> Client \<Rightarrow> Client" where
  "client_receive p s =
     (let (t, s) = client_now s
      in if cl_id s < 0 \<and> pk_type p = FZ_JOIN_REJECT \<and> pk_length p = 9 \<and> fz_u64 (pk_payload p) = cl_nonce s
         then failure (reject_reason (pk_payload p ! 8)) s
         else if pk_type p = FZ_WELCOME \<and> pk_length p = 9 \<and> fz_u64 (drop 1 (pk_payload p)) = cl_nonce s
           \<and> pk_payload p ! 0 < 4 \<and> pk_session p \<noteq> 0 \<and> pk_token p \<noteq> 0
         then (if cl_id s \<ge> 0 then s else accept_welcome t p s)
         else if cl_id s < 0 \<or> pk_session p \<noteq> cl_session s \<or> pk_token p \<noteq> cl_token s then s
         else if pk_type p = FZ_ROOM_CLOSED \<and> pk_length p = 1 then failure ''Host closed the room'' s
         else if pk_type p = FZ_PING \<and> pk_length p = 8
         then (client_send (zero_packet\<lparr>pk_type := FZ_PONG, pk_length := 8,
                 pk_payload := fill (take 8 (pk_payload p))\<rparr>) s)\<lparr>cl_lastRecv := t\<rparr>
         else if pk_type p = FZ_PONG \<and> pk_length p = 16 then accept_pong t p s
         else let s = (if pk_type p = FZ_ERROR \<and> pk_length p = 2
                       then client_log (''Server rejected command '' @ fmt_u (unat (pk_payload p ! 0))
                              @ '' (state changed or action unavailable)'') s else s)
           in if \<not> valid_snapshot p then s else accept_snapshot t p s)"

section \<open>The network tick\<close>

text \<open>The datagrams \<open>recv\<close> has to give, in order; afterwards, and once the socket is closed, it fails.\<close>

fun tick_receive :: "nat \<Rightarrow> bytes list \<Rightarrow> Client \<Rightarrow> Client" where
  "tick_receive 0 ds s = s"
| "tick_receive (Suc budget) ds s =
     (case ds of
        [] \<Rightarrow> s
      | d # ds \<Rightarrow>
          if cl_socket s < 0 then s
          else let data = take (FZ_MAX_PACKET + 1) d
            in tick_receive budget ds
                 (case fz_decode data of
                    None \<Rightarrow> s
                  | Some p \<Rightarrow> client_receive p
                      (s\<lparr>cl_rx := cl_rx s + 1, cl_bytes := cl_bytes s + of_nat (length data)\<rparr>)))"

definition hello_packet :: "Client \<Rightarrow> fz_packet" where
  "hello_packet s =
     (let key = cf_key (cl_config s)
      in zero_packet\<lparr>pk_type := FZ_HELLO, pk_length := of_nat (9 + length key),
           pk_payload := fill (fz_put64 (cl_nonce s) @ of_nat (length key) # key)\<rparr>)"

definition send_front :: "u64 \<Rightarrow> Client \<Rightarrow> Client" where
  "send_front t s =
     (case cl_pending s of
        [] \<Rightarrow> s
      | d # ds \<Rightarrow>
          if t - pd_sent d \<ge> 250000
          then let s = (if pd_sent d \<noteq> 0 then s\<lparr>cl_retries := cl_retries s + 1\<rparr> else s);
                   s = client_send (pd_packet d) s
            in s\<lparr>cl_pending := d\<lparr>pd_sent := t\<rparr> # ds\<rparr>
          else s)"

definition tick_joining :: "u64 \<Rightarrow> Client \<Rightarrow> Client" where
  "tick_joining t s =
     (if t - cl_lastHello s > 250000 then (client_send (hello_packet s) s)\<lparr>cl_lastHello := t\<rparr> else s)"

definition tick_joined :: "u64 \<Rightarrow> Client \<Rightarrow> Client" where
  "tick_joined t s =
     (let actions = cl_requests s;
          s = fold queue actions (s\<lparr>cl_requests := []\<rparr>);
          s = send_front t s
      in if t - cl_lastPing s \<ge> 500000
         then (client_send (zero_packet\<lparr>pk_type := FZ_PING, pk_length := 8, pk_payload := fill (fz_put64 t)\<rparr>) s)
           \<lparr>cl_lastPing := t\<rparr>
         else s)"

definition tick_timeout :: "u64 \<Rightarrow> Client \<Rightarrow> Client" where
  "tick_timeout t s =
     (if t - cl_lastRecv s > (if cl_id s < 0 then 10000000 else 5000000)
      then failure (if cl_id s < 0 then ''Join timed out: check server, room key, or room availability''
                    else ''Server connection lost; leave and reconnect for the next lobby'') s
      else s)"

definition tick :: "bytes list \<Rightarrow> Client \<Rightarrow> Client" where
  "tick ds s =
     (if cl_socket s < 0 \<or> cl_game s = Disconnected then s
      else let (t, s) = client_now s;
               s = tick_receive 128 ds s
        in if cl_socket s < 0 \<or> cl_game s = Disconnected then s
           else let (t, s) = client_now s;
                    s = (if cl_id s < 0 then tick_joining t s else tick_joined t s);
                    s = tick_timeout t s
             in if t - cl_lastPublish s \<ge> 200000 then publish s else s)"

section \<open>Attaching and detaching\<close>

definition detach :: "Client \<Rightarrow> Client" where
  "detach s =
     (let s = (if cl_socket s \<ge> 0
               then let s = (if cl_id s \<ge> 0 \<and> cl_pending s = []
                             then let s = s\<lparr>cl_commandSeq := cl_commandSeq s + 1\<rparr>
                               in client_send (zero_packet\<lparr>pk_type := FZ_COMMAND, pk_seq := cl_commandSeq s,
                                    pk_length := 1, pk_payload := fill [FZ_LEAVE]\<rparr>) s
                             else s)
                 in s\<lparr>cl_socket := - 1\<rparr>
               else s);
          s = restoreTitle (restore s);
          s = clearSnapshotBuffer (s\<lparr>cl_attached := False, cl_id := - 1, cl_pending := []\<rparr>)
      in s\<lparr>cl_game := Init, cl_requests := [], cl_published := default_view\<rparr>)"

text \<open>
  What the system answers while attaching: \<open>getaddrinfo\<close>, \<open>socket\<close>, \<open>connect\<close>, \<open>fcntl\<close>, the random device. A
  short read of the random device may leave part of the nonce overwritten; as the client gives up then
  and draws the nonce again when it next attaches, the nonce is left as it was.
\<close>

record attach_env =
  ae_resolves :: bool
  ae_socket :: int
  ae_connects :: bool
  ae_nonblock :: bool
  ae_random :: "u64 option"

text \<open>The state a new session starts from, once there is a socket and a nonce.\<close>

definition begin_session :: "u64 \<Rightarrow> Client \<Rightarrow> Client" where
  "begin_session random s =
     (let s = s\<lparr>cl_nonce := (if cf_ownerNonce (cl_config s) \<noteq> 0 then cf_ownerNonce (cl_config s) else random)\<rparr>;
          s = s\<lparr>cl_session := 0, cl_token := 0, cl_id := - 1, cl_race := 0, cl_commandSeq := 0,
                cl_stateSeq := 0, cl_snapshotSeq := 0, cl_phase := FZ_LOBBY\<rparr>;
          (t, s) = client_now s
      in s\<lparr>cl_lastRecv := t, cl_rateTime := t, cl_lastHello := 0, cl_lastPing := 0,
           cl_lastPublish := 0, cl_frames := 0, cl_bestRtt := 1000000000000, cl_rx := 0, cl_tx := 0,
           cl_bytes := 0, cl_stale := 0, cl_retries := 0, cl_gaps := 0, cl_snapshots := 0,
           cl_prevRx := 0, cl_prevTx := 0, cl_prevBytes := 0, cl_prevFrames := 0, cl_rtt := 0,
           cl_jitter := 0, cl_offset := 0, cl_peers := replicate 4 zero_peer, cl_pending := []\<rparr>)"

definition attach :: "Memory \<Rightarrow> attach_env \<Rightarrow> Client \<Rightarrow> bool \<times> Client" where
  "attach m env s =
     (let s = (detach s)\<lparr>cl_memory := m, cl_attached := True\<rparr>
      in if CHR '':'' \<notin> set (cf_address (cl_config s)) \<or> length (cf_key (cl_config s)) > FZ_KEY_MAX
         then (False, failure ''Invalid server address or room key length'' s)
         else if \<not> ae_resolves env then (False, failure ''Cannot resolve server address'' s)
         else let s = s\<lparr>cl_socket := ae_socket env\<rparr>
           in if \<not> (cl_socket s \<ge> 0 \<and> ae_connects env \<and> ae_nonblock env)
              then (False, failure ''Cannot open UDP connection'' (s\<lparr>cl_socket := - 1\<rparr>))
              else case ae_random env of
                None \<Rightarrow> (False, failure ''Cannot create session nonce'' s)
              | Some random \<Rightarrow>
                  let s = resetGame (patchTitleMenu (begin_session random s))
                  in (True, publish (client_log (''Connecting to '' @ cf_address (cl_config s)) s)))"

end
