(* ===== verification/Fz_Client_Frame.thy ===== *)
theory Fz_Client_Frame
  imports Fz_Client_Net
begin

text \<open>
  The game side of the client (\<^verbatim>\<open>client/fzvs_client.cpp\<close>): what it does to the running game once per
  emulated frame: following the game through its menus, patching it for a race of four, reporting
  the own machine and placing the opponents.
\<close>

section \<open>Tables\<close>

definition slots :: "nat list list" where
  "slots = [[0, 3, 2, 1], [1, 3, 2, 0], [2, 3, 1, 0], [3, 2, 1, 0]]"

definition selector :: "u8 list" where
  "selector = [3, 0, 1, 2]"

definition palettes :: "u8 list list" where
  "palettes = [[14, 12, 10, 8], [8, 12, 10, 14], [10, 12, 8, 14], [12, 10, 8, 14]]"

definition slot_player :: "Client \<Rightarrow> nat \<Rightarrow> nat" where
  "slot_player s slot = slots ! nat (cl_id s) ! slot"

section \<open>Preparing a race\<close>

definition prepare_slot :: "nat \<Rightarrow> Client \<Rightarrow> Client" where
  "prepare_slot slot s =
     (let s = (if slot \<noteq> 0
               then poke_ram (0x1131 + of_nat slot * 2) (pr_car (cl_peers s ! slot_player s slot)) s else s)
      in poke_ram (0xc41 + of_nat slot * 2) (palettes ! nat (cl_id s) ! slot) s)"

definition prepareRace :: "Client \<Rightarrow> Client" where
  "prepareRace s =
     (let s = patch 0x532b [0xea, 0xea, 0xea] (patch 0x5486 [0x4c, 0xa7, 0xd4] s);
          s = patch 0x52ef [0xa9, selector ! nat (cl_id s)] s;
          s = patch 0x572b [0xa9, selector ! nat (cl_id s)] s;
          s = fold prepare_slot [0..<4] s;
          s = fold (\<lambda>address. patch address [0xea, 0xea, 0xea])
                [0x5dfc, 0x5dda, 0xdb6, 0x3db2, 0x3dd5, 0x3def, 0x3dfe, 0x3dae, 0x3dcb, 0x3de5] s;
          s = patch 0x4d84 [0x80] (patch 0x48ff [0x80] (patch 0xd3f [0] s))
      in patch 0x1851f [0xa5, 0x55, 0xf0, 0x74] s)"

section \<open>Opponents\<close>

definition place_opponent :: "Peer list \<Rightarrow> nat \<Rightarrow> Client \<Rightarrow> Client" where
  "place_opponent rendered slot s =
     (let peer = cl_peers s ! slot_player s slot;
          pos = rendered ! slot_player s slot;
          visible = (pr_status peer = FZ_PLAYER_LOADED \<or> pr_status peer = FZ_PLAYER_RACING);
          s = putWord (0xb70 + of_nat slot * 2) (if visible then pr_x pos else 0) s;
          s = putWord (0xb90 + of_nat slot * 2) (if visible then pr_y pos else 0) s
      in poke_ram (0xbd1 + of_nat slot * 2) (if visible then pr_orientation pos else 0) s)"

definition opponents :: "Client \<Rightarrow> Client" where
  "opponents s =
     (let (t, s) = client_now s;
          estimatedServerTime = fl (double_of_u64 t + cl_offset s);
          rendered = renderedPeers (if estimatedServerTime > 0 then of_int (trunc estimatedServerTime) else 0) s;
          s = fold (place_opponent rendered) [1..<4] s
      in putWord 0xb98 0 (putWord 0xb78 0 s))"

section \<open>One frame\<close>

definition hide_title_sprites :: "Client \<Rightarrow> Client" where
  "hide_title_sprites s =
     (if ram s 0x54 = 0 \<and> ram s 0x55 = 1 \<and> ram s 0x56 = 0
      then poke_ram 0x271 0xf0 (poke_ram 0x26d 0xf0 s) else s)"

definition frame_init :: "Client \<Rightarrow> Client" where
  "frame_init s = change CarSelect (patch 0x18143 [0x80] (patch 0x18176 [0xea] s))"

definition frame_car_select :: "Client \<Rightarrow> Client" where
  "frame_car_select s =
     (let s = (if ram s 0x55 = 3 then s\<lparr>cl_car := [0, 2, 1, 3] ! unat (ram s 0x5a AND 3)\<rparr> else s)
      in if ram s 0x55 = 5 then change Waiting (patch 0x1851f [0x5c, 0x1f, 0x85, 0x03] s) else s)"

definition frame_waiting :: "Client \<Rightarrow> Client" where
  "frame_waiting s =
     (let s = (if cl_id s \<ge> 0 \<and> \<not> cl_selectedSent s \<and> cl_phase s = FZ_LOBBY
               then (queue [FZ_SELECT, cl_car s] s)\<lparr>cl_selectedSent := True\<rparr> else s)
      in if cl_id s \<ge> 0 \<and> cl_phase s = FZ_LOADING then change Prepare (prepareRace s) else s)"

definition frame_prepare :: "Client \<Rightarrow> Client" where
  "frame_prepare s =
     (let s = patch 0x187fe [0x80] (patch 0x18795 [0x80] s)
      in change Location (poke_ram 0x5a (cl_league s) (poke_ram 0x53 (cl_track s) s)))"

definition present_mask :: "Peer list \<Rightarrow> u8" where
  "present_mask peers =
     fold (\<lambda>i m. if pr_status (peers ! i) \<noteq> FZ_EMPTY \<and> pr_status (peers ! i) \<noteq> FZ_DISCONNECTED
                then m OR push_bit i 1 else m) [0..<4] 0"

text \<open>The test of the countdown reads the clock only when it is reached.\<close>

definition start_due :: "u8 \<Rightarrow> Client \<Rightarrow> bool \<times> Client" where
  "start_due present s =
     (if cl_phase s = FZ_RACING then (True, s)
      else if cl_phase s = FZ_COUNTDOWN \<and> present \<noteq> 0 \<and> cl_armedMask s AND present = present
        \<and> cl_bestRtt s < 1000000000000
      then let (t, s) = client_now s
        in (fl (double_of_u64 t + cl_offset s) \<ge> double_of_u64 (cl_startTime s), s)
      else (False, s))"

definition frame_location :: "Client \<Rightarrow> Client" where
  "frame_location s =
     (let s = patch 0xab1 [0xea, 0xea, 0xea, 0xea, 0xea, 0xea] s
      in if ram s 0x54 = 2 \<and> ram s 0x55 = 0 \<and> ram s 0x56 = 2
         then let s = (if \<not> cl_loadedSent s \<and> cl_phase s = FZ_LOADING
                       then (queue (position FZ_LOADED s) s)\<lparr>cl_loadedSent := True\<rparr> else s);
                  s = poke_ram 0x53 0 s;
                  (due, s) = start_due (present_mask (cl_peers s)) s
           in if due
              then let s = patch 0xab1 [0xe6, 0x55, 0xe6, 0x55, 0x64, 0x56] (opponents s);
                       (t, s) = client_now s;
                       skew = trunc (fl (fl (double_of_u64 t + cl_offset s) - double_of_u64 (cl_startTime s)))
                in change Race (client_log (''start_skew_us='' @ fmt_d skew) s)
              else s
         else s)"

definition frame_race :: "Client \<Rightarrow> Client" where
  "frame_race s =
     (if ram s 0x54 = 3
      then let s = (if \<not> cl_finishedSent s then (queue [FZ_FINISH] s)\<lparr>cl_finishedSent := True\<rparr> else s)
        in change Finished s
      else let s' = s\<lparr>cl_stateSeq := cl_stateSeq s + 1\<rparr>
        in opponents (client_send (zero_packet\<lparr>pk_type := FZ_STATE, pk_seq := cl_stateSeq s', pk_length := 5,
             pk_payload := fill (drop 1 (position 0 s))\<rparr>) s'))"

definition frame_finished :: "Client \<Rightarrow> Client" where
  "frame_finished s =
     (let s = opponents s
      in if cl_phase s = FZ_RESULTS
         then let (t, s) = client_now s in change Results (s\<lparr>cl_resultsTime := t\<rparr>) else s)"

definition frame_results :: "Client \<Rightarrow> Client" where
  "frame_results s =
     (if cf_autoNext (cl_config s) \<and> cl_id s = int (unat (cl_host s)) \<and> cl_resultsTime s \<noteq> 0
      then let (t, s) = client_now s
        in if t - cl_resultsTime s > 3000000 then (queue [FZ_NEXT] s)\<lparr>cl_resultsTime := 0\<rparr> else s
      else s)"

definition frame :: "Client \<Rightarrow> Client" where
  "frame s =
     (if \<not> cl_attached s \<or> cl_game s = Disconnected then s
      else let s = s\<lparr>cl_frames := cl_frames s + 1\<rparr>;
               s = hide_title_sprites s
        in if cf_baseline (cl_config s)
           then (if ram s 0x54 = 2 then s\<lparr>cl_game := Race\<rparr> else s\<lparr>cl_game := CarSelect\<rparr>)
           else (case cl_game s of
              Init \<Rightarrow> frame_init s | CarSelect \<Rightarrow> frame_car_select s | Waiting \<Rightarrow> frame_waiting s
            | Prepare \<Rightarrow> frame_prepare s | Location \<Rightarrow> frame_location s | Race \<Rightarrow> frame_race s
            | Finished \<Rightarrow> frame_finished s | Results \<Rightarrow> frame_results s | Disconnected \<Rightarrow> s))"

definition scriptedButton :: "string \<Rightarrow> Client \<Rightarrow> bool" where
  "scriptedButton name s =
     (if cf_autoCar (cl_config s) < 0 then False
      else if cl_game s = Race then name = ''B''
      else let pulse = (cl_frames s mod 45 < 3);
               menu = [0, 2, 1, 3 :: u8]
        in if cl_game s = CarSelect \<and> cl_attached s \<and> ram s 0x54 = 1 \<and> ram s 0x55 = 1
              \<and> ram s 0x5a \<noteq> menu ! nat (cf_autoCar (cl_config s))
           then name = ''Down'' \<and> pulse
           else name = ''Start'' \<and> pulse)"

end
