(* ===== verification/Fz_Title_Spec.thy ===== *)
theory Fz_Title_Spec
  imports Fz_Client_Title
begin

text \<open>
  What the console shows of the patched title tiles: decoding the planar tiles gives back the drawn
  pixels, and the drawn pixels are the letters of the menu entry.
\<close>

section \<open>Reading a planar tile\<close>

text \<open>The byte of a tile that holds bit \<open>plane\<close> of the colours in row \<open>y\<close>.\<close>

definition plane_byte :: "nat \<Rightarrow> nat \<Rightarrow> nat" where
  "plane_byte plane y = (plane div 2) * 16 + y * 2 + plane mod 2"

definition tile_color :: "bytes \<Rightarrow> nat \<Rightarrow> nat \<Rightarrow> u8" where
  "tile_color tile y x =
     fold (\<lambda>plane c. if bit (tile ! plane_byte plane y) (7 - x) then c OR push_bit plane 1 else c) [0..<4] 0"

lemma plane_byte_parts: "plane_byte plane y mod 2 = plane mod 2" "plane_byte plane y div 2 = plane div 2 * 8 + y"
proof -
  have "plane_byte plane y = 2 * (plane div 2 * 8 + y) + plane mod 2" by (simp add: plane_byte_def)
  then show "plane_byte plane y mod 2 = plane mod 2" "plane_byte plane y div 2 = plane div 2 * 8 + y"
    by (simp_all only: mod_mult_self4 mod_mod_trivial div_mult_self4)
qed

lemma plane_byte_less: "plane < 4 \<Longrightarrow> y < 8 \<Longrightarrow> plane_byte plane y < 32"
proof -
  assume "plane < 4" "y < 8"
  then have "plane div 2 \<le> 1" "plane mod 2 \<le> 1" by simp_all
  with \<open>y < 8\<close> show ?thesis by (simp add: plane_byte_def)
qed

lemma plane_byte_inj:
  assumes "y < 8" and "y' < 8" and "plane_byte plane y = plane_byte plane' y'"
  shows "plane = plane'" and "y = y'"
proof -
  have a: "plane mod 2 = plane' mod 2" and b: "plane div 2 * 8 + y = plane' div 2 * 8 + y'"
    using plane_byte_parts assms(3) by metis+
  from arg_cong [OF b, of "\<lambda>n. n div 8"] assms have c: "plane div 2 = plane' div 2" by simp
  with b show "y = y'" by simp
  from a c show "plane = plane'" by (metis div_mult_mod_eq)
qed

section \<open>Writing a planar tile\<close>

lemma bit_update_or:
  "k < length e \<Longrightarrow> i < length e \<Longrightarrow> n < 8 \<Longrightarrow>
     bit (e[k := e ! k OR push_bit n (1 :: u8)] ! i) j \<longleftrightarrow> bit (e ! i) j \<or> (i = k \<and> j = n)"
  by (auto simp: nth_list_update bit_simps)

lemma bit_encode_planes:
  fixes e :: bytes
  assumes "x < 8" and "y < 8" and "length e = 32" and "i < 32" and "set ps \<subseteq> {..<4}"
  shows "bit (fold (\<lambda>plane encoded. if drop_bit plane color AND 1 \<noteq> (0 :: u8)
       then let k = (plane div 2) * 16 + y * 2 + plane mod 2
         in encoded[k := encoded ! k OR push_bit (7 - x) 1]
       else encoded) ps e ! i) j
    \<longleftrightarrow> bit (e ! i) j \<or> (j = 7 - x \<and> (\<exists>plane\<in>set ps. i = plane_byte plane y \<and> bit color plane))"
  using assms(3,5)
proof (induction ps arbitrary: e)
  case (Cons plane ps)
  have on: "drop_bit plane color AND 1 \<noteq> 0 \<longleftrightarrow> bit color plane"
    by (simp add: and_one_eq bit_iff_odd_drop_bit odd_iff_mod_2_eq_one)
  have k: "plane_byte plane y < length e" using Cons.prems assms(2) plane_byte_less by simp
  let ?e = "if bit color plane then e[plane_byte plane y := e ! plane_byte plane y OR push_bit (7 - x) 1] else e"
  have "bit (?e ! i) j \<longleftrightarrow> bit (e ! i) j \<or> (j = 7 - x \<and> i = plane_byte plane y \<and> bit color plane)"
    using bit_update_or [of _ e i "7 - x" j] k assms(4) Cons.prems(1) by auto
  moreover have "length ?e = 32" using Cons.prems(1) by simp
  ultimately show ?case
    using Cons.IH [of ?e] Cons.prems(2) by (auto simp: on Let_def plane_byte_def [symmetric])
qed simp

lemma bit_encode_pixel:
  assumes "x < 8" and "y < 8" and "length e = 32" and "i < 32"
  shows "bit (encode_pixel color y x e ! i) j \<longleftrightarrow>
    bit (e ! i) j \<or> (j = 7 - x \<and> (\<exists>plane<4. i = plane_byte plane y \<and> bit color plane))"
  using bit_encode_planes [OF assms, where ps = "[0..<4]"] assms
  by (simp add: encode_pixel_def atLeast0LessThan) blast

lemma length_encode_pixel [simp]: "length (encode_pixel c y x e) = length e"
proof -
  have "length (fold (\<lambda>plane e. if P plane then let k = f plane in e[k := e ! k OR b] else e) xs e) = length e"
    for P :: "nat \<Rightarrow> bool" and f :: "nat \<Rightarrow> nat" and b xs
    by (induction xs arbitrary: e) (simp_all add: Let_def)
  then show ?thesis by (simp add: encode_pixel_def)
qed

lemma length_encode_row: "length (fold (\<lambda>x. encode_pixel (c y x) y x) xs e) = length e"
  by (induction xs arbitrary: e) simp_all

lemma length_encode_rows: "length (fold (\<lambda>y. fold (\<lambda>x. encode_pixel (c y x) y x) (row y)) ys e) = length e"
  by (induction ys arbitrary: e) (simp_all add: length_encode_row)

lemma length_encode_tile [simp]: "length (encode_tile c) = 32"
  by (simp add: encode_tile_def length_encode_rows)

lemma bit_encode_row:
  assumes "y < 8" and "i < 32" and "length e = 32" and "set xs \<subseteq> {..<8}"
  shows "bit (fold (\<lambda>x. encode_pixel (c y x) y x) xs e ! i) j \<longleftrightarrow>
    bit (e ! i) j \<or> (\<exists>x\<in>set xs. j = 7 - x \<and> (\<exists>plane<4. i = plane_byte plane y \<and> bit (c y x) plane))"
  using assms(3,4) by (induction xs arbitrary: e) (auto simp: bit_encode_pixel assms(1,2))

lemma bit_encode_rows:
  assumes "i < 32" and "length e = 32" and "set ys \<subseteq> {..<8}"
  shows "bit (fold (\<lambda>y. fold (\<lambda>x. encode_pixel (c y x) y x) [0..<8]) ys e ! i) j \<longleftrightarrow>
    bit (e ! i) j \<or> (\<exists>y\<in>set ys. \<exists>x<8. j = 7 - x \<and> (\<exists>plane<4. i = plane_byte plane y \<and> bit (c y x) plane))"
  using assms(2,3)
proof (induction ys arbitrary: e)
  case (Cons y ys)
  have "bit (fold (\<lambda>x. encode_pixel (c y x) y x) [0..<8] e ! i) j \<longleftrightarrow>
      bit (e ! i) j \<or> (\<exists>x<8. j = 7 - x \<and> (\<exists>plane<4. i = plane_byte plane y \<and> bit (c y x) plane))"
    using bit_encode_row [of y i e "[0..<8]" c j] Cons.prems assms(1) by (simp add: atLeast0LessThan Bex_def)
  with Cons show ?case by (auto simp: length_encode_row)
qed simp

text \<open>Each bit of the encoded tile is one bit of one colour.\<close>

lemma bit_encode_tile:
  assumes "plane < 4" and "y < 8" and "x < 8"
  shows "bit (encode_tile c ! plane_byte plane y) (7 - x) \<longleftrightarrow> bit (c y x) plane"
proof -
  have "bit (encode_tile c ! plane_byte plane y) (7 - x) \<longleftrightarrow> (\<exists>y'\<in>{0..<8}. \<exists>x'<8. 7 - x = 7 - x'
      \<and> (\<exists>plane'<4. plane_byte plane y = plane_byte plane' y' \<and> bit (c y' x') plane'))"
    using bit_encode_rows [of "plane_byte plane y" "replicate 32 0" "[0..<8]" c "7 - x"] plane_byte_less [OF assms(1,2)]
    by (simp add: encode_tile_def atLeast0LessThan)
  also have "\<dots> \<longleftrightarrow> bit (c y x) plane"
  proof
    assume "\<exists>y'\<in>{0..<8}. \<exists>x'<8. 7 - x = 7 - x' \<and> (\<exists>plane'<4. plane_byte plane y = plane_byte plane' y' \<and> bit (c y' x') plane')"
    then obtain y' x' plane' where "y' < 8" "x' < 8" "7 - x = 7 - x'" "plane_byte plane y = plane_byte plane' y'" "bit (c y' x') plane'"
      by auto
    moreover from this assms(3) have "x = x'" by arith
    ultimately show "bit (c y x) plane" using plane_byte_inj [OF assms(2)] by metis
  next
    assume "bit (c y x) plane"
    with assms show "\<exists>y'\<in>{0..<8}. \<exists>x'<8. 7 - x = 7 - x' \<and> (\<exists>plane'<4. plane_byte plane y = plane_byte plane' y' \<and> bit (c y' x') plane')"
      by (intro bexI [of _ y] exI [of _ x] conjI exI [of _ plane]) simp_all
  qed
  finally show ?thesis .
qed

lemma color_bits:
  fixes c :: u8
  assumes "c < 16"
  shows "(if bit c 0 then 1 else 0) OR (if bit c 1 then 2 else 0) OR (if bit c 2 then 4 else 0) OR (if bit c 3 then 8 else 0) = c"
proof -
  have "unat c < 16" using assms by (simp add: word_less_nat_alt)
  then have "c \<in> of_nat ` set [0..<16]" by (intro image_eqI [of _ _ "unat c"]) simp_all
  then have "c \<in> {0, 1, 2, 3, 4, 5, 6, 7, 8, 9, 10, 11, 12, 13, 14, 15}" by (simp add: upt_rec) 
  then show ?thesis by auto
qed

lemma tile_color_encode:
  assumes "y < 8" and "x < 8" and "c y x < 16"
  shows "tile_color (encode_tile c) y x = c y x"
proof -
  have "tile_color (encode_tile c) y x = (if bit (c y x) 0 then 1 else 0) OR (if bit (c y x) 1 then 2 else 0)
      OR (if bit (c y x) 2 then 4 else 0) OR (if bit (c y x) 3 then 8 else 0)"
    using bit_encode_tile [of _ y x c] assms(1,2) by (simp add: tile_color_def upt_4 ac_simps)
  with color_bits [OF assms(3)] show ?thesis by simp
qed

section \<open>The drawing\<close>

text \<open>The colour a letter has at a place: the digit of its glyph, or nothing.\<close>

definition letter_color :: "char \<Rightarrow> nat \<Rightarrow> nat \<Rightarrow> u8" where
  "letter_color letter y x =
     (case glyph letter of None \<Rightarrow> 0
      | Some rows \<Rightarrow> (let cell = rows ! y ! x in if cell = CHR ''.'' then 0 else of_nat (of_char cell - 48)))"

lemma title_drawn:
  "title_pixels = map (\<lambda>y. concat (map (\<lambda>letter. map (letter_color letter y) [0..<8]) ''MULTI'') @ replicate 40 0) [0..<16]"
  by code_simp

lemma letters_dark:
  "list_all (\<lambda>letter. list_all (\<lambda>y. list_all (\<lambda>x. letter_color letter y x < 16) [0..<8]) [0..<16]) ''MULTI''"
  by code_simp

lemma nth_cells:
  "n < length ls \<Longrightarrow> x < 8 \<Longrightarrow> concat (map (\<lambda>l. map (f l) [0..<8]) ls) ! (n * 8 + x) = f (ls ! n) x"
proof (induction ls arbitrary: n)
  case (Cons l ls)
  then show ?case by (cases n) (simp_all add: nth_append del: upt_Suc)
qed simp

lemma length_cells: "length (concat (map (\<lambda>l. map (f l) [0..<8]) ls)) = 8 * length ls"
  by (induction ls) simp_all

lemma title_pixel:
  assumes "n < 5" and "y < 16" and "x < 8"
  shows "title_pixels ! y ! (n * 8 + x) = letter_color (''MULTI'' ! n) y x"
proof -
  let ?row = "concat (map (\<lambda>letter. map (letter_color letter y) [0..<8]) ''MULTI'')"
  have "title_pixels ! y = ?row @ replicate 40 0"
    unfolding title_drawn using assms(2) by (subst nth_map) simp_all
  moreover have "n * 8 + x < length ?row"
    using assms(1,3) unfolding length_cells by simp
  ultimately have "title_pixels ! y ! (n * 8 + x) = ?row ! (n * 8 + x)"
    by (simp only: nth_append if_True)
  also have "\<dots> = letter_color (''MULTI'' ! n) y x"
    by (rule nth_cells) (use assms in simp_all)
  finally show ?thesis .
qed

lemma title_pixel_dark: "n < 5 \<Longrightarrow> y < 16 \<Longrightarrow> x < 8 \<Longrightarrow> title_pixels ! y ! (n * 8 + x) < 16"
proof -
  assume *: "n < 5" "y < 16" "x < 8"
  then have "''MULTI'' ! n \<in> set ''MULTI''" by (intro nth_mem) simp
  with letters_dark *(2,3) have "letter_color (''MULTI'' ! n) y x < 16" by (auto simp: list_all_iff)
  with * show ?thesis by (simp add: title_pixel)
qed

section \<open>In the cartridge image\<close>

definition splice :: "nat \<Rightarrow> bytes \<Rightarrow> bytes \<Rightarrow> bytes" where
  "splice n vs r = take n r @ vs @ drop (n + length vs) r"

lemma length_splice [simp]: "n + length vs \<le> length r \<Longrightarrow> length (splice n vs r) = length r"
  by (simp add: splice_def)

lemma nth_splice:
  "n + length vs \<le> length r \<Longrightarrow> i < length r \<Longrightarrow> splice n vs r ! i = (if n \<le> i \<and> i < n + length vs then vs ! (i - n) else r ! i)"
  by (auto simp: splice_def nth_append)

lemma splice_Cons: "n < length r \<Longrightarrow> splice (Suc n) vs (r[n := v]) = splice n (v # vs) r"
  by (simp add: splice_def take_Suc_conv_app_nth upd_conv_take_nth_drop add.commute)

lemma rom_put_title:
  "unat a + length vs \<le> length (mem_rom (cl_memory s)) \<Longrightarrow> unat a + length vs < 2 ^ 32
    \<Longrightarrow> mem_rom (cl_memory (put_title a vs s)) = splice (unat a) vs (mem_rom (cl_memory s))"
proof (induction a vs s rule: put_title.induct)
  case (2 a v vs s)
  have "unat (a + 1) = unat a + 1" using "2.prems"(2) by (simp add: unat_word_ariths)
  with 2 show ?case by (simp add: poke_rom_def writeRom_def write_at_def splice_Cons)
qed (simp add: splice_def)

definition tile_of :: "nat \<Rightarrow> nat \<Rightarrow> bytes" where
  "tile_of k row = encode_tile (\<lambda>y x. title_pixels ! (row * 8 + y) ! (k * 8 + x))"

lemma rom_patchTile:
  "unat a + 32 \<le> length (mem_rom (cl_memory s)) \<Longrightarrow> unat a + 32 < 2 ^ 32
    \<Longrightarrow> mem_rom (cl_memory (patchTile title_pixels k row a s)) = splice (unat a) (tile_of k row) (mem_rom (cl_memory s))"
  by (simp add: patchTile_def tile_of_def rom_put_title)

text \<open>The image after the first \<open>n\<close> tiles of either row.\<close>

definition title_byte :: "nat \<Rightarrow> bytes \<Rightarrow> nat \<Rightarrow> u8" where
  "title_byte n r i =
     (if 0x67800 \<le> i \<and> i < 0x67800 + 32 * n then tile_of ((i - 0x67800) div 32) 0 ! ((i - 0x67800) mod 32)
      else if 0x67a00 \<le> i \<and> i < 0x67a00 + 32 * n then tile_of ((i - 0x67a00) div 32) 1 ! ((i - 0x67a00) mod 32)
      else r ! i)"

lemma title_byte_Suc:
  assumes "n < 5"
  shows "title_byte (Suc n) r i = (if 0x67800 + 32 * n \<le> i \<and> i < 0x67800 + 32 * n + 32 then tile_of n 0 ! (i - (0x67800 + 32 * n))
      else if 0x67a00 + 32 * n \<le> i \<and> i < 0x67a00 + 32 * n + 32 then tile_of n 1 ! (i - (0x67a00 + 32 * n))
      else title_byte n r i)"
proof -
  have "(i - b) div 32 = n \<and> (i - b) mod 32 = i - (b + 32 * n)" if "b + 32 * n \<le> i" "i < b + 32 * n + 32" for b
  proof -
    have "i - b = (i - (b + 32 * n)) + 32 * n" and "i - (b + 32 * n) < 32" using that by simp_all
    then show ?thesis by (metis (no_types, lifting) add.commute div_less div_mult_self4 mod_less mod_mult_self2 plus_nat.add_0 zero_neq_numeral)
  qed
  with assms show ?thesis by (simp add: title_byte_def)
qed


lemma title_image:
  assumes "0x67aa0 \<le> length r" and "mem_rom (cl_memory s) = r" and "n \<le> 5"
  defines "img \<equiv> mem_rom (cl_memory (fold (\<lambda>x s. patchTile title_pixels x 1 (0x67a00 + of_nat x * 32)
                  (patchTile title_pixels x 0 (0x67800 + of_nat x * 32) s)) [0..<n] s))"
  shows "length img = length r \<and> (\<forall>i<length r. img ! i = title_byte n r i)"
  using assms(3) unfolding img_def
proof (induction n)
  case 0
  have "title_byte 0 r i = r ! i" for i by (auto simp: title_byte_def)
  then show ?case using assms(2) by simp
next
  case (Suc n)
  define t where "t = fold (\<lambda>x s. patchTile title_pixels x 1 (0x67a00 + of_nat x * 32)
                  (patchTile title_pixels x 0 (0x67800 + of_nat x * 32) s)) [0..<n] s"
  define img where "img = mem_rom (cl_memory t)"
  have n: "n < 5" using Suc.prems by simp
  have img: "length img = length r" "i < length r \<Longrightarrow> img ! i = title_byte n r i" for i
    using Suc by (simp_all add: t_def img_def)
  have u: "unat (0x67800 + of_nat n * 32 :: u32) = 0x67800 + 32 * n" "unat (0x67a00 + of_nat n * 32 :: u32) = 0x67a00 + 32 * n"
    using n by (simp_all add: unat_word_ariths unat_of_nat)
  have l: "length (tile_of n k) = 32" for k by (simp add: tile_of_def)
  have "mem_rom (cl_memory (patchTile title_pixels n 1 (0x67a00 + of_nat n * 32)
      (patchTile title_pixels n 0 (0x67800 + of_nat n * 32) t))) = splice (0x67a00 + 32 * n) (tile_of n 1) (splice (0x67800 + 32 * n) (tile_of n 0) img)"
    using n assms(1) img(1) l by (simp add: rom_patchTile u img_def)
  moreover have "splice (0x67a00 + 32 * n) (tile_of n 1) (splice (0x67800 + 32 * n) (tile_of n 0) img) ! i = title_byte (Suc n) r i"
    if "i < length r" for i
    using that n assms(1) img l by (simp add: nth_splice title_byte_Suc)
  moreover have "length (splice (0x67a00 + 32 * n) (tile_of n 1) (splice (0x67800 + 32 * n) (tile_of n 0) img)) = length r"
    using n assms(1) img(1) l by simp
  ultimately show ?case by (simp add: t_def)
qed

lemma menu_bytes:
  assumes "cl_attached s" and "cl_titleOriginals s = []" and "0x67aa0 \<le> length (mem_rom (cl_memory s))"
  shows "length (mem_rom (cl_memory (patchTitleMenu s))) = length (mem_rom (cl_memory s))"
    and "i < length (mem_rom (cl_memory s)) \<Longrightarrow> mem_rom (cl_memory (patchTitleMenu s)) ! i = title_byte 5 (mem_rom (cl_memory s)) i"
  using title_image [OF assms(3) refl, of 5] assms(1,2) by (simp_all add: patchTitleMenu_def)

text \<open>The two rows of tiles, five each, and the tile that shows the part of a letter.\<close>

definition title_tiles :: "nat set" where
  "title_tiles = {0x67800..<0x678a0} \<union> {0x67a00..<0x67aa0}"

definition menu_tile :: "Client \<Rightarrow> nat \<Rightarrow> nat \<Rightarrow> bytes" where
  "menu_tile s n row = take 32 (drop ((if row = 0 then 0x67800 else 0x67a00) + 32 * n) (mem_rom (cl_memory s)))"

lemma menu_tile_encoded:
  assumes "cl_attached s" and "cl_titleOriginals s = []" and "0x67aa0 \<le> length (mem_rom (cl_memory s))" and "n < 5" and "row < 2"
  shows "menu_tile (patchTitleMenu s) n row = tile_of n row"
proof (rule nth_equalityI)
  let ?b = "if row = 0 then 0x67800 else 0x67a00 :: nat"
  have len: "length (tile_of n row) = 32" by (simp add: tile_of_def)
  have room: "?b + 32 * n + 32 \<le> length (mem_rom (cl_memory s))" using assms(3,4) by simp
  then show "length (menu_tile (patchTitleMenu s) n row) = length (tile_of n row)"
    by (simp add: menu_tile_def menu_bytes [OF assms(1-3)] len)
  fix i
  assume "i < length (menu_tile (patchTitleMenu s) n row)"
  then have i: "i < 32" by (simp add: menu_tile_def)
  have "menu_tile (patchTitleMenu s) n row ! i = title_byte 5 (mem_rom (cl_memory s)) (?b + 32 * n + i)"
    using room i menu_bytes [OF assms(1-3)] by (simp add: menu_tile_def)
  also have "\<dots> = tile_of n row ! i"
  proof -
    have "(32 * n + i) div 32 = n" "(32 * n + i) mod 32 = i" using i by simp_all
    with assms(4,5) i show ?thesis by (cases "row = 0") (simp_all add: title_byte_def less_2_cases_iff)
  qed
  finally show "menu_tile (patchTitleMenu s) n row ! i = tile_of n row ! i" .
qed

end
