(* ===== verification/Fz_Client_Rom.thy ===== *)
theory Fz_Client_Rom
  imports Fz_Client_Frame Fz_Title_Spec
begin

text \<open>
  The client never leaves the cartridge image modified: whatever it has patched, it holds the original
  bytes, and every way out of a session writes them back.
\<close>

section \<open>The cartridge and its saved bytes\<close>

type_synonym cart = "bool \<times> bytes \<times> byte_map \<times> byte_map"

definition cart :: "Client \<Rightarrow> cart" where
  "cart s = (cl_attached s, mem_rom (cl_memory s), cl_originals s, cl_titleOriginals s)"

text \<open>The byte the cartridge had before the client touched it.\<close>

definition original :: "bytes \<Rightarrow> byte_map \<Rightarrow> byte_map \<Rightarrow> u32 \<Rightarrow> u8" where
  "original img game_saved title_saved a =
     (case map_of game_saved a of Some v \<Rightarrow> v
      | None \<Rightarrow> (case map_of title_saved a of Some v \<Rightarrow> v | None \<Rightarrow> read_at img a))"

text \<open>The saved bytes are those of the image \<open>r\<close>; game patches stay below the title tiles.\<close>

abbreviation (input) TITLE :: u32 where "TITLE \<equiv> 0x67800"

fun intact :: "bytes \<Rightarrow> cart \<Rightarrow> bool" where
  "intact r (attached, img, game_saved, title_saved) \<longleftrightarrow>
     length img = length r \<and> (\<forall>a. original img game_saved title_saved a = read_at r a)
     \<and> sorted_wrt (<) (map fst game_saved) \<and> sorted_wrt (<) (map fst title_saved)
     \<and> (\<forall>a\<in>fst ` set game_saved. a < TITLE) \<and> (\<forall>a\<in>fst ` set title_saved. TITLE \<le> a)
     \<and> (attached \<or> game_saved = [] \<and> title_saved = [])"

lemma sorted_distinct: "sorted_wrt (<) (map fst (m :: byte_map)) \<Longrightarrow> distinct (map fst m)"
  using strict_sorted_iff by blast

lemma read_outside: "read_at r a \<noteq> 0 \<Longrightarrow> unat a < length r"
  by (auto simp: read_at_def split: if_splits)

section \<open>Saving and restoring\<close>

lemma cart_updates [simp]:
  "cart (client_log text s) = cart s" "cart (snd (client_now s)) = cart s" "cart (print_line text s) = cart s"
  "cart (change g s) = cart s" "cart (request c d s) = cart s" "cart (poke_ram a v s) = cart s"
  "cart (power_cycle s) = cart s" "cart (clearSnapshotBuffer s) = cart s" "cart (putWord a w s) = cart s"
  "cart (client_send p s) = cart s" "cart (queue b s) = cart s"
  by (simp_all add: cart_def client_log_def client_now_def print_line_def change_def request_def poke_ram_def writeRam_def
      power_cycle_def mem_reset_def clearSnapshotBuffer_def putWord_def client_send_def queue_def Let_def)

lemma cart_publish [simp]: "cart (publish s) = cart s"
  by (simp add: publish_def Let_def case_prod_beta cart_def client_now_def print_line_def)

lemma saved_game:
  assumes "intact r (True, img, g, t)" and "map_of g a = None" and "a < TITLE"
  shows "intact r (True, img, map_put a (read_at img a) g, t)"
proof -
  have "map_of t a = None"
    using assms(1,3) by (auto simp: map_of_eq_None_iff)
  then have "original img (map_put a (read_at img a) g) t b = original img g t b" for b
    using assms(2) by (simp add: original_def map_of_put)
  with assms show ?thesis by (auto simp: sorted_put keys_put)
qed

lemma write_saved:
  assumes "intact r (True, img, g, t)" and "map_of g a \<noteq> None \<or> map_of t a \<noteq> None"
  shows "intact r (True, write_at a v img, g, t)"
proof -
  have "original (write_at a v img) g t b = original img g t b" for b
    using assms(2) by (auto simp: original_def read_write split: option.split)
  with assms(1) show ?thesis by simp
qed

lemma intact_patch:
  assumes "intact r (cart s)" and "cl_attached s" and "unat a + length vs \<le> 0x67800"
  shows "intact r (cart (patch a vs s)) \<and> cl_attached (patch a vs s)"
  using assms
proof (induction a vs s rule: patch.induct)
  case (2 a v vs s)
  define s1 where "s1 = (if map_of (cl_originals s) a = None
               then s\<lparr>cl_originals := map_put a (rom s a) (cl_originals s)\<rparr> else s)"
  have a: "a < TITLE" and a1: "unat (a + 1) = unat a + 1"
    using "2.prems"(3) by (simp_all add: word_less_nat_alt unat_word_ariths)
  have "intact r (cart s1)" "cl_attached s1" "map_of (cl_originals s1) a \<noteq> None"
    using "2.prems"(1,2) saved_game [of r _ _ _ a] a
    by (auto simp: s1_def cart_def rom_def map_of_put)
  then have "intact r (cart (poke_rom a v s1))" "cl_attached (poke_rom a v s1)"
    using write_saved by (simp_all add: cart_def poke_rom_def writeRom_def)
  with "2.prems"(3) a1 show ?case
    using "2.IH" [OF s1_def] by (simp add: s1_def [symmetric])
qed simp

lemma intact_write_game:
  assumes "intact r (True, img, g, t)"
  shows "intact r (True, write_back g img, [], t)"
proof -
  have d: "distinct (map fst g)" using assms by (simp add: sorted_distinct)
  have "original (write_back g img) [] t b = read_at r b" for b
  proof (cases "map_of g b")
    case (Some v)
    then have "b \<in> fst ` set g" by (metis map_of_eq_None_iff option.distinct(1))
    then have "b < TITLE" using assms by auto
    then have "map_of t b = None" using assms by (auto simp: map_of_eq_None_iff)
    moreover have "original img g t b = v" using Some by (simp add: original_def)
    then have "v = read_at r b" using assms by simp
    ultimately show ?thesis
      using Some assms read_outside [of r b] by (auto simp: original_def read_write_back [OF d])
  next
    case None
    have "original img g t b = read_at r b" using assms by simp
    with None show ?thesis by (simp add: original_def read_write_back [OF d] split: option.splits)
  qed
  with assms show ?thesis by simp
qed

lemma intact_write_title:
  assumes "intact r (True, img, g, t)"
  shows "intact r (True, write_back t img, g, [])"
proof -
  have d: "distinct (map fst t)" using assms by (simp add: sorted_distinct)
  have "original (write_back t img) g [] b = read_at r b" for b
  proof (cases "map_of g b")
    case None
    show ?thesis
    proof (cases "map_of t b")
      case (Some v)
      moreover have "original img g t b = v" using None Some by (simp add: original_def)
      then have "v = read_at r b" using assms by simp
      ultimately show ?thesis
        using None assms read_outside [of r b] by (auto simp: original_def read_write_back [OF d])
    next
      case (None)
      have "original img g t b = read_at r b" using assms by simp
      with None \<open>map_of g b = None\<close> show ?thesis
        by (simp add: original_def read_write_back [OF d])
    qed
  next
    case (Some v)
    have "original img g t b = read_at r b" using assms by simp
    with Some show ?thesis by (simp add: original_def)
  qed
  with assms show ?thesis by simp
qed

lemma intact_restore [simp]: "intact r (cart s) \<Longrightarrow> intact r (cart (restore s))"
  using intact_write_game by (auto simp: cart_def restore_def Let_def)

lemma intact_restoreTitle [simp]: "intact r (cart s) \<Longrightarrow> intact r (cart (restoreTitle s))"
  using intact_write_title by (auto simp: cart_def restoreTitle_def Let_def)

lemma restored_rom:
  assumes "intact r (a, img, [], [])" and "length r \<le> 2 ^ 32"
  shows "img = r"
  using assms by (intro bytes_eqI) (simp_all add: original_def)

section \<open>The title menu\<close>

lemma saved_title:
  assumes "intact r (True, img, g, t)" and "map_of t a = None" and "TITLE \<le> a"
  shows "intact r (True, img, g, map_put a (read_at img a) t)"
proof -
  have "map_of g a = None"
    using assms(1,3) by (auto simp: map_of_eq_None_iff)
  then have "original img g (map_put a (read_at img a) t) b = original img g t b" for b
    using assms(2) by (auto simp: original_def map_of_put split: option.split)
  with assms show ?thesis by (auto simp: sorted_put keys_put)
qed

text \<open>The addresses saved for the title, as numbers.\<close>

definition saved_addresses :: "Client \<Rightarrow> nat set" where
  "saved_addresses s = (\<lambda>p. unat (fst p)) ` set (cl_titleOriginals s)"

lemma unsaved_None: "unat a \<notin> saved_addresses s \<Longrightarrow> map_of (cl_titleOriginals s) a = None"
  by (auto simp: saved_addresses_def map_of_eq_None_iff)

lemma intact_put_title:
  assumes "intact r (cart s)" and "cl_attached s" and "0x67800 \<le> unat a" and "unat a + length vs < 2 ^ 32"
    and "saved_addresses s \<inter> {unat a..<unat a + length vs} = {}"
  shows "intact r (cart (put_title a vs s)) \<and> cl_attached (put_title a vs s)
    \<and> saved_addresses (put_title a vs s) = saved_addresses s \<union> {unat a..<unat a + length vs}"
  using assms
proof (induction a vs s rule: put_title.induct)
  case (2 a v vs s)
  define s1 where "s1 = poke_rom a v (s\<lparr>cl_titleOriginals := map_put a (rom s a) (cl_titleOriginals s)\<rparr>)"
  have a: "TITLE \<le> a" and a1: "unat (a + 1) = unat a + 1"
    using "2.prems"(3,4) by (simp_all add: word_le_nat_alt unat_word_ariths)
  have new: "map_of (cl_titleOriginals s) a = None"
    using "2.prems"(5) by (intro unsaved_None) auto
  have i1: "intact r (cart s1)" "cl_attached s1"
    using "2.prems"(1,2) saved_title [OF _ new a] write_saved [of r _ _ "map_put a (rom s a) (cl_titleOriginals s)" a v]
    by (auto simp: s1_def cart_def rom_def poke_rom_def writeRom_def map_of_put)
  have "(\<lambda>p. unat (fst p)) ` set m = unat ` fst ` set m" for m :: byte_map by (simp add: image_image)
  then have k1: "saved_addresses s1 = insert (unat a) (saved_addresses s)"
    by (simp add: saved_addresses_def s1_def poke_rom_def keys_put)
  then have "saved_addresses s1 \<inter> {unat (a + 1)..<unat (a + 1) + length vs} = {}"
    using "2.prems"(5) a1 by auto
  with "2.IH" [folded s1_def, OF i1] "2.prems"(3,4) a1
  have "intact r (cart (put_title (a + 1) vs s1)) \<and> cl_attached (put_title (a + 1) vs s1)
      \<and> saved_addresses (put_title (a + 1) vs s1) = saved_addresses s1 \<union> {unat (a + 1)..<unat (a + 1) + length vs}"
    by simp
  moreover have "insert (unat a) (saved_addresses s) \<union> {unat a + 1..<unat a + 1 + length vs}
      = saved_addresses s \<union> {unat a..<unat a + length (v # vs)}"
    by auto
  moreover have "put_title a (v # vs) s = put_title (a + 1) vs s1" by (simp add: s1_def)
  ultimately show ?case using k1 a1 by simp
qed simp

lemma intact_patchTile:
  assumes "intact r (cart s)" and "cl_attached s" and "0x67800 \<le> unat a" and "unat a + 32 < 2 ^ 32"
    and "saved_addresses s \<inter> {unat a..<unat a + 32} = {}"
  shows "intact r (cart (patchTile px x y a s))" and "cl_attached (patchTile px x y a s)"
    and "saved_addresses (patchTile px x y a s) = saved_addresses s \<union> {unat a..<unat a + 32}"
  using intact_put_title [OF assms(1-3), of "encode_tile (\<lambda>yy xx. px ! (y * 8 + yy) ! (x * 8 + xx))"] assms(4,5)
  by (simp_all add: patchTile_def)

lemma intact_patchTitleMenu:
  assumes "intact r (cart s)"
  shows "intact r (cart (patchTitleMenu s)) \<and> cl_attached (patchTitleMenu s) = cl_attached s"
proof (cases "\<not> cl_attached s \<or> cl_titleOriginals s \<noteq> []")
  case True
  then show ?thesis using assms by (simp add: patchTitleMenu_def)
next
  case False
  have "n \<le> 5 \<Longrightarrow> (let t = fold (\<lambda>x s. patchTile title_pixels x 1 (0x67a00 + of_nat x * 32)
                  (patchTile title_pixels x 0 (0x67800 + of_nat x * 32) s)) [0..<n] s
      in intact r (cart t) \<and> cl_attached t \<and> saved_addresses t = {0x67800..<0x67800 + 32 * n} \<union> {0x67a00..<0x67a00 + 32 * n})" for n
  proof (induction n)
    case 0
    then show ?case using assms False by (simp add: saved_addresses_def)
  next
    case (Suc n)
    define t where "t = fold (\<lambda>x s. patchTile title_pixels x 1 (0x67a00 + of_nat x * 32)
                  (patchTile title_pixels x 0 (0x67800 + of_nat x * 32) s)) [0..<n] s"
    have t: "intact r (cart t)" "cl_attached t"
      "saved_addresses t = {0x67800..<0x67800 + 32 * n} \<union> {0x67a00..<0x67a00 + 32 * n}"
      using Suc by (simp_all add: t_def Let_def)
    have n: "n < 5" using Suc.prems by simp
    have u: "unat (0x67800 + of_nat n * 32 :: u32) = 0x67800 + n * 32" "unat (0x67a00 + of_nat n * 32 :: u32) = 0x67a00 + n * 32"
      using n by (simp_all add: unat_word_ariths unat_of_nat)
    have free: "({0x67800..<0x67800 + 32 * n} \<union> {0x67a00..<0x67a00 + 32 * n}) \<inter> {0x67800 + n * 32..<0x67800 + n * 32 + 32} = {}"
      "({0x67800..<0x67800 + 32 * n} \<union> {0x67a00..<0x67a00 + 32 * n} \<union> {0x67800 + n * 32..<0x67800 + n * 32 + 32})
         \<inter> {0x67a00 + n * 32..<0x67a00 + n * 32 + 32} = {}"
      using n by auto
    note one = intact_patchTile [OF t(1,2), of "0x67800 + of_nat n * 32" title_pixels n 0, unfolded u t(3)]
    have one': "intact r (cart (patchTile title_pixels n 0 (0x67800 + of_nat n * 32) t))"
      "cl_attached (patchTile title_pixels n 0 (0x67800 + of_nat n * 32) t)"
      "saved_addresses (patchTile title_pixels n 0 (0x67800 + of_nat n * 32) t)
        = {0x67800..<0x67800 + 32 * n} \<union> {0x67a00..<0x67a00 + 32 * n} \<union> {0x67800 + n * 32..<0x67800 + n * 32 + 32}"
      using one [OF _ _ free(1)] n by simp_all
    note two = intact_patchTile [OF one'(1,2), of "0x67a00 + of_nat n * 32" title_pixels n 1, unfolded u one'(3)]
    have "{0x67800..<0x67800 + 32 * n} \<union> {0x67a00..<0x67a00 + 32 * n} \<union> {0x67800 + n * 32..<0x67800 + n * 32 + 32}
        \<union> {0x67a00 + n * 32..<0x67a00 + n * 32 + 32} = {0x67800..<0x67800 + 32 * Suc n} \<union> {0x67a00..<0x67a00 + 32 * Suc n}"
      by auto
    then show ?case
      using two [OF _ _ free(2)] n unfolding t_def by (simp add: Let_def)
  qed
  from this [of 5] False show ?thesis
    by (simp add: patchTitleMenu_def Let_def)
qed

section \<open>Every operation\<close>

lemma cart_fields [simp]:
  "cart (s\<lparr>cl_game := v0\<rparr>) = cart s" "cart (s\<lparr>cl_socket := v1\<rparr>) = cart s" "cart (s\<lparr>cl_car := v2\<rparr>) = cart s"
  "cart (s\<lparr>cl_pending := v3\<rparr>) = cart s" "cart (s\<lparr>cl_lastRecv := v4\<rparr>) = cart s" "cart (s\<lparr>cl_stale := v5\<rparr>) = cart s"
  "cart (s\<lparr>cl_gaps := v6\<rparr>) = cart s" "cart (s\<lparr>cl_armedTime := v7\<rparr>) = cart s" "cart (s\<lparr>cl_lastHello := v8\<rparr>) = cart s"
  "cart (s\<lparr>cl_lastPing := v9\<rparr>) = cart s" "cart (s\<lparr>cl_requests := v10\<rparr>) = cart s" "cart (s\<lparr>cl_retries := v11\<rparr>) = cart s"
  "cart (s\<lparr>cl_frames := v12\<rparr>) = cart s" "cart (s\<lparr>cl_selectedSent := v13\<rparr>) = cart s" "cart (s\<lparr>cl_loadedSent := v14\<rparr>) = cart s"
  "cart (s\<lparr>cl_finishedSent := v15\<rparr>) = cart s" "cart (s\<lparr>cl_stateSeq := v16\<rparr>) = cart s" "cart (s\<lparr>cl_resultsTime := v17\<rparr>) = cart s"
  "cart (s\<lparr>cl_commandSeq := v18\<rparr>) = cart s" "cart (s\<lparr>cl_rx := v19\<rparr>) = cart s" "cart (s\<lparr>cl_bytes := v20\<rparr>) = cart s"
  "cart (s\<lparr>cl_startTime := v21\<rparr>) = cart s"
  by (simp_all add: cart_def)

lemma intact_resetGame [simp]: "intact r (cart s) \<Longrightarrow> intact r (cart (resetGame s))"
  unfolding resetGame_def Let_def
  by simp

lemma intact_failure [simp]: "intact r (cart s) \<Longrightarrow> intact r (cart (failure text s))"
  by (simp add: failure_def Let_def)

lemma cart_accept_pong [simp]: "cart (accept_pong t p s) = cart s"
  by (simp add: accept_pong_def Let_def cart_def)

lemma cart_accept_welcome [simp]: "cart (accept_welcome t p s) = cart s"
  by (simp add: accept_welcome_def Let_def) (simp add: cart_def)

lemma intact_new_race [simp]: "intact r (cart s) \<Longrightarrow> intact r (cart (new_race p s))"
proof -
  assume "intact r (cart s)"
  then have "intact r (cart (s\<lparr>cl_race := pk_race p, cl_commandSeq := pk_ack p, cl_stateSeq := 0, cl_pending := []\<rparr>))"
    by (simp add: cart_def)
  with \<open>intact r (cart s)\<close> show ?thesis by (simp add: new_race_def)
qed

lemma cart_snapshot_parts [simp]:
  "cart (load_snapshot p s) = cart s" "cart (bufferSnapshot t s) = cart s" "cart (arm_start s) = cart s"
  "cart (acknowledge k s) = cart s" "cart (note_snapshot t p s) = cart s"
  by (simp_all add: acknowledge_def note_snapshot_def load_snapshot_def bufferSnapshot_def arm_start_def cart_def queue_def Let_def)

lemma intact_accept_snapshot [simp]: "intact r (cart s) \<Longrightarrow> intact r (cart (accept_snapshot t p s))"
  by (simp add: accept_snapshot_def Let_def)

lemma intact_receive [simp]: "intact r (cart s) \<Longrightarrow> intact r (cart (client_receive p s))"
  by (simp add: client_receive_def Let_def case_prod_beta)

lemma intact_tick_receive: "intact r (cart s) \<Longrightarrow> intact r (cart (tick_receive n ds s))"
  by (induction n ds s rule: tick_receive.induct) (auto simp: Let_def split: list.split option.split)

lemma cart_fold_queue [simp]: "cart (fold queue cs s) = cart s"
  by (induction cs arbitrary: s) simp_all

lemma cart_tick_parts [simp]:
  "cart (send_front t s) = cart s" "cart (tick_joining t s) = cart s" "cart (tick_joined t s) = cart s"
  by (simp_all add: send_front_def tick_joining_def tick_joined_def Let_def split: list.split)

lemma intact_tick [simp]: "intact r (cart s) \<Longrightarrow> intact r (cart (tick ds s))"
  by (simp add: tick_def tick_timeout_def Let_def case_prod_beta intact_tick_receive)

text \<open>Patching the game at addresses below the title tiles.\<close>

definition ready :: "bytes \<Rightarrow> Client \<Rightarrow> bool" where
  "ready r s \<longleftrightarrow> intact r (cart s) \<and> fst (cart s)"

lemma ready_iff: "ready r s \<longleftrightarrow> intact r (cart s) \<and> cl_attached s"
  by (simp add: ready_def cart_def)

declare patch.simps [simp del]

lemma ready_patch [simp]: "ready r s \<Longrightarrow> unat a + length vs \<le> 0x67800 \<Longrightarrow> ready r (patch a vs s)"
  using intact_patch [of r s a vs] by (simp add: ready_iff)

lemma ready_poke_ram [simp]: "ready r (poke_ram a v s) = ready r s" "ready r (putWord a w s) = ready r s"
  "ready r (change g s) = ready r s" "ready r (client_log m s) = ready r s" "ready r (queue b s) = ready r s"
  "ready r (client_send p s) = ready r s" "ready r (snd (client_now s)) = ready r s"
  by (simp_all add: ready_def)

lemma ready_fields [simp]:
  "ready r (s\<lparr>cl_game := v0\<rparr>) = ready r s" "ready r (s\<lparr>cl_car := v2\<rparr>) = ready r s"
  "ready r (s\<lparr>cl_frames := v12\<rparr>) = ready r s" "ready r (s\<lparr>cl_selectedSent := v13\<rparr>) = ready r s"
  "ready r (s\<lparr>cl_loadedSent := v14\<rparr>) = ready r s" "ready r (s\<lparr>cl_finishedSent := v15\<rparr>) = ready r s"
  "ready r (s\<lparr>cl_stateSeq := v16\<rparr>) = ready r s" "ready r (s\<lparr>cl_resultsTime := v17\<rparr>) = ready r s"
  by (simp_all add: ready_def)

lemma ready_fold: "ready r s \<Longrightarrow> (\<And>x t. x \<in> set xs \<Longrightarrow> ready r t \<Longrightarrow> ready r (f x t)) \<Longrightarrow> ready r (fold f xs s)"
  by (induction xs arbitrary: s) simp_all

lemma ready_prepare_slot [simp]: "ready r (prepare_slot k s) = ready r s"
  by (simp add: prepare_slot_def Let_def)

lemma ready_prepareRace [simp]:
  assumes "ready r s"
  shows "ready r (prepareRace s)"
proof -
  let ?rest = "[0x5dfc, 0x5dda, 0xdb6, 0x3db2, 0x3dd5, 0x3def, 0x3dfe, 0x3dae, 0x3dcb, 0x3de5] :: u32 list"
  have "ready r (fold (\<lambda>address. patch address [0xea, 0xea, 0xea]) ?rest t)" if "ready r t" for t
    by (rule ready_fold [OF that]) (auto simp: ready_patch)
  moreover have "ready r (fold prepare_slot [0..<4] t)" if "ready r t" for t
    by (rule ready_fold [OF that]) simp
  ultimately show ?thesis
    unfolding prepareRace_def Let_def using assms by simp
qed

lemma ready_place_opponent [simp]: "ready r (place_opponent q k s) = ready r s"
  by (simp add: place_opponent_def Let_def)

lemma ready_opponents [simp]: "ready r s \<Longrightarrow> ready r (opponents s)"
  unfolding opponents_def Let_def case_prod_beta
  by (simp add: ready_fold)

lemma ready_start_due [simp]: "ready r (snd (start_due m s)) = ready r s"
  by (simp add: start_due_def case_prod_beta)

lemma ready_location:
  assumes "ready r s"
  shows "ready r (frame_location s)"
proof -
  have due: "ready r (let s = patch 0xab1 [0xe6, 0x55, 0xe6, 0x55, 0x64, 0x56] (opponents t); (v, s) = client_now s
      in change Race (client_log (f v s) s))" if "ready r t" for t f
    using that by (simp add: Let_def case_prod_beta)
  have load: "ready r (if c then (queue b t)\<lparr>cl_loadedSent := True\<rparr> else t)" if "ready r t" for c b t
    using that by simp
  show ?thesis
    unfolding frame_location_def Let_def case_prod_beta
    using assms due [unfolded Let_def case_prod_beta] by (simp add: load)
qed

lemma ready_frames:
  assumes "ready r s"
  shows "ready r (frame_init s)" and "ready r (frame_car_select s)" and "ready r (frame_waiting s)"
    and "ready r (frame_prepare s)" and "ready r (frame_race s)" and "ready r (frame_finished s)"
    and "ready r (frame_results s)"
  using assms unfolding frame_init_def frame_car_select_def frame_waiting_def frame_prepare_def
    frame_race_def frame_finished_def frame_results_def Let_def case_prod_beta
  by simp_all

lemma ready_frame:
  assumes "ready r s"
  shows "ready r (frame s)"
proof -
  have "ready r (hide_title_sprites (s\<lparr>cl_frames := cl_frames s + 1\<rparr>))"
    using assms by (simp add: hide_title_sprites_def)
  then show ?thesis
    using assms unfolding frame_def Let_def
    by (auto simp: ready_frames ready_location split: Game.split)
qed

lemma intact_frame [simp]: "intact r (cart s) \<Longrightarrow> intact r (cart (frame s))"
  using ready_frame [of r s] by (cases "cl_attached s") (simp_all add: ready_iff frame_def)

end
