(* ===== verification/Fz_Client_Run.thy ===== *)
theory Fz_Client_Run
  imports Fz_Client_Rom
begin

text \<open>
  The life of a client: the object as constructed, and the calls its owner makes on it while the game
  runs. Along every such run the client can give the cartridge back unchanged.
\<close>

section \<open>Runs\<close>

text \<open>The object as the member initialisers of the class leave it; the memory is not attached yet.\<close>

definition fresh_client :: "Config \<Rightarrow> Memory \<Rightarrow> client_io \<Rightarrow> Client" where
  "fresh_client config m io = \<lparr>cl_config = config, cl_attached = False, cl_memory = m, cl_socket = - 1, cl_id = - 1,
     cl_session = 0, cl_token = 0, cl_nonce = 0, cl_lastRecv = 0, cl_lastHello = 0, cl_lastPing = 0,
     cl_startTime = 0, cl_armedTime = 0, cl_lastPublish = 0, cl_lastLog = 0, cl_resultsTime = 0, cl_race = 0,
     cl_commandSeq = 0, cl_stateSeq = 0, cl_snapshotSeq = 0, cl_phase = 0, cl_host = 255, cl_expected = 2,
     cl_track = 0, cl_league = 0, cl_armedMask = 0, cl_car = 0, cl_rx = 0, cl_tx = 0, cl_bytes = 0, cl_stale = 0,
     cl_retries = 0, cl_gaps = 0, cl_snapshots = 0, cl_frames = 0, cl_prevRx = 0, cl_prevTx = 0, cl_prevBytes = 0,
     cl_prevFrames = 0, cl_rateTime = 0, cl_rtt = 0, cl_jitter = 0, cl_offset = 0, cl_bestRtt = 1000000000000,
     cl_peers = replicate 4 zero_peer, cl_snapshotBuffer = [], cl_game = Init, cl_loadedSent = False,
     cl_selectedSent = False, cl_finishedSent = False, cl_originals = [], cl_titleOriginals = [], cl_pending = [],
     cl_published = default_view, cl_requests = [], cl_events = [], cl_message = [], cl_io = io\<rparr>"

text \<open>
  What the owner of a client may assign to its public configuration: anything while no game is attached;
  afterwards the baseline mode, a command line flag of the emulator, stays as it is, and a new room key
  is no longer than a packet has room for.
\<close>

definition may_configure :: "Config \<Rightarrow> Client \<Rightarrow> bool" where
  "may_configure config s \<longleftrightarrow> (cl_attached s \<longrightarrow> cf_baseline config = cf_baseline (cl_config s)
     \<and> (cf_key config = cf_key (cl_config s) \<or> length (cf_key config) \<le> FZ_KEY_MAX))"

text \<open>
  \<open>client_run r s\<close>: the owner of the client has constructed it and called its public functions, and
  between the calls the console has run (its RAM changed) and the owner has edited the public
  configuration as allowed. \<open>r\<close> is the cartridge image the client was last given.
\<close>

inductive client_run :: "bytes \<Rightarrow> Client \<Rightarrow> bool" where
  construct: "length (mem_rom m) \<le> 2 ^ 32 \<Longrightarrow> client_run (mem_rom m) (fresh_client config m io)"
| attaching: "client_run r s \<Longrightarrow> length (mem_rom m) \<le> 2 ^ 32 \<Longrightarrow> client_run (mem_rom m) (snd (attach m env s))"
| ticking: "client_run r s \<Longrightarrow> client_run r (tick ds s)"
| framing: "client_run r s \<Longrightarrow> client_run r (frame s)"
| requesting: "client_run r s \<Longrightarrow> client_run r (request command data s)"
| failing: "client_run r s \<Longrightarrow> client_run r (failure text s)"
| detaching: "client_run r s \<Longrightarrow> client_run r (detach s)"
| emulating: "client_run r s \<Longrightarrow> client_run r (s\<lparr>cl_memory := (cl_memory s)\<lparr>mem_ram := contents\<rparr>\<rparr>)"
| configuring: "client_run r s \<Longrightarrow> may_configure config s \<Longrightarrow> client_run r (s\<lparr>cl_config := config\<rparr>)"

section \<open>Leaving a session\<close>

lemma attached_cart: "cl_attached s = fst (cart s)"
  by (simp add: cart_def)

lemma attached_restore [simp]:
  "cl_attached (restore s) = cl_attached s" "cl_attached (restoreTitle s) = cl_attached s"
  "cl_originals (restore s) = []" "cl_titleOriginals (restoreTitle s) = []"
  "cl_titleOriginals (restore s) = cl_titleOriginals s" "cl_originals (restoreTitle s) = cl_originals s"
  by (simp_all add: restore_def restoreTitle_def Let_def)

lemma intact_detach [simp]:
  assumes "intact r (cart s)"
  shows "intact r (cart (detach s))"
proof -
  define s1 where "s1 = (if cl_socket s \<ge> 0
               then let s = (if cl_id s \<ge> 0 \<and> cl_pending s = []
                             then let s = s\<lparr>cl_commandSeq := cl_commandSeq s + 1\<rparr>
                               in client_send (zero_packet\<lparr>pk_type := FZ_COMMAND, pk_seq := cl_commandSeq s,
                                    pk_length := 1, pk_payload := fill [FZ_LEAVE]\<rparr>) s
                             else s)
                 in s\<lparr>cl_socket := - 1\<rparr>
               else s)"
  have "cart s1 = cart s" by (simp add: s1_def Let_def)
  then have "intact r (cart (restoreTitle (restore s1)))" using assms by simp
  moreover have "cl_originals (restoreTitle (restore s1)) = []" "cl_titleOriginals (restoreTitle (restore s1)) = []"
    by simp_all
  moreover have "detach s = (clearSnapshotBuffer ((restoreTitle (restore s1))\<lparr>cl_attached := False, cl_id := - 1, cl_pending := []\<rparr>))
      \<lparr>cl_game := Init, cl_requests := [], cl_published := default_view\<rparr>"
    by (simp add: detach_def s1_def Let_def)
  ultimately show ?thesis
    by (simp add: cart_def clearSnapshotBuffer_def)
qed

lemma detached_cart: "fst (cart (detach s)) = False" "snd (snd (cart (detach s))) = ([], [])"
  by (simp_all add: detach_def Let_def cart_def clearSnapshotBuffer_def)

text \<open>A client whose memory is gone, or that has given up, holds no saved byte.\<close>

lemma saved_failure: "snd (snd (cart (failure text s))) = ([], [])"
proof -
  have "snd (snd (cart (power_cycle (clearSnapshotBuffer (restoreTitle (restore s)))))) = ([], [])"
    by simp (simp add: cart_def)
  then show ?thesis by (simp add: failure_def Let_def)
qed

lemma rom_of_cart: "mem_rom (cl_memory s) = fst (snd (cart s))"
  by (simp add: cart_def)

lemma given_back:
  assumes "intact r (cart s)" and "snd (snd (cart s)) = ([], [])" and "length r \<le> 2 ^ 32"
  shows "mem_rom (cl_memory s) = r"
  using assms restored_rom [of r _ "fst (snd (cart s))"] by (cases "cart s") (auto simp: rom_of_cart)

lemma cart_begin_session [simp]: "cart (begin_session random s) = cart s"
  by (simp add: begin_session_def Let_def case_prod_beta) (simp add: cart_def client_now_def)

lemma intact_attach:
  assumes "intact r (cart s)"
  shows "intact (mem_rom m) (cart (snd (attach m env s)))"
proof -
  define d where "d = (detach s)\<lparr>cl_memory := m, cl_attached := True\<rparr>"
  have "cart d = (True, mem_rom m, [], [])"
    using detached_cart [of s] by (simp add: d_def cart_def)
  then have i: "intact (mem_rom m) (cart d)"
    by (simp add: original_def)
  note title = intact_patchTitleMenu [THEN conjunct1]
  have "intact (mem_rom m) (cart (resetGame (patchTitleMenu t)))" if "cart t = cart d" for t
    using title [of "mem_rom m" t] i that by simp
  then show ?thesis
    using i unfolding attach_def Let_def case_prod_beta d_def [symmetric]
    by (simp split: option.split)
qed

lemma run_intact: "client_run r s \<Longrightarrow> length r \<le> 2 ^ 32 \<and> intact r (cart s)"
proof (induction rule: client_run.induct)
  case (construct m config io)
  then show ?case by (simp add: cart_def fresh_client_def original_def)
next
  case (emulating r s contents)
  then show ?case by (simp add: cart_def)
next
  case (configuring r s config)
  then show ?case by (simp add: cart_def)
qed (auto simp: intact_attach)

lemma run_detach_rom: "client_run r s \<Longrightarrow> mem_rom (cl_memory (detach s)) = r"
  using run_intact [OF client_run.detaching] given_back detached_cart(2) by blast

lemma run_failure_rom: "client_run r s \<Longrightarrow> mem_rom (cl_memory (failure text s)) = r"
  using run_intact [OF client_run.failing] given_back saved_failure by blast

end
