(* ===== verification/Fz_Client_Inv.thy ===== *)
theory Fz_Client_Inv
  imports Fz_Client_Run
begin

text \<open>
  What holds of the client between any two calls: the bounds of its queues, the numbering of its
  unacknowledged commands, the ranges of everything it takes from the network and uses as an index,
  and what a disconnected client has given up.
\<close>

section \<open>The invariant\<close>

definition peer_ok :: "Peer \<Rightarrow> bool" where
  "peer_ok q \<longleftrightarrow> pr_status q \<le> FZ_DISCONNECTED \<and> pr_car q \<le> 3"

definition peers_ok :: "Peer list \<Rightarrow> bool" where
  "peers_ok qs \<longleftrightarrow> length qs = 4 \<and> list_all peer_ok qs"

text \<open>Unacknowledged commands carry consecutive numbers, the last of which is \<open>commandSeq\<close>.\<close>

definition command_ok :: "fz_packet \<Rightarrow> bool" where
  "command_ok p \<longleftrightarrow> pk_type p = FZ_COMMAND \<and> canonical p \<and> pk_length p \<noteq> 0"

fun numbered :: "u32 \<Rightarrow> Pending list \<Rightarrow> bool" where
  "numbered c [] \<longleftrightarrow> True"
| "numbered c (d # ds) \<longleftrightarrow> pk_seq (pd_packet d) + of_nat (length ds) = c \<and> command_ok (pd_packet d) \<and> numbered c ds"

definition outbox_ok :: "Client \<Rightarrow> bool" where
  "outbox_ok s \<longleftrightarrow> - 1 \<le> cl_id s \<and> cl_id s < 4 \<and> (cl_id s < 0 \<longrightarrow> cl_pending s = [])
     \<and> length (cl_pending s) \<le> 8 \<and> numbered (cl_commandSeq s) (cl_pending s) \<and> length (cl_requests s) \<le> 8
     \<and> [] \<notin> set (cl_requests s)"

definition picture_ok :: "Client \<Rightarrow> bool" where
  "picture_ok s \<longleftrightarrow> peers_ok (cl_peers s) \<and> length (cl_snapshotBuffer s) \<le> 16
     \<and> list_all (\<lambda>n. peers_ok (sn_peers n)) (cl_snapshotBuffer s) \<and> cl_phase s \<le> FZ_RESULTS
     \<and> 2 \<le> cl_expected s \<and> cl_expected s \<le> 4 \<and> (cl_host s \<le> 3 \<or> cl_host s = 255) \<and> cl_track s \<le> 4 \<and> cl_league s \<le> 2
     \<and> cl_car s \<le> 3 \<and> length (cl_events s) \<le> 12"

text \<open>The game states in which the client indexes its tables with its player number.\<close>

definition seated :: "Game \<Rightarrow> bool" where
  "seated g \<longleftrightarrow> g \<in> {Prepare, Location, Race, Finished, Results}"

text \<open>
  In baseline mode the client only follows the game: it may race without having joined, and
  leaves the tables and the game alone.
\<close>

definition game_ok :: "Client \<Rightarrow> bool" where
  "game_ok s \<longleftrightarrow> (seated (cl_game s) \<longrightarrow> cl_attached s \<and> (0 \<le> cl_id s \<or> cf_baseline (cl_config s) \<and> cl_game s = Race))
     \<and> (cl_game s = Disconnected \<longrightarrow> cl_socket s < 0 \<and> cl_originals s = [] \<and> cl_titleOriginals s = [])
     \<and> (0 \<le> cl_socket s \<longrightarrow> cl_attached s \<and> length (cf_key (cl_config s)) \<le> FZ_KEY_MAX)"

definition client_ok :: "Client \<Rightarrow> bool" where
  "client_ok s \<longleftrightarrow> outbox_ok s \<and> picture_ok s \<and> game_ok s"

section \<open>The outbox\<close>

lemma numbered_append:
  "numbered c ds \<Longrightarrow> numbered (c + 1) (ds @ [d]) \<longleftrightarrow> pk_seq (pd_packet d) = c + 1 \<and> command_ok (pd_packet d)"
  by (induction ds) (auto simp: algebra_simps)

lemma numbered_dropWhile: "numbered c ds \<Longrightarrow> numbered c (dropWhile P ds)"
  by (induction ds) auto

lemma length_dropWhile_le8: "length ds \<le> 8 \<Longrightarrow> length (dropWhile P ds) \<le> 8"
  using length_dropWhile_le [of P ds] by linarith

section \<open>Operations that touch none of it\<close>

lemmas client_ok_defs = client_ok_def outbox_ok_def picture_ok_def game_ok_def

lemma client_ok_fields [simp]:
  "client_ok (s\<lparr>cl_memory := v1\<rparr>) = client_ok s" "client_ok (s\<lparr>cl_lastRecv := v2\<rparr>) = client_ok s"
  "client_ok (s\<lparr>cl_stale := v3\<rparr>) = client_ok s" "client_ok (s\<lparr>cl_gaps := v4\<rparr>) = client_ok s"
  "client_ok (s\<lparr>cl_armedTime := v5\<rparr>) = client_ok s" "client_ok (s\<lparr>cl_lastHello := v6\<rparr>) = client_ok s"
  "client_ok (s\<lparr>cl_lastPing := v7\<rparr>) = client_ok s" "client_ok (s\<lparr>cl_retries := v8\<rparr>) = client_ok s"
  "client_ok (s\<lparr>cl_frames := v9\<rparr>) = client_ok s" "client_ok (s\<lparr>cl_selectedSent := v10\<rparr>) = client_ok s"
  "client_ok (s\<lparr>cl_loadedSent := v11\<rparr>) = client_ok s" "client_ok (s\<lparr>cl_finishedSent := v12\<rparr>) = client_ok s"
  "client_ok (s\<lparr>cl_stateSeq := v13\<rparr>) = client_ok s" "client_ok (s\<lparr>cl_resultsTime := v14\<rparr>) = client_ok s"
  "client_ok (s\<lparr>cl_startTime := v15\<rparr>) = client_ok s" "client_ok (s\<lparr>cl_rx := v16\<rparr>) = client_ok s"
  "client_ok (s\<lparr>cl_bytes := v17\<rparr>) = client_ok s" "client_ok (s\<lparr>cl_io := v18\<rparr>) = client_ok s"
  by (simp_all add: client_ok_defs)

lemma client_ok_ops [simp]:
  "client_ok (snd (client_now s)) = client_ok s" "client_ok (print_line text s) = client_ok s"
  "client_ok (poke_ram a v s) = client_ok s" "client_ok (putWord a w s) = client_ok s"
  "client_ok (poke_rom a v s) = client_ok s" "client_ok (power_cycle s) = client_ok s"
  "client_ok (hide_title_sprites s) = client_ok s"
  by (simp_all add: client_now_def print_line_def poke_ram_def putWord_def poke_rom_def power_cycle_def hide_title_sprites_def)

lemma client_ok_send [simp]: "client_ok (client_send p s) = client_ok s"
  by (simp add: client_send_def Let_def client_ok_defs)

lemma client_ok_log [simp]: "client_ok s \<Longrightarrow> client_ok (client_log text s)"
  by (auto simp: client_log_def client_now_def print_line_def Let_def client_ok_defs)

lemma client_ok_publish [simp]: "client_ok (publish s) = client_ok s"
  by (simp add: publish_def Let_def case_prod_beta) (simp add: client_ok_defs client_now_def print_line_def)

text \<open>The fields the guards of the operations read.\<close>

definition berth :: "Client \<Rightarrow> int \<times> bool \<times> Game \<times> int \<times> bool" where
  "berth s = (cl_id s, cl_attached s, cl_game s, cl_socket s, cf_baseline (cl_config s))"

lemma seat_ops [simp]:
  "berth (snd (client_now s)) = berth s" "berth (print_line text s) = berth s" "berth (client_log text s) = berth s"
  "berth (poke_ram a v s) = berth s" "berth (putWord a w s) = berth s" "berth (poke_rom a v s) = berth s"
  "berth (power_cycle s) = berth s" "berth (restore s) = berth s" "berth (restoreTitle s) = berth s"
  "berth (clearSnapshotBuffer s) = berth s" "berth (client_send p s) = berth s" "berth (queue b s) = berth s"
  "berth (hide_title_sprites s) = berth s" "berth (bufferSnapshot t s) = berth s" "berth (load_snapshot p s) = berth s"
  by (simp_all add: berth_def client_now_def print_line_def client_log_def poke_ram_def putWord_def poke_rom_def
      power_cycle_def restore_def restoreTitle_def clearSnapshotBuffer_def client_send_def queue_def
      hide_title_sprites_def bufferSnapshot_def load_snapshot_def Let_def)

lemma seat_publish [simp]: "berth (publish s) = berth s"
  by (simp add: publish_def Let_def case_prod_beta berth_def client_now_def print_line_def)

lemma seat_patch [simp]: "berth (patch a vs s) = berth s"
  by (induction a vs s rule: patch.induct) (auto simp: patch.simps Let_def berth_def poke_rom_def)

lemma seat_put_title [simp]: "berth (put_title a vs s) = berth s"
  by (induction a vs s rule: put_title.induct) (auto simp: berth_def poke_rom_def)

lemma seat_patchTitleMenu [simp]: "berth (patchTitleMenu s) = berth s"
proof -
  have "berth (fold (\<lambda>x s. patchTile px x 1 (f x) (patchTile px x 0 (g x) s)) xs s) = berth s" for px f g xs
    by (induction xs arbitrary: s) (simp_all add: patchTile_def)
  then show ?thesis by (simp add: patchTitleMenu_def)
qed

lemma seat_change: "berth (change g s) = (cl_id s, cl_attached s, g, cl_socket s, cf_baseline (cl_config s))"
  by (simp add: change_def client_log_def client_now_def print_line_def Let_def berth_def)

section \<open>Operations on the outbox\<close>

lemma client_ok_queue [simp]:
  assumes "client_ok s" and "b \<noteq> []"
  shows "client_ok (queue b s)"
proof (cases "cl_id s < 0 \<or> length (cl_pending s) \<ge> 8 \<or> length b > FZ_PAYLOAD")
  case True
  then show ?thesis using assms by (auto simp: queue_def)
next
  case False
  define p where "p = zero_packet\<lparr>pk_type := FZ_COMMAND,
      pk_seq := cl_commandSeq s + 1, pk_length := of_nat (length b), pk_payload := fill b\<rparr>"
  have len: "unat (of_nat (length b) :: u16) = length b" using False by (simp add: unat_of_nat)
  then have "(of_nat (length b) :: u16) \<noteq> 0" using assms(2) by (metis length_0_conv unsigned_0)
  with len False have "command_ok p" by (simp add: command_ok_def p_def canonical_def)
  then have "numbered (cl_commandSeq s + 1) (cl_pending s @ [\<lparr>pd_packet = p, pd_sent = 0\<rparr>])"
    using assms by (subst numbered_append) (simp_all add: client_ok_defs p_def)
  with False assms show ?thesis
    by (auto simp: queue_def Let_def client_ok_defs p_def [symmetric])
qed

lemma position_not_empty [simp]: "position v s \<noteq> []"
  by (simp add: position_def)

lemma client_ok_fold_queue: "client_ok s \<Longrightarrow> [] \<notin> set bs \<Longrightarrow> client_ok (fold queue bs s)"
  by (induction bs arbitrary: s) auto

lemma client_ok_request [simp]: "client_ok s \<Longrightarrow> client_ok (request c d s)"
  by (auto simp: request_def client_ok_defs)

lemma client_ok_send_front [simp]:
  assumes "client_ok s"
  shows "client_ok (send_front t s)"
proof (cases "cl_pending s")
  case (Cons d ds)
  have "cl_pending (client_send p (if c then s\<lparr>cl_retries := k\<rparr> else s)) = d # ds" for p c k
    by (simp add: client_send_def Let_def Cons)
  moreover have "client_ok t \<Longrightarrow> cl_pending t = d # ds \<Longrightarrow> client_ok (t\<lparr>cl_pending := d\<lparr>pd_sent := v\<rparr> # ds\<rparr>)" for t v
    by (auto simp: client_ok_defs)
  ultimately show ?thesis
    using assms by (simp add: send_front_def Cons Let_def)
qed (simp add: send_front_def assms)

section \<open>Operations on the game\<close>

lemma client_ok_saved:
  "client_ok s \<Longrightarrow> cl_game s \<noteq> Disconnected \<Longrightarrow> client_ok (s\<lparr>cl_originals := m\<rparr>)"
  "client_ok s \<Longrightarrow> cl_game s \<noteq> Disconnected \<Longrightarrow> client_ok (s\<lparr>cl_titleOriginals := m\<rparr>)"
  "client_ok s \<Longrightarrow> client_ok (s\<lparr>cl_originals := []\<rparr>)" "client_ok s \<Longrightarrow> client_ok (s\<lparr>cl_titleOriginals := []\<rparr>)"
  by (auto simp: client_ok_defs)

lemma client_ok_restore [simp]: "client_ok s \<Longrightarrow> client_ok (restore s)" "client_ok s \<Longrightarrow> client_ok (restoreTitle s)"
  by (simp_all add: restore_def restoreTitle_def Let_def client_ok_saved)

lemma client_ok_clear [simp]: "client_ok s \<Longrightarrow> client_ok (clearSnapshotBuffer s)"
  by (auto simp: clearSnapshotBuffer_def client_ok_defs)

lemma game_seat: "cl_game s = fst (snd (snd (berth s)))" "cl_id s = fst (berth s)" "cl_attached s = fst (snd (berth s))"
  "cl_socket s = fst (snd (snd (snd (berth s))))"
  by (simp_all add: berth_def)

lemma client_ok_patch [simp]: "client_ok s \<Longrightarrow> cl_game s \<noteq> Disconnected \<Longrightarrow> client_ok (patch a vs s)"
proof (induction a vs s rule: patch.induct)
  case (2 a v vs s)
  define s1 where "s1 = (if map_of (cl_originals s) a = None
               then s\<lparr>cl_originals := map_put a (rom s a) (cl_originals s)\<rparr> else s)"
  have "client_ok (poke_rom a v s1)" "cl_game (poke_rom a v s1) \<noteq> Disconnected"
    using "2.prems" by (simp_all add: s1_def client_ok_saved poke_rom_def)
  then show ?case using "2.IH" [OF s1_def] by (simp add: patch.simps s1_def [symmetric])
qed (simp add: patch.simps)

lemma client_ok_put_title: "client_ok s \<Longrightarrow> cl_game s \<noteq> Disconnected \<Longrightarrow> client_ok (put_title a vs s)"
  by (induction a vs s rule: put_title.induct) (simp_all add: client_ok_saved poke_rom_def)

lemma client_ok_patchTitleMenu [simp]:
  assumes "client_ok s" and "cl_game s \<noteq> Disconnected"
  shows "client_ok (patchTitleMenu s)"
proof -
  have "client_ok (fold (\<lambda>x s. patchTile px x 1 (f x) (patchTile px x 0 (g x) s)) xs t)"
    if "client_ok t" "cl_game t \<noteq> Disconnected" for px f g xs t
    using that
    by (induction xs arbitrary: t) (simp_all add: patchTile_def client_ok_put_title game_seat)
  then show ?thesis using assms by (simp add: patchTitleMenu_def)
qed

lemma client_ok_game:
  "client_ok s \<Longrightarrow> g \<noteq> Disconnected \<Longrightarrow> (seated g \<longrightarrow> cl_attached s \<and> (0 \<le> cl_id s \<or> cf_baseline (cl_config s) \<and> g = Race)) \<Longrightarrow> client_ok (s\<lparr>cl_game := g\<rparr>)"
  by (auto simp: client_ok_defs)

lemma client_ok_change:
  "client_ok s \<Longrightarrow> g \<noteq> Disconnected \<Longrightarrow> (seated g \<longrightarrow> cl_attached s \<and> (0 \<le> cl_id s \<or> cf_baseline (cl_config s) \<and> g = Race)) \<Longrightarrow> client_ok (change g s)"
  by (simp add: change_def client_ok_game client_log_def client_now_def print_line_def)
    (auto simp: Let_def client_ok_defs)

lemma client_ok_car: "client_ok s \<Longrightarrow> v \<le> 3 \<Longrightarrow> client_ok (s\<lparr>cl_car := v\<rparr>)"
  by (auto simp: client_ok_defs)

lemma client_ok_resetGame [simp]: "client_ok s \<Longrightarrow> client_ok (resetGame s)"
proof -
  assume "client_ok s"
  then have "client_ok (clearSnapshotBuffer (power_cycle (restore s)))" by simp
  then have "client_ok ((clearSnapshotBuffer (power_cycle (restore s)))\<lparr>cl_game := Init, cl_car := 0\<rparr>)"
    by (simp add: client_ok_game client_ok_car seated_def)
  then show ?thesis by (simp add: resetGame_def Let_def) (auto simp: client_ok_defs)
qed

lemma disconnect_ok:
  "client_ok s \<Longrightarrow> cl_originals s = [] \<Longrightarrow> cl_titleOriginals s = [] \<Longrightarrow> client_ok (s\<lparr>cl_socket := - 1, cl_game := Disconnected\<rparr>)"
  by (auto simp: client_ok_defs seated_def)

lemma client_ok_failure [simp]:
  assumes "client_ok s"
  shows "client_ok (failure text s)"
proof -
  define t where "t = power_cycle (clearSnapshotBuffer (restoreTitle (restore s)))"
  have t: "client_ok t" "cl_originals t = []" "cl_titleOriginals t = []"
    using assms by (simp_all add: t_def) (simp_all add: power_cycle_def clearSnapshotBuffer_def)
  define u where "u = (if cl_socket t \<ge> 0 then t\<lparr>cl_socket := - 1\<rparr> else t)"
  have u: "client_ok u" "cl_originals u = []" "cl_titleOriginals u = []" "cl_socket u < 0"
    using t by (auto simp: u_def client_ok_defs)
  have "client_ok (change Disconnected u)"
  proof -
    have "client_ok (client_log m u)" for m using u by simp
    then show ?thesis using u
      by (simp add: change_def client_log_def client_now_def print_line_def) (auto simp: Let_def client_ok_defs seated_def)
  qed
  then show ?thesis by (simp add: failure_def Let_def t_def [symmetric] u_def [symmetric])
qed

section \<open>The packet handler and the tick\<close>

lemma client_ok_accept_welcome [simp]:
  assumes "client_ok s" and "cl_id s < 0" and "pk_payload p ! 0 < 4"
  shows "client_ok (accept_welcome t p s)"
proof -
  define n where "n = unat (pk_payload p ! 0)"
  have "n < 4" using assms(3) by (simp add: n_def word_less_nat_alt)
  then have "client_ok (s\<lparr>cl_id := int n, cl_session := pk_session p, cl_token := pk_token p,
               cl_race := pk_race p, cl_commandSeq := pk_ack p, cl_lastRecv := t\<rparr>)"
    using assms(1,2) by (auto simp: client_ok_defs)
  then show ?thesis
    unfolding accept_welcome_def Let_def n_def [symmetric] by (rule client_ok_log)
qed

lemma client_ok_accept_pong [simp]: "client_ok (accept_pong t p s) = client_ok s"
  by (simp add: accept_pong_def Let_def) (simp add: client_ok_defs)

lemma client_ok_new_race [simp]:
  assumes "client_ok s"
  shows "client_ok (new_race p s)"
proof -
  have "client_ok (s\<lparr>cl_race := pk_race p, cl_commandSeq := pk_ack p, cl_stateSeq := 0, cl_pending := []\<rparr>)"
    using assms by (auto simp: client_ok_defs)
  then show ?thesis using assms by (simp add: new_race_def)
qed

lemma valid_peers:
  assumes "valid_snapshot p" and "length (pk_payload p) = FZ_PAYLOAD"
  shows "peers_ok (map (\<lambda>i. peer_record (drop (24 + i * 16) (pk_payload p))) [0..<4])"
proof -
  have "peer_ok (peer_record (drop (24 + i * 16) (pk_payload p)))" if "i < 4" for i
  proof -
    have "pk_payload p ! (24 + i * 16) \<le> FZ_DISCONNECTED" "pk_payload p ! (25 + i * 16) \<le> 3"
      using assms(1) that by (simp_all add: valid_snapshot_def list_all_iff not_less)
    then show ?thesis using assms(2) that by (simp add: peer_ok_def peer_record_def)
  qed
  then show ?thesis by (simp add: peers_ok_def list_all_iff)
qed

lemma client_ok_load_snapshot:
  "client_ok s \<Longrightarrow> valid_snapshot p \<Longrightarrow> length (pk_payload p) = FZ_PAYLOAD \<Longrightarrow> client_ok (load_snapshot p s)"
proof -
  assume *: "client_ok s" "valid_snapshot p" "length (pk_payload p) = FZ_PAYLOAD"
  have "outbox_ok (load_snapshot p s) = outbox_ok s" "game_ok (load_snapshot p s) = game_ok s"
    by (simp_all add: load_snapshot_def outbox_ok_def game_ok_def)
  moreover have "picture_ok (load_snapshot p s)"
    using * valid_peers [of p] unfolding client_ok_def picture_ok_def load_snapshot_def valid_snapshot_def
    by (simp add: not_less)
  ultimately show ?thesis using *(1) by (simp add: client_ok_def)
qed

lemma length_newest [simp]: "length (newest n xs) = min n (length xs)"
  by (simp add: newest_rev)

lemma set_newest: "set (newest n xs) \<subseteq> set xs"
  by (auto simp: newest_rev dest: in_set_takeD)

lemma client_ok_bufferSnapshot [simp]:
  assumes "client_ok s"
  shows "client_ok (bufferSnapshot t s)"
proof -
  have "list_all (\<lambda>n. peers_ok (sn_peers n)) (newest 16 (cl_snapshotBuffer s @ [\<lparr>sn_time = t, sn_peers = cl_peers s\<rparr>]))"
    using assms set_newest by (fastforce simp: client_ok_defs list_all_iff)
  then show ?thesis using assms by (auto simp: bufferSnapshot_def client_ok_defs)
qed

lemma client_ok_arm_start [simp]: "client_ok s \<Longrightarrow> client_ok (arm_start s)"
  by (simp add: arm_start_def)

lemma client_ok_acknowledge [simp]: "client_ok s \<Longrightarrow> client_ok (acknowledge k s)"
  by (auto simp: acknowledge_def client_ok_defs numbered_dropWhile length_dropWhile_le8)

lemma client_ok_note_snapshot [simp]: "client_ok (note_snapshot t p s) = client_ok s"
  by (simp add: note_snapshot_def Let_def client_ok_defs)

lemma client_ok_accept_snapshot [simp]:
  "client_ok s \<Longrightarrow> valid_snapshot p \<Longrightarrow> length (pk_payload p) = FZ_PAYLOAD \<Longrightarrow> client_ok (accept_snapshot t p s)"
  by (simp add: accept_snapshot_def Let_def client_ok_load_snapshot)

lemma client_ok_receive [simp]:
  assumes "client_ok s" and "length (pk_payload p) = FZ_PAYLOAD"
  shows "client_ok (client_receive p s)"
proof -
  have "client_ok (snd (client_now s))" "cl_id (snd (client_now s)) = cl_id s"
    using assms(1) by (simp_all add: game_seat)
  then show ?thesis
    using assms(2) unfolding client_receive_def Let_def case_prod_beta by (simp add: not_le)
qed

lemma decoded_length: "fz_decode b = Some p \<Longrightarrow> length (pk_payload p) = FZ_PAYLOAD"
  by (auto simp: fz_decode_def split: if_splits)

lemma client_ok_tick_receive: "client_ok s \<Longrightarrow> client_ok (tick_receive n ds s)"
  by (induction n ds s rule: tick_receive.induct) (auto simp: Let_def decoded_length split: list.split option.split)

lemma client_ok_tick_joining [simp]: "client_ok s \<Longrightarrow> client_ok (tick_joining t s)"
  by (simp add: tick_joining_def)

lemma client_ok_tick_joined [simp]:
  assumes "client_ok s"
  shows "client_ok (tick_joined t s)"
proof -
  have "client_ok (s\<lparr>cl_requests := []\<rparr>)" "[] \<notin> set (cl_requests s)" using assms by (auto simp: client_ok_defs)
  then show ?thesis by (simp add: tick_joined_def Let_def client_ok_fold_queue)
qed

lemma client_ok_tick [simp]: "client_ok s \<Longrightarrow> client_ok (tick ds s)"
  by (simp add: tick_def tick_timeout_def Let_def case_prod_beta client_ok_tick_receive)

section \<open>The frame\<close>

text \<open>A client that may work on the running game, and in the states of \<open>seated\<close> has its player number.\<close>

definition playing :: "Client \<Rightarrow> bool" where
  "playing s \<longleftrightarrow> client_ok s \<and> cl_attached s \<and> cl_game s \<noteq> Disconnected"

lemma playing_ops [simp]:
  "playing (snd (client_now s)) = playing s" "playing (poke_ram a v s) = playing s" "playing (putWord a w s) = playing s"
  "playing (client_send p s) = playing s" "playing (hide_title_sprites s) = playing s"
  "playing (s\<lparr>cl_frames := v9\<rparr>) = playing s" "playing (s\<lparr>cl_selectedSent := v10\<rparr>) = playing s"
  "playing (s\<lparr>cl_loadedSent := v11\<rparr>) = playing s" "playing (s\<lparr>cl_finishedSent := v12\<rparr>) = playing s"
  "playing (s\<lparr>cl_stateSeq := v13\<rparr>) = playing s" "playing (s\<lparr>cl_resultsTime := v14\<rparr>) = playing s"
  by (simp_all add: playing_def game_seat del: seat_ops) (simp_all add: game_seat [symmetric] berth_def client_now_def
      poke_ram_def putWord_def client_send_def hide_title_sprites_def Let_def)

lemma playing_steps [simp]:
  "playing s \<Longrightarrow> b \<noteq> [] \<Longrightarrow> playing (queue b s)" "playing s \<Longrightarrow> playing (client_log text s)" "playing s \<Longrightarrow> playing (patch a vs s)"
  by (simp_all add: playing_def game_seat)

lemma playing_change:
  "playing s \<Longrightarrow> g \<noteq> Disconnected \<Longrightarrow> (seated g \<longrightarrow> 0 \<le> cl_id s) \<Longrightarrow> playing (change g s)"
  by (simp add: playing_def client_ok_change game_seat seat_change)

lemma playing_fold: "playing s \<Longrightarrow> (\<And>x t. x \<in> set xs \<Longrightarrow> playing t \<Longrightarrow> playing (f x t)) \<Longrightarrow> playing (fold f xs s)"
  by (induction xs arbitrary: s) simp_all

lemma id_fold: "(\<And>x t. x \<in> set xs \<Longrightarrow> cl_id (f x t) = cl_id t) \<Longrightarrow> cl_id (fold f xs s) = cl_id s"
  by (induction xs arbitrary: s) simp_all

lemma cl_id_ops [simp]:
  "cl_id (snd (client_now s)) = cl_id s" "cl_id (poke_ram a v s) = cl_id s" "cl_id (putWord a w s) = cl_id s"
  "cl_id (patch a vs s) = cl_id s" "cl_id (queue b s) = cl_id s" "cl_id (client_send p s) = cl_id s" "cl_id (client_log text s) = cl_id s"
  by (simp_all add: game_seat)

lemma playing_prepareRace [simp]: "playing s \<Longrightarrow> playing (prepareRace s)"
  unfolding prepareRace_def Let_def
  by (simp add: playing_fold prepare_slot_def)

lemma id_prepareRace [simp]: "cl_id (prepareRace s) = cl_id s"
proof -
  have "cl_id (fold prepare_slot xs t) = cl_id t" "cl_id (fold (\<lambda>a. patch a vs) ys t) = cl_id t" for xs ys vs t
    by (simp_all add: id_fold prepare_slot_def Let_def)
  then show ?thesis by (simp add: prepareRace_def Let_def)
qed

lemma playing_opponents [simp]: "playing s \<Longrightarrow> playing (opponents s)"
  unfolding opponents_def Let_def case_prod_beta
  by (simp add: playing_fold place_opponent_def Let_def)

lemma id_opponents [simp]: "cl_id (opponents s) = cl_id s"
  unfolding opponents_def Let_def case_prod_beta
  by (simp add: id_fold place_opponent_def Let_def)

lemma playing_start_due [simp]: "playing (snd (start_due m s)) = playing s" "cl_id (snd (start_due m s)) = cl_id s"
  by (simp_all add: start_due_def case_prod_beta)

lemma playing_car: "playing s \<Longrightarrow> v \<le> 3 \<Longrightarrow> playing (s\<lparr>cl_car := v\<rparr>)"
  by (simp add: playing_def client_ok_car)

lemma menu_car: "[0, 2, 1, 3 :: u8] ! unat (v AND 3 :: u8) \<le> 3"
proof -
  have "unat (v AND 3) \<le> 3" using word_and_le1 [of v 3] by (simp add: word_le_nat_alt)
  then consider "unat (v AND 3) = 0" | "unat (v AND 3) = 1" | "unat (v AND 3) = 2" | "unat (v AND 3) = 3" by linarith
  then show ?thesis by cases simp_all
qed

lemma playing_early:
  assumes "playing s"
  shows "playing (frame_init s)" and "playing (frame_car_select s)" and "playing (frame_waiting s)"
  using assms unfolding frame_init_def frame_car_select_def frame_waiting_def Let_def
  by (simp_all add: playing_change playing_car menu_car seated_def)

lemma playing_late:
  assumes "playing s" and "0 \<le> cl_id s"
  shows "playing (frame_prepare s)" and "playing (frame_race s)" and "playing (frame_finished s)" and "playing (frame_results s)"
  using assms unfolding frame_prepare_def frame_race_def frame_finished_def frame_results_def Let_def case_prod_beta
  by (simp_all add: playing_change seated_def)

lemma playing_location:
  assumes "playing s" and "0 \<le> cl_id s"
  shows "playing (frame_location s)"
  using assms unfolding frame_location_def Let_def case_prod_beta
  by (simp add: playing_change seated_def)

lemma client_ok_frame [simp]:
  assumes "client_ok s"
  shows "client_ok (frame s)"
proof (cases "\<not> cl_attached s \<or> cl_game s = Disconnected")
  case False
  define t where "t = hide_title_sprites (s\<lparr>cl_frames := cl_frames s + 1\<rparr>)"
  have t: "playing t" using False assms by (simp add: t_def) (simp add: playing_def)
  have berth: "cl_id t = cl_id s" "cl_game t = cl_game s" "cl_config t = cl_config s"
    by (simp_all add: t_def hide_title_sprites_def poke_ram_def)
  have id: "seated (cl_game t) \<Longrightarrow> \<not> cf_baseline (cl_config t) \<Longrightarrow> 0 \<le> cl_id t"
    using assms berth by (auto simp: client_ok_defs)
  have "client_ok (t\<lparr>cl_game := Race\<rparr>)" "client_ok (t\<lparr>cl_game := CarSelect\<rparr>)" if "cf_baseline (cl_config t)"
    using t that by (auto simp: playing_def seated_def intro!: client_ok_game)
  moreover have "client_ok (case cl_game t of
              Init \<Rightarrow> frame_init t | CarSelect \<Rightarrow> frame_car_select t | Waiting \<Rightarrow> frame_waiting t
            | Prepare \<Rightarrow> frame_prepare t | Location \<Rightarrow> frame_location t | Race \<Rightarrow> frame_race t
            | Finished \<Rightarrow> frame_finished t | Results \<Rightarrow> frame_results t | Disconnected \<Rightarrow> t)" if "\<not> cf_baseline (cl_config t)"
    using playing_early [OF t] playing_late [OF t] playing_location [OF t] id that t
    by (cases "cl_game t") (simp_all add: seated_def playing_def)
  ultimately show ?thesis
    using False unfolding frame_def Let_def t_def [symmetric] by simp
qed (use assms in \<open>auto simp: frame_def\<close>)

section \<open>Attaching, detaching, and every run\<close>

lemma client_ok_left: "client_ok s \<Longrightarrow> client_ok (s\<lparr>cl_published := v\<rparr>)" "client_ok s \<Longrightarrow> cl_pending s = [] \<Longrightarrow> client_ok (s\<lparr>cl_commandSeq := c\<rparr>)"
  "client_ok s \<Longrightarrow> client_ok (s\<lparr>cl_socket := - 1\<rparr>)"
  by (auto simp: client_ok_defs)

lemma client_ok_detach [simp]:
  assumes "client_ok s"
  shows "client_ok (detach s)"
proof -
  define s1 where "s1 = (if cl_socket s \<ge> 0
               then let s = (if cl_id s \<ge> 0 \<and> cl_pending s = []
                             then let s = s\<lparr>cl_commandSeq := cl_commandSeq s + 1\<rparr>
                               in client_send (zero_packet\<lparr>pk_type := FZ_COMMAND, pk_seq := cl_commandSeq s,
                                    pk_length := 1, pk_payload := fill [FZ_LEAVE]\<rparr>) s
                             else s)
                 in s\<lparr>cl_socket := - 1\<rparr>
               else s)"
  have "client_ok s1" "cl_socket s1 < 0" using assms by (auto simp: s1_def Let_def client_ok_left)
  define s2 where "s2 = restoreTitle (restore s1)"
  have s2: "client_ok s2" "cl_socket s2 < 0" "cl_originals s2 = []" "cl_titleOriginals s2 = []"
    using \<open>client_ok s1\<close> \<open>cl_socket s1 < 0\<close> by (simp_all add: s2_def) (simp add: restoreTitle_def restore_def Let_def)
  have "client_ok (s2\<lparr>cl_attached := False, cl_id := - 1, cl_pending := [], cl_snapshotBuffer := [], cl_game := Init, cl_requests := [], cl_published := default_view\<rparr>)"
    using s2 by (auto simp: client_ok_defs seated_def)
  then show ?thesis
    by (simp add: detach_def s1_def [symmetric] s2_def [symmetric] clearSnapshotBuffer_def Let_def)
qed

lemma no_peers_ok: "peers_ok (replicate 4 zero_peer)"
  by (simp add: peers_ok_def list_all_iff peer_ok_def zero_peer_def)

lemma client_ok_begin_session [simp]:
  assumes "client_ok s" and "cl_game s = Init"
  shows "client_ok (begin_session random s)" and "cl_game (begin_session random s) = Init"
  using assms no_peers_ok by (auto simp: begin_session_def client_now_def Let_def client_ok_defs seated_def)

lemma client_ok_attach:
  assumes "client_ok s"
  shows "client_ok (snd (attach m env s))"
proof -
  define d where "d = (detach s)\<lparr>cl_memory := m, cl_attached := True\<rparr>"
  have "cl_game d = Init" and "client_ok d"
    using client_ok_detach [OF assms] by (auto simp: d_def detach_def Let_def client_ok_defs)
  then have f: "client_ok (d\<lparr>cl_socket := v\<rparr>)" "cl_game (d\<lparr>cl_socket := v\<rparr>) = Init" if "length (cf_key (cl_config d)) \<le> FZ_KEY_MAX" for v
    using that by (auto simp: client_ok_defs d_def)
  have session: "client_ok (resetGame (patchTitleMenu (begin_session random t)))" if "client_ok t" "cl_game t = Init" for random t
    using that by simp
  show ?thesis
    using f \<open>client_ok d\<close> \<open>cl_game d = Init\<close> unfolding attach_def Let_def d_def [symmetric]
    by (auto split: option.split)
qed

lemma fresh_ok: "client_ok (fresh_client config m io)"
  by (simp add: fresh_client_def client_ok_defs seated_def no_peers_ok)

lemma run_ok: "client_run r s \<Longrightarrow> client_ok s"
proof (induction rule: client_run.induct)
  case (configuring r s config)
  then show ?case by (auto simp: client_ok_defs may_configure_def)
qed (simp_all add: fresh_ok client_ok_attach)

lemma run_disconnected_rom:
  assumes "client_run r s" and "cl_game s = Disconnected"
  shows "mem_rom (cl_memory s) = r"
proof -
  have "snd (snd (cart s)) = ([], [])"
    using run_ok [OF assms(1)] assms(2) by (simp add: client_ok_defs cart_def)
  with run_intact [OF assms(1)] show ?thesis by (auto intro: given_back)
qed

end
