(* ===== verification/Fz_Client_Smooth.thy ===== *)
theory Fz_Client_Smooth
  imports Fz_Client_Render
begin

text \<open>
  The rendered position of an opponent: between the two snapshots around the render time and, for the
  direction it faces, on the shorter way from one to the other, whatever double rounding does.
\<close>

section \<open>Linear interpolation under rounding\<close>

context rounding
begin

lemma rnd_share:
  assumes "\<bar>d\<bar> \<le> 2 ^ 53" and "0 \<le> f" and "f \<le> 1"
  shows "of_int (min 0 d) \<le> rnd (of_int d * f)" and "rnd (of_int d * f) \<le> of_int (max 0 d)"
proof -
  have "of_int (min 0 d) \<le> of_int d * f" "of_int d * f \<le> of_int (max 0 d)"
  proof (atomize (full), cases "0 \<le> d")
    case True
    then have "0 \<le> of_int d * f" "of_int d * f \<le> of_int d * 1" 
      using assms(2,3) by (auto intro: mult_left_mono simp del: mult_1_right)
    with True show "of_int (min 0 d) \<le> of_int d * f \<and> of_int d * f \<le> of_int (max 0 d)" by (simp add: min_def max_def)
  next
    case False
    then have "of_int d * f \<le> 0" "of_int d * 1 \<le> of_int d * f"
      using assms(2,3) by (auto intro: mult_left_mono_neg mult_nonpos_nonneg simp del: mult_1_right)
    with False show "of_int (min 0 d) \<le> of_int d * f \<and> of_int d * f \<le> of_int (max 0 d)" by (simp add: min_def max_def)
  qed
  moreover have "\<bar>min 0 d\<bar> \<le> 2 ^ 53" "\<bar>max 0 d\<bar> \<le> 2 ^ 53" using assms(1) by (auto simp: min_def max_def)
  ultimately show "of_int (min 0 d) \<le> rnd (of_int d * f)" and "rnd (of_int d * f) \<le> of_int (max 0 d)"
    using rnd_between [of "min 0 d" "of_int d * f" "max 0 d"] by blast+
qed

lemma rnd_lerp:
  assumes "\<bar>a\<bar> \<le> 2 ^ 52" and "\<bar>d\<bar> \<le> 2 ^ 52" and "0 \<le> f" and "f \<le> 1"
  shows "of_int (a + min 0 d) \<le> rnd (of_int a + rnd (of_int d * f))"
    and "rnd (of_int a + rnd (of_int d * f)) \<le> of_int (a + max 0 d)"
proof -
  have "\<bar>d\<bar> \<le> 2 ^ 53" using assms(2) by simp
  then have "of_int (a + min 0 d) \<le> of_int a + rnd (of_int d * f)" "of_int a + rnd (of_int d * f) \<le> of_int (a + max 0 d)"
    using rnd_share [OF _ assms(3,4)] unfolding of_int_add by (intro add_left_mono; blast)+
  moreover have "\<bar>a + min 0 d\<bar> \<le> 2 ^ 53" "\<bar>a + max 0 d\<bar> \<le> 2 ^ 53"
    using assms(1,2) by (auto simp: min_def max_def abs_le_iff)
  ultimately show "of_int (a + min 0 d) \<le> rnd (of_int a + rnd (of_int d * f))"
    and "rnd (of_int a + rnd (of_int d * f)) \<le> of_int (a + max 0 d)"
    using rnd_between [of "a + min 0 d" _ "a + max 0 d"] by blast+
qed

end

lemma lround_between:
  assumes "of_int a \<le> x" and "x \<le> of_int b"
  shows "a \<le> lround x" and "lround x \<le> b"
proof -
  have "a \<le> lround x \<and> lround x \<le> b"
  proof (cases "x < 0")
    case True
    then have "lround x = - \<lfloor>- x + 1 / 2\<rfloor>" by (simp add: lround_def)
    moreover have "- b \<le> \<lfloor>- x + 1 / 2\<rfloor>" "\<lfloor>- x + 1 / 2\<rfloor> \<le> - a"
      using assms by (auto simp: le_floor_iff floor_le_iff)
    ultimately show ?thesis by simp
  next
    case False
    then have "lround x = \<lfloor>x + 1 / 2\<rfloor>" by (simp add: lround_def)
    moreover have "a \<le> \<lfloor>x + 1 / 2\<rfloor>" "\<lfloor>x + 1 / 2\<rfloor> \<le> b"
      using assms by (auto simp: le_floor_iff floor_le_iff)
    ultimately show ?thesis by simp
  qed
  then show "a \<le> lround x" and "lround x \<le> b" by simp_all
qed

lemma lround_int: "lround (of_int n) = n"
  using lround_between [of n "of_int n" n] by simp

section \<open>Positions\<close>

definition between :: "'a :: linorder \<Rightarrow> 'a \<Rightarrow> 'a \<Rightarrow> bool" where
  "between a x b \<longleftrightarrow> min a b \<le> x \<and> x \<le> max a b"

lemma u16_bound: "0 \<le> uint (a :: u16) \<and> uint a < 65536"
  using unsigned_less [of a] by simp

lemma u8_bound: "0 \<le> uint (a :: u8) \<and> uint a < 256"
  using unsigned_less [of a] by simp

lemma low_byte: "(of_int (k AND 255) :: u8) = of_int k"
proof -
  have "k AND 255 = take_bit 8 k" by (simp add: take_bit_eq_mask mask_eq_exp_minus_1)
  moreover have "(of_int (take_bit 8 k) :: u8) = of_int k" by (rule bit_word_eqI) (simp add: bit_simps)
  ultimately show ?thesis by simp
qed

lemma blend_value:
  assumes "0 \<le> f" and "f \<le> 1"
  shows "\<exists>k. min (int (unat a)) (int (unat b)) \<le> k \<and> k \<le> max (int (unat a)) (int (unat b)) \<and> blend f a b = of_int k"
proof -
  define p q where pq: "p = int (unat a)" "q = int (unat b)"
  have bounds: "0 \<le> p" "p < 65536" "0 \<le> q" "q < 65536"
    using u16_bound [of a] u16_bound [of b] by (simp_all add: pq)
  let ?x = "fl (of_int p + fl (of_int (q - p) * f))"
  have "blend f a b = of_int (lround ?x)"
  proof -
    have "\<bar>q - p\<bar> \<le> 2 ^ 53" using bounds by (simp add: abs_le_iff)
    from b64.rnd_int [OF this] show ?thesis by (simp add: blend_def pq)
  qed
  moreover have "of_int (p + min 0 (q - p)) \<le> ?x" "?x \<le> of_int (p + max 0 (q - p))"
    using b64.rnd_lerp [of p "q - p" f] assms bounds by simp_all
  then have "p + min 0 (q - p) \<le> lround ?x" "lround ?x \<le> p + max 0 (q - p)"
    using lround_between by blast+
  ultimately show ?thesis unfolding pq [symmetric] by (intro exI [of _ "lround ?x"]) auto
qed

lemma blend_between:
  assumes "0 \<le> f" and "f \<le> 1"
  shows "between a (blend f a b) b"
proof -
  obtain k where k: "min (int (unat a)) (int (unat b)) \<le> k" "k \<le> max (int (unat a)) (int (unat b))" "blend f a b = of_int k"
    using blend_value [OF assms] by blast
  have "k < 65536" "0 \<le> k"
    using k(1,2) u16_bound [of a] u16_bound [of b] unfolding uint_nat [symmetric] by linarith+
  then have "uint (blend f a b) = k" by (simp add: k(3) take_bit_int_eq_self_iff unsigned_of_int)
  with k show ?thesis by (simp add: between_def min_def max_def word_le_def split: if_splits)
qed

lemma blend_end: "blend 1 a b = b"
proof -
  define p q where pq: "p = int (unat a)" "q = int (unat b)"
  have "0 \<le> p" "p < 65536" "0 \<le> q" "q < 65536"
    using u16_bound [of a] u16_bound [of b] by (simp_all add: pq)
  then have "\<bar>q - p\<bar> \<le> 2 ^ 53" "\<bar>q\<bar> \<le> 2 ^ 53" by (simp_all add: abs_le_iff)
  from this [THEN b64.rnd_int] have "fl (of_int (int (unat b) - int (unat a))) = of_int (int (unat b) - int (unat a))" "fl (of_int (int (unat b))) = of_int (int (unat b))"
    by (simp_all only: pq)
  then show ?thesis using lround_int [of "int (unat b)"] by (simp add: blend_def)
qed

section \<open>Directions\<close>

lemma turn_short: "\<bar>turn_between a b\<bar> \<le> 128"
proof -
  define p q where pq: "p = int (unat a)" "q = int (unat b)"
  have "0 \<le> p" "p < 256" "0 \<le> q" "q < 256" using u8_bound [of a] u8_bound [of b] by (simp_all add: pq)
  then show ?thesis unfolding turn_between_def Let_def pq [symmetric] by (simp add: abs_le_iff)
qed

lemma turn_reaches: "a + of_int (turn_between a b) = b"
proof -
  have "of_int (256 :: int) = (0 :: u8)" by simp
  then show ?thesis by (simp add: turn_between_def Let_def)
qed

lemma blend_turn_value:
  assumes "0 \<le> f" and "f \<le> 1"
  shows "\<exists>k. between 0 k (turn_between a b) \<and> blend_turn f a b = a + of_int k"
proof -
  define p d where pd: "p = int (unat a)" "d = turn_between a b"
  have bounds: "0 \<le> p" "p < 256" "\<bar>d\<bar> \<le> 128"
    using u8_bound [of a] turn_short [of a b] by (simp_all add: pd)
  let ?x = "fl (of_int p + fl (of_int d * f))"
  have "of_int (p + min 0 d) \<le> ?x" "?x \<le> of_int (p + max 0 d)"
    using b64.rnd_lerp [of p d f] assms bounds by simp_all
  then have "p + min 0 d \<le> lround ?x" "lround ?x \<le> p + max 0 d"
    using lround_between by blast+
  moreover have "blend_turn f a b = a + of_int (lround ?x - p)"
    by (simp add: blend_turn_def pd low_byte)
  ultimately show ?thesis
    unfolding pd [symmetric] by (intro exI [of _ "lround ?x - p"]) (auto simp: between_def)
qed

section \<open>The render time\<close>

lemma double_u64_mono: "x \<le> y \<Longrightarrow> double_of_u64 x \<le> double_of_u64 y"
  unfolding double_of_u64_def word_le_nat_alt by (intro b64.rnd_mono) (simp del: of_nat_unat)

lemma double_u64_pos: "x \<noteq> 0 \<Longrightarrow> 1 \<le> double_of_u64 x"
proof -
  assume "x \<noteq> 0"
  then have "0 < unat x" by (simp add: unat_gt_0)
  then have "fl 1 \<le> double_of_u64 x" unfolding double_of_u64_def by (intro b64.rnd_mono) (simp del: of_nat_unat)
  then show ?thesis using b64.rnd_int [of 1] by simp
qed

lemma double_u64_nonneg: "0 \<le> double_of_u64 x"
  unfolding double_of_u64_def by (rule b64.rnd_nonneg) (simp del: of_nat_unat)

lemma fraction_bounds:
  assumes "sn_time before < t" and "t \<le> sn_time after"
  shows "0 \<le> fraction_at t before after" and "fraction_at t before after \<le> 1"
proof -
  let ?n = "double_of_u64 (t - sn_time before)" and ?d = "double_of_u64 (sn_time after - sn_time before)"
  have le: "t - sn_time before \<le> sn_time after - sn_time before"
    using assms by (simp add: word_le_nat_alt word_less_nat_alt unat_sub)
  have pos: "1 \<le> ?d" using assms by (intro double_u64_pos) auto
  have "0 \<le> ?n / ?d" "?n / ?d \<le> 1"
    using pos double_u64_nonneg [of "t - sn_time before"] double_u64_mono [OF le] by (simp_all add: divide_le_eq_1)
  then show "0 \<le> fraction_at t before after" and "fraction_at t before after \<le> 1"
    using b64.rnd_between [of 0 "?n / ?d" 1] by (simp_all add: fraction_at_def)
qed

lemma fraction_end: "sn_time before < sn_time after \<Longrightarrow> fraction_at (sn_time after) before after = 1"
proof -
  assume "sn_time before < sn_time after"
  then have "1 \<le> double_of_u64 (sn_time after - sn_time before)" by (intro double_u64_pos) auto
  then show ?thesis using b64.rnd_int [of 1] by (simp add: fraction_at_def)
qed

text \<open>The client renders 50 to 100 ms behind.\<close>

lemma delay_bounds: "50000 \<le> unat (interpolationDelay s)" "unat (interpolationDelay s) \<le> 100000"
proof -
  define c where "c = clamp (fl (50 + fl (2 * cl_jitter s))) 50 100"
  have "of_int 50000 \<le> c * 1000" "c * 1000 \<le> of_int 100000" by (simp_all add: c_def clamp_def)
  then have "of_int 50000 \<le> fl (c * 1000)" "fl (c * 1000) \<le> of_int 100000"
    using b64.rnd_between [of 50000 "c * 1000" 100000] by simp_all
  then have t: "50000 \<le> trunc (fl (c * 1000))" "trunc (fl (c * 1000)) \<le> 100000"
    by (auto simp: trunc_def le_floor_iff floor_le_iff)
  then have "uint (interpolationDelay s) = trunc (fl (c * 1000))"
    unfolding interpolationDelay_def c_def [symmetric] by (simp add: unsigned_of_int take_bit_int_eq_self_iff)
  with t show "50000 \<le> unat (interpolationDelay s)" "unat (interpolationDelay s) \<le> 100000"
    by (simp_all add: unat_eq_nat_uint)
qed

section \<open>Choosing the snapshots\<close>

text \<open>The loop finds two neighbours with the render time between them.\<close>

lemma interpolate_neighbours:
  assumes "buf \<noteq> []" and "sn_time (hd buf) < t" and "t < sn_time (last buf)"
  shows "\<exists>n. Suc n < length buf \<and> sn_time (buf ! n) < t \<and> t \<le> sn_time (buf ! Suc n)
    \<and> interpolate t buf = Some (map (\<lambda>i. blend_peer (fraction_at t (buf ! n) (buf ! Suc n)) (sn_peers (buf ! n) ! i)
        (sn_peers (buf ! Suc n) ! i)) [0..<4])"
  using assms
proof (induction t buf rule: interpolate.induct)
  case (1 t before after rest)
  show ?case
  proof (cases "t > sn_time after")
    case True
    with "1.IH" "1.prems" obtain n where "Suc n < length (after # rest)" "sn_time ((after # rest) ! n) < t"
        "t \<le> sn_time ((after # rest) ! Suc n)"
        "interpolate t (after # rest) = Some (map (\<lambda>i. blend_peer (fraction_at t ((after # rest) ! n) ((after # rest) ! Suc n))
          (sn_peers ((after # rest) ! n) ! i) (sn_peers ((after # rest) ! Suc n) ! i)) [0..<4])"
      by auto
    with True show ?thesis by (intro exI [of _ "Suc n"]) simp
  next
    case False
    with "1.prems" show ?thesis by (intro exI [of _ 0]) simp
  qed
qed auto

end
