(* ===== verification/Fz_Client_Props.thy ===== *)
theory Fz_Client_Props
  imports Fz_Client_Inv Fz_Client_Smooth
begin

text \<open>
  The promises of the client: its state stays in range, the cartridge is given back, the title menu
  shows what was drawn, opponents move smoothly, and commands are kept until they are acknowledged.
\<close>

section \<open>The state\<close>

text \<open>
  C8. Whatever datagrams arrive and whatever the game does, between any two calls
  the client's state is in range: the player number is below four, or -1 with nothing queued; at most eight
  commands wait, numbered consecutively up to \<open>commandSeq\<close>, and every one of them fits a packet; at most
  eight requests, twelve events and sixteen snapshots are kept; phase, room size, host, track, league and
  every player record are values the protocol allows, so that the tables they index are never left; in the
  states of a race the client is attached, and it has its player number, except in baseline mode, where it
  may be in the state of racing without one; and a disconnected client has closed its socket and saved no
  byte of the cartridge. The owner of the client may edit its configuration between calls, but switches
  baseline mode only while no game is attached, and sets no key of more than 64 bytes while one is.
\<close>

theorem client_always_consistent:
  "client_run r s \<Longrightarrow> client_ok s \<and> (seated (cl_game s) \<and> \<not> cf_baseline (cl_config s) \<longrightarrow> 0 \<le> cl_id s)"
  using run_ok [of r s] by (auto simp: client_ok_defs)

text \<open>
  C5. The client gives the cartridge back as it was. However the calls on the client and
  the edits of its configuration follow each other, after detaching, after any failure, and in every
  disconnected state, the cartridge image is byte for byte the one it was last given, whichever patches
  it had applied.
\<close>

theorem rom_restored:
  assumes "client_run r s"
  shows "mem_rom (cl_memory (detach s)) = r \<and> mem_rom (cl_memory (failure text s)) = r
    \<and> (cl_game s = Disconnected \<longrightarrow> mem_rom (cl_memory s) = r)"
  using run_detach_rom [OF assms] run_failure_rom [OF assms] run_disconnected_rom [OF assms] by simp

section \<open>The title menu\<close>

lemma menu_pixel:
  assumes "cl_attached s" and "cl_titleOriginals s = []" and "0x67aa0 \<le> length (mem_rom (cl_memory s))"
    and "n < 5" and "y < 16" and "x < 8"
  shows "tile_color (menu_tile (patchTitleMenu s) n (y div 8)) (y mod 8) x = letter_color (''MULTI'' ! n) y x"
proof -
  have row: "y div 8 < 2" and y: "y div 8 * 8 + y mod 8 = y" using assms(5) by simp_all
  have "tile_color (tile_of n (y div 8)) (y mod 8) x = title_pixels ! y ! (n * 8 + x)"
    unfolding tile_of_def using assms(4-6) y by (subst tile_color_encode) (simp_all add: title_pixel_dark)
  with assms row show ?thesis by (simp add: menu_tile_encoded title_pixel)
qed

lemma menu_outside:
  assumes "cl_attached s" and "cl_titleOriginals s = []" and "0x67aa0 \<le> length (mem_rom (cl_memory s))"
    and "i < length (mem_rom (cl_memory s))" and "i \<notin> title_tiles"
  shows "mem_rom (cl_memory (patchTitleMenu s)) ! i = mem_rom (cl_memory s) ! i"
  using menu_bytes(2) [OF assms(1-4)] assms(5) by (auto simp: title_tiles_def title_byte_def)

text \<open>
  C24. Patching the title menu makes the console show the word MULTI: decoded as the
  console decodes planar tiles, the pixel at row \<open>y\<close> and column \<open>x\<close> of the \<open>n\<close>th cell has the colour of that
  letter's glyph there. Only the ten tiles of the entry change, so neither the menu cursor nor
  the tiles shared with another entry are touched.
\<close>

theorem title_menu_exact:
  assumes "cl_attached s" and "cl_titleOriginals s = []" and "0x67aa0 \<le> length (mem_rom (cl_memory s))"
  shows "(\<forall>n<5. \<forall>y<16. \<forall>x<8. tile_color (menu_tile (patchTitleMenu s) n (y div 8)) (y mod 8) x = letter_color (''MULTI'' ! n) y x)
    \<and> length (mem_rom (cl_memory (patchTitleMenu s))) = length (mem_rom (cl_memory s))
    \<and> (\<forall>i<length (mem_rom (cl_memory s)). i \<notin> title_tiles
        \<longrightarrow> mem_rom (cl_memory (patchTitleMenu s)) ! i = mem_rom (cl_memory s) ! i)"
  using menu_pixel [OF assms] menu_bytes(1) [OF assms] menu_outside [OF assms] by blast

section \<open>Opponents\<close>

definition render_time :: "u64 \<Rightarrow> Client \<Rightarrow> u64" where
  "render_time t s = (if t > interpolationDelay s then t - interpolationDelay s else 0)"

text \<open>\<open>q\<close> is on the way from \<open>a\<close> to \<open>b\<close>, turning the shorter way round.\<close>

definition on_the_way :: "Peer \<Rightarrow> Peer \<Rightarrow> Peer \<Rightarrow> bool" where
  "on_the_way a q b \<longleftrightarrow> between (pr_x a) (pr_x q) (pr_x b) \<and> between (pr_y a) (pr_y q) (pr_y b)
     \<and> (\<exists>turn k. \<bar>turn\<bar> \<le> (128 :: int) \<and> pr_orientation b = pr_orientation a + of_int turn
          \<and> between 0 k turn \<and> pr_orientation q = pr_orientation a + of_int k)
     \<and> pr_status q = pr_status a \<and> pr_car q = pr_car a"

lemma blend_peer_on_the_way:
  assumes "0 \<le> f" and "f \<le> 1"
  shows "on_the_way a (blend_peer f a b) b"
proof -
  let ?turn = "turn_between (pr_orientation a) (pr_orientation b)"
  obtain k where "between 0 k ?turn" "blend_turn f (pr_orientation a) (pr_orientation b) = pr_orientation a + of_int k"
    using blend_turn_value [OF assms] by blast
  then have "\<exists>turn k. \<bar>turn\<bar> \<le> (128 :: int) \<and> pr_orientation b = pr_orientation a + of_int turn
      \<and> between 0 k turn \<and> pr_orientation (blend_peer f a b) = pr_orientation a + of_int k"
    by (intro exI [of _ ?turn] exI [of _ k]) (simp add: turn_short turn_reaches blend_peer_def)
  then show ?thesis
    unfolding on_the_way_def by (simp add: blend_peer_def blend_between assms)
qed

lemma rendered_by_time:
  "cl_snapshotBuffer s \<noteq> [] \<Longrightarrow> renderedPeers t s =
     (if render_time t s \<le> sn_time (hd (cl_snapshotBuffer s)) then sn_peers (hd (cl_snapshotBuffer s))
      else if sn_time (last (cl_snapshotBuffer s)) \<le> render_time t s then sn_peers (last (cl_snapshotBuffer s))
      else case interpolate (render_time t s) (cl_snapshotBuffer s) of
        Some peers \<Rightarrow> peers | None \<Rightarrow> sn_peers (last (cl_snapshotBuffer s)))"
  unfolding renderedPeers_def Let_def render_time_def [symmetric] by simp

lemma rendered_moving:
  assumes "cl_snapshotBuffer s \<noteq> []" and "sn_time (hd (cl_snapshotBuffer s)) < render_time t s"
    and "render_time t s < sn_time (last (cl_snapshotBuffer s))"
  shows "\<exists>n. Suc n < length (cl_snapshotBuffer s) \<and> sn_time (cl_snapshotBuffer s ! n) < render_time t s
      \<and> render_time t s \<le> sn_time (cl_snapshotBuffer s ! Suc n)
      \<and> (\<forall>i<4. on_the_way (sn_peers (cl_snapshotBuffer s ! n) ! i) (renderedPeers t s ! i) (sn_peers (cl_snapshotBuffer s ! Suc n) ! i))"
proof -
  obtain n where n: "Suc n < length (cl_snapshotBuffer s)" "sn_time (cl_snapshotBuffer s ! n) < render_time t s"
      "render_time t s \<le> sn_time (cl_snapshotBuffer s ! Suc n)"
      "interpolate (render_time t s) (cl_snapshotBuffer s) = Some (map (\<lambda>i. blend_peer
        (fraction_at (render_time t s) (cl_snapshotBuffer s ! n) (cl_snapshotBuffer s ! Suc n))
        (sn_peers (cl_snapshotBuffer s ! n) ! i) (sn_peers (cl_snapshotBuffer s ! Suc n) ! i)) [0..<4])"
    using interpolate_neighbours [OF assms] by blast
  have "renderedPeers t s = map (\<lambda>i. blend_peer
        (fraction_at (render_time t s) (cl_snapshotBuffer s ! n) (cl_snapshotBuffer s ! Suc n))
        (sn_peers (cl_snapshotBuffer s ! n) ! i) (sn_peers (cl_snapshotBuffer s ! Suc n) ! i)) [0..<4]"
    using assms(2,3) n(4) unfolding rendered_by_time [OF assms(1)] by (simp add: not_le [symmetric])
  with n fraction_bounds [OF n(2,3)] show ?thesis
    by (intro exI [of _ n]) (simp add: blend_peer_on_the_way)
qed

text \<open>
  C23. What is drawn of the opponents is 50 to 100 milliseconds behind the estimated server
  time. Before the first buffered snapshot it is that snapshot, after the last one that one, and
  in between every opponent is on the way from one snapshot to the next: each coordinate between the
  two, whatever the rounding of the double arithmetic, the direction on the shorter turn from one to
  the other, and machine and state those of the earlier snapshot.
\<close>

theorem opponents_smooth:
  assumes "cl_snapshotBuffer s \<noteq> []"
  shows "50000 \<le> unat (interpolationDelay s) \<and> unat (interpolationDelay s) \<le> 100000
    \<and> (render_time t s \<le> sn_time (hd (cl_snapshotBuffer s)) \<longrightarrow> renderedPeers t s = sn_peers (hd (cl_snapshotBuffer s)))
    \<and> (sn_time (hd (cl_snapshotBuffer s)) < render_time t s \<and> sn_time (last (cl_snapshotBuffer s)) \<le> render_time t s
        \<longrightarrow> renderedPeers t s = sn_peers (last (cl_snapshotBuffer s)))
    \<and> (sn_time (hd (cl_snapshotBuffer s)) < render_time t s \<and> render_time t s < sn_time (last (cl_snapshotBuffer s)) \<longrightarrow>
        (\<exists>n. Suc n < length (cl_snapshotBuffer s) \<and> sn_time (cl_snapshotBuffer s ! n) < render_time t s
          \<and> render_time t s \<le> sn_time (cl_snapshotBuffer s ! Suc n)
          \<and> (\<forall>i<4. on_the_way (sn_peers (cl_snapshotBuffer s ! n) ! i) (renderedPeers t s ! i)
                (sn_peers (cl_snapshotBuffer s ! Suc n) ! i))))"
  using delay_bounds [of s] rendered_moving [OF assms] rendered_by_time [OF assms] by (simp add: leD)

section \<open>Commands\<close>

lemma ack_serial:
  "n \<le> 8 \<Longrightarrow> (a + of_nat n = a \<or> fz_newer (a + of_nat n) (a :: u32))" "\<not> (a - 1 = (a :: u32) \<or> fz_newer (a - 1) a)"
  using newer_positions [of n 0 a] newer_positions [of 0 1 "a - 1"] by auto

lemma dropWhile_acknowledged:
  assumes "numbered c ds" and "length ds \<le> 8" and "m \<le> length ds" and "ack = c - of_nat (length ds) + of_nat m"
  shows "dropWhile (\<lambda>d. ack = pk_seq (pd_packet d) \<or> fz_newer ack (pk_seq (pd_packet d))) ds = drop m ds"
  using assms
proof (induction ds arbitrary: m)
  case (Cons d ds)
  define q where "q = pk_seq (pd_packet d)"
  have q: "q = c - of_nat (length ds)" using Cons.prems(1) by (auto simp: q_def)
  show ?case
  proof (cases m)
    case 0
    with Cons.prems(4) q have "ack = q - 1" by simp
    then show ?thesis using ack_serial(2) [of q] by (simp add: 0 q_def [symmetric])
  next
    case (Suc k)
    with Cons.prems(4) q have "ack = q + of_nat k" by simp
    moreover have "dropWhile (\<lambda>d. ack = pk_seq (pd_packet d) \<or> fz_newer ack (pk_seq (pd_packet d))) ds = drop k ds"
      using Suc Cons.prems q \<open>ack = q + of_nat k\<close> by (intro Cons.IH) simp_all
    ultimately show ?thesis
      using Suc Cons.prems(2,3) ack_serial(1) [of k q] by (simp add: q_def [symmetric])
  qed
qed simp

text \<open>
  C28. Commands wait at the client until they are acknowledged, each exactly once: when
  the number acknowledged is that of the \<open>m\<close>th command waiting, that command and those before it are
  dropped and the later ones are kept in order, and the number last acknowledged (\<open>m = 0\<close>) drops nothing,
  also where the numbers wrap around.
\<close>

theorem acknowledgement_exact:
  assumes "client_ok s" and "m \<le> length (cl_pending s)"
  shows "cl_pending (acknowledge (cl_commandSeq s - of_nat (length (cl_pending s)) + of_nat m) s) = drop m (cl_pending s)"
  using dropWhile_acknowledged [OF _ _ assms(2) refl] assms(1)
  by (simp add: acknowledge_def client_ok_defs)

end
