(* ===== verification/Fz_Link.thy ===== *)
theory Fz_Link
  imports Fz_Server_Props2 Fz_Client_Props
begin

text \<open>
  Client and server together: the packets one side builds are the packets the other side acts on.
\<close>

section \<open>Packets on the wire\<close>

text \<open>A packet as \<open>Client::send\<close> completes it.\<close>

definition outgoing :: "Client \<Rightarrow> fz_packet \<Rightarrow> fz_packet" where
  "outgoing c p = p\<lparr>pk_session := cl_session c, pk_token := cl_token c, pk_race := cl_race c\<rparr>"

lemma sent_client_send:
  "0 \<le> cl_socket c \<Longrightarrow> ci_sent (cl_io (client_send p c)) = ci_sent (cl_io c) @ [fz_encode FZ_MAX_PACKET (outgoing c p)]"
  by (simp add: client_send_def outgoing_def Let_def)

lemma canonical_stamped [simp]: "canonical (outgoing c p) = canonical p"
  by (simp add: outgoing_def canonical_def)

lemma canonical_addressed [simp]: "canonical (addressed i p s) = canonical p"
  by (simp add: addressed_def canonical_def)

lemma canonicalI:
  "\<not> pk_type p < FZ_HELLO \<Longrightarrow> \<not> pk_type p > FZ_ROOM_CLOSED \<Longrightarrow> pk_payload p = fill b \<Longrightarrow> length b \<le> FZ_PAYLOAD
    \<Longrightarrow> unat (pk_length p) = length b \<Longrightarrow> canonical p"
  by (simp add: canonical_def)

lemma length_snapshot_payload: "length (snapshot_payload now s) = FZ_SNAPSHOT_SIZE"
  by (simp add: snapshot_payload_def snapshot_record_def upt_4)

lemma canonical_snapshot: "canonical (snapshot_packet now s)"
  by (rule canonicalI [of _ "snapshot_payload now s"]) (simp_all add: snapshot_packet_def length_snapshot_payload)

lemma canonical_welcome: "canonical (welcome_packet j nonce)"
  by (rule canonicalI [of _ "of_nat j # fz_put64 nonce"]) (simp_all add: welcome_packet_def)

lemma hello_canonical: "length (cf_key (cl_config c)) \<le> FZ_KEY_MAX \<Longrightarrow> canonical (hello_packet c)"
  by (rule canonicalI [of _ "fz_put64 (cl_nonce c) @ of_nat (length (cf_key (cl_config c))) # cf_key (cl_config c)"])
    (simp_all add: hello_packet_def Let_def unat_word_ariths unat_of_nat)

section \<open>Snapshots\<close>

text \<open>The room as the client sees it is the room as the server had it at time \<open>now\<close>.\<close>

definition mirrored :: "u64 \<Rightarrow> Player \<Rightarrow> Peer" where
  "mirrored now p = \<lparr>pr_status = p_status p, pr_car = p_car p, pr_orientation = p_orientation p, pr_x = p_x p,
     pr_y = p_y p, pr_seq = p_state_seq p, pr_age = snapshot_age now p\<rparr>"

definition mirrors :: "u64 \<Rightarrow> Server \<Rightarrow> Client \<Rightarrow> bool" where
  "mirrors now s c \<longleftrightarrow> cl_race c = s_race s \<and> cl_phase c = s_phase s \<and> cl_expected c = s_expected s \<and> cl_host c = s_host s
     \<and> cl_track c = s_track s \<and> cl_league c = s_league s \<and> cl_armedMask c = armed_mask s \<and> cl_startTime c = s_start s
     \<and> cl_peers c = map (mirrored now) (s_players s)"

lemma payload_fields:
  "pk_payload (snapshot_packet now s) ! 0 = s_phase s" "pk_payload (snapshot_packet now s) ! Suc 0 = s_expected s"
  "pk_payload (snapshot_packet now s) ! 2 = s_host s" "pk_payload (snapshot_packet now s) ! 3 = s_track s"
  "pk_payload (snapshot_packet now s) ! 4 = s_league s" "pk_payload (snapshot_packet now s) ! 5 = armed_mask s"
  "fz_u64 (drop 8 (pk_payload (snapshot_packet now s))) = now"
  "fz_u64 (drop 16 (pk_payload (snapshot_packet now s))) = s_start s"
  by (simp_all add: snapshot_packet_def snapshot_payload_def fill_def)

lemma record_field: "peer_record (snapshot_record now p @ rest) = mirrored now p"
  by (simp add: peer_record_def snapshot_record_def mirrored_def nth_append)

lemma payload_record:
  assumes "i < 4"
  shows "\<exists>rest. drop (24 + i * 16) (pk_payload (snapshot_packet now s)) = snapshot_record now (player s i) @ rest"
proof -
  have len: "length (snapshot_record now p) = 16" for p by (simp add: snapshot_record_def)
  consider "i = 0" | "i = 1" | "i = 2" | "i = 3" using assms by linarith
  then show ?thesis
    by cases (simp_all add: snapshot_packet_def snapshot_payload_def fill_def upt_4 len)
qed

lemma payload_peers:
  assumes "length (s_players s) = 4"
  shows "map (\<lambda>i. peer_record (drop (24 + i * 16) (pk_payload (snapshot_packet now s)))) [0..<4] = map (mirrored now) (s_players s)"
proof -
  have "peer_record (drop (24 + i * 16) (pk_payload (snapshot_packet now s))) = mirrored now (player s i)" if "i < 4" for i
    using payload_record [OF that, of now s] record_field by metis
  then have "map (\<lambda>i. peer_record (drop (24 + i * 16) (pk_payload (snapshot_packet now s)))) [0..<4]
      = map (\<lambda>i. mirrored now (player s i)) [0..<4]" by simp
  also have "\<dots> = map (mirrored now) (s_players s)"
    using map_nth_4 [OF assms] by (metis map_map o_def map_ext)
  finally show ?thesis .
qed

lemma snapshot_header:
  "pk_type (snapshot_packet now s) = FZ_SNAPSHOT" "pk_length (snapshot_packet now s) = of_nat FZ_SNAPSHOT_SIZE"
  "pk_seq (snapshot_packet now s) = s_snapshot_seq s"
  by (simp_all add: snapshot_packet_def)

lemma snapshot_valid:
  assumes "server_inv s"
  shows "valid_snapshot (addressed j (snapshot_packet now s) s)"
proof -
  have peer: "pk_payload (snapshot_packet now s) ! (24 + i * 16) = p_status (player s i)
      \<and> pk_payload (snapshot_packet now s) ! (25 + i * 16) = p_car (player s i)" if i: "i < 4" for i
  proof -
    have len: "length (pk_payload (snapshot_packet now s)) = FZ_PAYLOAD"
      using canonical_length [OF canonical_snapshot] .
    obtain rest where r: "drop (24 + i * 16) (pk_payload (snapshot_packet now s)) = snapshot_record now (player s i) @ rest"
      using payload_record [OF i] by blast
    have "drop (24 + i * 16) (pk_payload (snapshot_packet now s)) ! 0 = p_status (player s i)"
      "drop (24 + i * 16) (pk_payload (snapshot_packet now s)) ! 1 = p_car (player s i)"
      unfolding r by (simp_all add: snapshot_record_def)
    then show ?thesis using len i by simp
  qed
  have inv: "\<forall>i<4. p_status (player s i) \<le> FZ_DISCONNECTED \<and> p_car (player s i) < 4"
      "s_phase s \<le> FZ_RESULTS" "2 \<le> s_expected s" "s_expected s \<le> 4" "s_track s < 5" "s_league s < 3" "s_host s < 4 \<or> s_host s = 255"
    using assms by (simp_all add: inv_defs)
  have w: "x < 4 \<longleftrightarrow> x \<le> (3 :: u8)" "x < 5 \<longleftrightarrow> x \<le> (4 :: u8)" "x < 3 \<longleftrightarrow> x \<le> (2 :: u8)" for x
    by (auto simp: word_less_nat_alt word_le_nat_alt)
  show ?thesis
    using inv peer unfolding valid_snapshot_def w
    by (auto simp: addressed_def payload_fields list_all_iff not_less snapshot_header)
qed

text \<open>A seat at the server, as the client that holds it knows it.\<close>

definition seated_at :: "nat \<Rightarrow> Server \<Rightarrow> Client \<Rightarrow> bool" where
  "seated_at j s c \<longleftrightarrow> j < 4 \<and> occupied (player s j) \<and> cl_id c = int j \<and> cl_session c = s_session s
     \<and> cl_token c = p_token (player s j)"

lemma receive_snapshot:
  assumes "server_inv s" and "0 \<le> cl_id c" and "cl_session c = s_session s" and "cl_token c = p_token (player s j)"
  shows "client_receive (addressed j (snapshot_packet now s) s) c
    = accept_snapshot (fst (client_now c)) (addressed j (snapshot_packet now s) s) (snd (client_now c))"
proof -
  have "cl_id (snd (client_now c)) = cl_id c" "cl_session (snd (client_now c)) = cl_session c" "cl_token (snd (client_now c)) = cl_token c"
    by (simp_all add: client_now_def)
  with assms snapshot_valid [OF assms(1), of j now] show ?thesis
    by (simp add: client_receive_def Let_def case_prod_beta) (simp add: addressed_def snapshot_header)
qed

lemma room_ops [simp]:
  "cl_race (note_snapshot t p c) = cl_race c" "cl_race (acknowledge k c) = cl_race c" "cl_race (load_snapshot p c) = cl_race c"
  "cl_race (bufferSnapshot t c) = cl_race c" "cl_race (arm_start c) = cl_race c" "cl_race (new_race p c) = pk_race p"
  by (simp_all add: note_snapshot_def acknowledge_def load_snapshot_def bufferSnapshot_def arm_start_def queue_def Let_def
      new_race_def resetGame_def client_log_def client_now_def print_line_def clearSnapshotBuffer_def power_cycle_def restore_def)

lemma mirrors_buffer [simp]: "mirrors now s (bufferSnapshot t c) = mirrors now s c" "mirrors now s (arm_start c) = mirrors now s c"
  by (simp_all add: mirrors_def bufferSnapshot_def arm_start_def queue_def Let_def)

lemma accept_mirrors:
  assumes "length (s_players s) = 4" and "fz_newer (s_snapshot_seq s) (cl_snapshotSeq c)"
    and "cl_race c = s_race s \<or> fz_newer (s_race s) (cl_race c)"
  shows "mirrors now s (accept_snapshot t (addressed j (snapshot_packet now s) s) c)"
proof -
  let ?p = "addressed j (snapshot_packet now s) s"
  have "mirrors now s (load_snapshot ?p (new_race ?p c'))" for c'
    using payload_peers [OF assms(1)]
    by (simp add: mirrors_def) (simp add: load_snapshot_def addressed_def payload_fields)
  then show ?thesis
    using assms(2,3) by (auto simp: accept_snapshot_def Let_def addressed_def snapshot_header)
qed

text \<open>The state in which a snapshot is taken.\<close>

definition snapshot_state :: "Server \<Rightarrow> Server" where
  "snapshot_state s = snd (now_us (s\<lparr>s_snapshot_seq := s_snapshot_seq s + 1\<rparr>))"

lemma snapshot_sends:
  assumes "j < 4" and "occupied (player s j)"
  shows "\<exists>now. (p_address (player s j), fz_encode FZ_MAX_PACKET (addressed j (snapshot_packet now (snapshot_state s)) (snapshot_state s)))
    \<in> set (io_sent (s_io (snapshot s)))"
proof -
  have "s_players (snapshot_state s) = s_players s" by (simp add: snapshot_state_def)
  then show ?thesis
    using assms by (intro exI) (auto simp: snapshot_def snapshot_state_def [symmetric] Let_def case_prod_beta)
qed

lemma snapshot_counts: "s_snapshot_seq (snapshot s) = s_snapshot_seq s + 1"
proof -
  have "s_snapshot_seq (send_player i p s) = s_snapshot_seq s" for i p s
    by (simp add: send_player_def transmit_def Let_def)
  then have "s_snapshot_seq (fold (\<lambda>i s. if occupied (player s i) then send_player i p s else s) xs s) = s_snapshot_seq s" for p xs s
    by (induction xs arbitrary: s) simp_all
  then show ?thesis by (simp add: snapshot_def send_occupied_def now_us_def Let_def)
qed

lemma snapshot_state_same:
  "s_snapshot_seq (snapshot_state s) = s_snapshot_seq s + 1" "s_race (snapshot_state s) = s_race s" "s_session (snapshot_state s) = s_session s"
  "s_players (snapshot_state s) = s_players s" "mirrors now (snapshot_state s) c = mirrors now s c" "server_inv (snapshot_state s) = server_inv s"
  by (simp_all add: snapshot_state_def now_us_def mirrors_def armed_mask_def inv_defs)

text \<open>
  C14. Every snapshot the server takes reaches the picture of each seated client exactly:
  it sends the client's endpoint a datagram which the client decodes and, unless a newer one was there
  before, adopts as a whole. Afterwards the client's race number, phase, room size, host, track, league,
  arming mask and start time are the server's, and so is every player's state, machine, position,
  direction, movement number and age.
\<close>

theorem snapshot_mirrored:
  assumes "server_inv s" and "seated_at j s c" and "fz_newer (s_snapshot_seq s + 1) (cl_snapshotSeq c)"
    and "cl_race c = s_race s \<or> fz_newer (s_race s) (cl_race c)"
  shows "\<exists>d p now. (p_address (player s j), d) \<in> set (io_sent (s_io (snapshot s))) \<and> fz_decode d = Some p
    \<and> mirrors now s (client_receive p c)"
proof -
  have j: "j < 4" "occupied (player s j)" using assms(2) by (simp_all add: seated_at_def)
  obtain now where now: "(p_address (player s j), fz_encode FZ_MAX_PACKET (addressed j (snapshot_packet now (snapshot_state s)) (snapshot_state s)))
      \<in> set (io_sent (s_io (snapshot s)))"
    using snapshot_sends [OF j] by blast
  let ?p = "addressed j (snapshot_packet now (snapshot_state s)) (snapshot_state s)"
  have "fz_decode (fz_encode FZ_MAX_PACKET ?p) = Some ?p" by (simp add: decode_encode canonical_snapshot)
  moreover have accepted: "client_receive ?p c = accept_snapshot (fst (client_now c)) ?p (snd (client_now c))"
    using assms(1,2) by (intro receive_snapshot) (simp_all add: seated_at_def snapshot_state_same)
  moreover have "mirrors now (snapshot_state s) (accept_snapshot (fst (client_now c)) ?p (snd (client_now c)))"
    using assms by (intro accept_mirrors) (simp_all add: snapshot_state_same inv_defs client_now_def)
  then have "mirrors now s (client_receive ?p c)" unfolding accepted snapshot_state_same .
  ultimately show ?thesis using now by blast
qed

section \<open>Joining\<close>

text \<open>A server in use has drawn a session number, and none of its operations changes it.\<close>

lemma session_packet [simp]: "s_session (receive_packet b a s) = s_session s" "s_session (advance now s) = s_session s"
  using packet_frame.setup_act [of b a s] advance_frame.setup_act [of now s] by (simp_all add: setup_of_def)

interpretation identified: server_safety "\<lambda>s. s_session s \<noteq> 0" w for w
proof
  fix c sz os s
  assume "fz_server_create c sz os w = Inr s"
  then show "s_session s \<noteq> 0" by (elim create_Inr) simp
qed (simp_all add: fz_server_close_def poll_wait_def summary_player_def update_player_def Let_def)

lemma hello_fields:
  assumes "length (cf_key (cl_config c)) \<le> FZ_KEY_MAX"
  shows "pk_type (outgoing c (hello_packet c)) = FZ_HELLO"
    and "unat (pk_length (outgoing c (hello_packet c))) = 9 + length (cf_key (cl_config c))"
    and "fz_u64 (pk_payload (outgoing c (hello_packet c))) = cl_nonce c"
    and "unat (pk_payload (outgoing c (hello_packet c)) ! 8) = length (cf_key (cl_config c))"
    and "take (length (cf_key (cl_config c))) (drop 9 (pk_payload (outgoing c (hello_packet c)))) = cf_key (cl_config c)"
  using assms by (simp_all add: outgoing_def hello_packet_def Let_def fill_def unat_word_ariths unat_of_nat nth_append)

lemma receive_welcome:
  assumes "cl_id c < 0" and "j < 4" and "s_session s \<noteq> 0" and "p_token (player s j) \<noteq> 0"
  shows "client_receive (addressed j (welcome_packet j (cl_nonce c)) s) c
    = accept_welcome (fst (client_now c)) (addressed j (welcome_packet j (cl_nonce c)) s) (snd (client_now c))"
proof -
  have "cl_id (snd (client_now c)) = cl_id c" "cl_nonce (snd (client_now c)) = cl_nonce c"
    by (simp_all add: client_now_def)
  moreover have "(of_nat j :: u8) < 4" using assms(2) by (simp add: word_less_nat_alt unat_of_nat)
  ultimately show ?thesis
    using assms by (simp add: client_receive_def Let_def case_prod_beta addressed_def welcome_packet_def fill_def)
qed

lemma seat_number: "j < 4 \<Longrightarrow> uint (of_nat j :: u8) = int j"
  by (simp add: unsigned_of_nat take_bit_nat_eq_self)

lemma welcomed:
  assumes "j < 4" and "p = addressed j (welcome_packet j n) s"
  shows "cl_id (accept_welcome t p c) = int j" "cl_session (accept_welcome t p c) = s_session s"
    "cl_token (accept_welcome t p c) = p_token (player s j)" "cl_race (accept_welcome t p c) = s_race s"
    "cl_commandSeq (accept_welcome t p c) = p_command_seq (player s j)"
  using assms seat_number [OF assms(1)] by (simp_all add: accept_welcome_def client_log_def client_now_def print_line_def Let_def addressed_def
      welcome_packet_def fill_def)

text \<open>
  C12. A client and a server that are meant for each other meet: when the room is open, in the lobby
  and has a free place, the keys are equal, the endpoint is new and the room is not waiting for its owner
  (or the client is the owner), the HELLO the client sends is given a seat in the same call, and the
  WELCOME sent back, received by the client, makes the client hold that seat: its player number, session,
  token, race and command number are the server's.
\<close>

theorem handshake:
  assumes "reachable world s" and "\<not> s_closed s" and "s_phase s = FZ_LOBBY" and "count s < unat (s_expected s)"
    and "io_entropy (s_io s) (io_draws (s_io s)) \<noteq> None"
    and "\<forall>k<4. occupied (player s k) \<longrightarrow> \<not> same_address a (p_address (player s k))"
    and "s_owner_nonce s = 0 \<or> occupied (player s 0) \<or> cl_nonce c = s_owner_nonce s"
    and "cl_id c < 0" and "cf_key (cl_config c) = s_key s" and "length (s_key s) \<le> FZ_KEY_MAX"
  shows "\<exists>j w p. let s' = receive_packet (fz_encode FZ_MAX_PACKET (outgoing c (hello_packet c))) a s; c' = client_receive p c
    in (a, w) \<in> set (io_sent (s_io s')) \<and> fz_decode w = Some p \<and> seated_at j s' c'
      \<and> cl_race c' = s_race s' \<and> cl_commandSeq c' = p_command_seq (player s' j) \<and> p_address (player s' j) = a"
proof -
  have inv: "server_inv s" using room.I_reachable [OF assms(1)] .
  define b where "b = fz_encode FZ_MAX_PACKET (outgoing c (hello_packet c))"
  define s' where "s' = receive_packet b a s"
  have dec: "fz_decode b = Some (outgoing c (hello_packet c))"
    using assms(9,10) by (simp add: b_def decode_encode hello_canonical)
  have adm: "admissible (outgoing c (hello_packet c)) a s"
    using assms hello_fields [of c] by (simp add: admissible_def)
  obtain j where j: "j < 4" "p_status (player s' j) = FZ_JOINED" "p_address (player s' j) = a" "p_token (player s' j) \<noteq> 0"
      "(a, fz_encode FZ_MAX_PACKET (addressed j (welcome_packet j (cl_nonce c)) s')) \<in> set (io_sent (s_io s'))"
    using join_seat [OF inv dec assms(2) adm assms(5)] hello_fields(3) [of c] assms(9,10) unfolding s'_def by auto
  have session: "s_session s' \<noteq> 0" using identified.I_reachable [OF assms(1)] by (simp add: s'_def)
  let ?p = "addressed j (welcome_packet j (cl_nonce c)) s'"
  have "client_receive ?p c = accept_welcome (fst (client_now c)) ?p (snd (client_now c))"
    using assms(8) j session by (intro receive_welcome) simp_all
  then have "seated_at j s' (client_receive ?p c) \<and> cl_race (client_receive ?p c) = s_race s'
      \<and> cl_commandSeq (client_receive ?p c) = p_command_seq (player s' j)"
    using welcomed [OF j(1) refl] j by (simp add: seated_at_def occupied_def)
  moreover have "fz_decode (fz_encode FZ_MAX_PACKET ?p) = Some ?p" by (simp add: decode_encode canonical_welcome)
  ultimately show ?thesis
    using j(3,5) unfolding b_def [symmetric] s'_def [symmetric] Let_def by blast
qed

section \<open>Commands\<close>

lemma authenticated:
  assumes "server_inv s" and "seated_at j s c" and "p_address (player s j) = a"
  shows "authenticate (outgoing c p) a s = Some j"
proof -
  have j: "j < 4" "occupied (player s j)" "cl_session c = s_session s" "cl_token c = p_token (player s j)"
    using assms(2) by (simp_all add: seated_at_def)
  have "seats_ok s" using assms(1) by (simp add: server_inv_def)
  then have "\<not> (occupied (player s k) \<and> same_address a (p_address (player s k)))" if "k < j" for k
    using assms(3) j(1,2) that unfolding seats_ok_def by (metis less_irrefl less_trans)
  then show ?thesis
    using j assms(3) unfolding authenticate_def
    by (subst find_Some_least) (auto simp: outgoing_def same_address_def)
qed

lemma stamped_fields [simp]:
  "pk_type (outgoing c p) = pk_type p" "pk_length (outgoing c p) = pk_length p" "pk_seq (outgoing c p) = pk_seq p"
  "pk_race (outgoing c p) = cl_race c"
  by (simp_all add: outgoing_def)

lemma accept_same_race:
  assumes "pk_race p = cl_race c" and "fz_newer (pk_seq p) (cl_snapshotSeq c)"
  shows "\<exists>more. cl_pending (accept_snapshot t p c) = cl_pending (acknowledge (pk_ack p) c) @ more"
proof -
  have "cl_pending (load_snapshot p (new_race p (acknowledge k (note_snapshot t p c)))) = cl_pending (acknowledge k c)" for k
    using assms(1) by (simp add: load_snapshot_def new_race_def acknowledge_def note_snapshot_def Let_def)
  moreover have "\<exists>more. cl_pending (arm_start (bufferSnapshot u c')) = cl_pending c' @ more" for u c'
    by (simp add: arm_start_def bufferSnapshot_def queue_def Let_def)
  ultimately show ?thesis using assms by (simp add: accept_snapshot_def Let_def) metis
qed

text \<open>
  C13. The command stream works end to end: when the command at the head of a seated
  client's queue, sent as the client sends it, reaches the server and is the next one of that player, then
  the server answers in the same call with a snapshot that, received by the client, takes exactly this
  command off the queue and leaves the later ones in order (a new one may join behind them), provided the
  player is still present, the race is still the same and no newer snapshot came first.
\<close>

theorem command_delivered:
  assumes "client_ok c" and "server_inv s" and "seated_at j s c" and "\<not> s_closed s" and "cl_race c = s_race s"
    and "cl_pending c = d # ds" and "pk_seq (pd_packet d) = p_command_seq (player s j) + 1"
    and "b = fz_encode FZ_MAX_PACKET (outgoing c (pd_packet d))" and "a = p_address (player s j)"
    and "occupied (player (receive_packet b a s) j)" and "s_race (receive_packet b a s) = s_race s"
    and "p_token (player (receive_packet b a s) j) = p_token (player s j)"
    and "fz_newer (s_snapshot_seq (receive_packet b a s)) (cl_snapshotSeq c)"
  shows "\<exists>w p more. (p_address (player (receive_packet b a s) j), w) \<in> set (io_sent (s_io (receive_packet b a s)))
    \<and> fz_decode w = Some p \<and> cl_pending (client_receive p c) = ds @ more"
proof -
  have cmd: "command_ok (pd_packet d)" and num: "numbered (cl_commandSeq c) (d # ds)" and len: "length (d # ds) \<le> 8"
    using assms(1,6) by (simp_all add: client_ok_defs)
  have dec: "fz_decode b = Some (outgoing c (pd_packet d))"
    using cmd by (simp add: assms(8) decode_encode command_ok_def)
  have "\<not> pk_length (pd_packet d) < 1" using cmd by (simp add: command_ok_def word_less_nat_alt unat_eq_0)
  then obtain u where u: "receive_packet b a s = snapshot u" "p_command_seq (player (receive_packet b a s) j) = pk_seq (pd_packet d)"
    using command_answered [OF assms(2) dec _ assms(4) authenticated [OF assms(2,3) assms(9) [symmetric]]] cmd assms(5,7,10)
    by (auto simp: command_ok_def)
  have j: "j < 4" "occupied (player u j)" using assms(3,10) u(1) by (simp_all add: seated_at_def)
  obtain now where sent: "(p_address (player u j), fz_encode FZ_MAX_PACKET (addressed j (snapshot_packet now (snapshot_state u)) (snapshot_state u)))
      \<in> set (io_sent (s_io (snapshot u)))"
    using snapshot_sends [OF j] by blast
  let ?p = "addressed j (snapshot_packet now (snapshot_state u)) (snapshot_state u)"
  have inv: "server_inv (snapshot_state u)"
    using inv_receive_packet [OF assms(2), of b a] by (simp add: u(1) snapshot_state_same)
  have session: "s_session u = s_session s" using session_packet(1) [of b a s] by (simp add: u(1))
  have accepted: "client_receive ?p c = accept_snapshot (fst (client_now c)) ?p (snd (client_now c))"
    using assms(3,12) u(1) session by (intro receive_snapshot [OF inv]) (simp_all add: seated_at_def snapshot_state_same)
  have "pk_race ?p = cl_race (snd (client_now c))" "fz_newer (pk_seq ?p) (cl_snapshotSeq (snd (client_now c)))"
    using assms(5,11,13) u(1) snapshot_counts [of u] by (simp_all add: addressed_def snapshot_header snapshot_state_same client_now_def)
  then obtain more where more: "cl_pending (client_receive ?p c) = cl_pending (acknowledge (pk_ack ?p) (snd (client_now c))) @ more"
    using accept_same_race unfolding accepted by blast
  have "pk_ack ?p = cl_commandSeq c - of_nat (length (d # ds)) + of_nat 1"
    using u num by (auto simp: addressed_def snapshot_state_same eq_diff_eq)
  then have "cl_pending (acknowledge (pk_ack ?p) (snd (client_now c))) = ds"
    using dropWhile_acknowledged [OF num len, of 1] assms(6) by (simp add: acknowledge_def client_now_def)
  with more sent show ?thesis
    unfolding u(1) by (metis canonical_addressed canonical_snapshot decode_encode snapshot_op.act_players)
qed

end
