(* ===== verification/Fz_Client_Overlay.thy ===== *)
theory Fz_Client_Overlay
  imports Fz_Client
begin

text \<open>
  The heads-up display (\<open>Client::overlay\<close> of \<^verbatim>\<open>client/fzvs_client.cpp\<close>): a line of network figures drawn into
  the frame buffer. A store outside the buffer is an error (\<open>None\<close>), so that a result shows that every
  index was in range; indices are computed in 32-bit unsigned arithmetic, as in the source.
\<close>

section \<open>Model\<close>

definition font :: "u8 list list" where
  "font = [[62,81,73,69,62],[0,66,127,64,0],[66,97,81,73,70],[33,65,69,75,49],[24,20,18,127,16],
    [39,69,69,69,57],[60,74,73,73,48],[1,113,9,5,3],[54,73,73,73,54],[6,73,73,41,30],
    [126,17,17,17,126],[127,73,73,73,54],[62,65,65,65,34],[127,65,65,34,28],[127,73,73,73,65],
    [127,9,9,9,1],[62,65,73,73,122],[127,8,8,8,127],[0,65,127,65,0],[32,64,65,63,1],
    [127,8,20,34,65],[127,64,64,64,64],[127,2,12,2,127],[127,4,8,16,127],[62,65,65,65,62],
    [127,9,9,9,6],[62,65,81,33,94],[127,9,25,41,70],[70,73,73,73,49],[1,1,127,1,1],
    [63,64,64,64,63],[31,32,64,32,31],[63,64,56,64,63],[99,20,8,20,99],[7,8,112,8,7],[97,81,73,69,67]]"

definition percent :: "u8 list" where
  "percent = [0x23, 0x13, 0x08, 0x64, 0x62]"

definition overlay_glyph :: "char \<Rightarrow> u8 list option" where
  "overlay_glyph c =
     (let k = of_char c :: nat
      in if 48 \<le> k \<and> k \<le> 57 then Some (font ! (k - 48))
         else if 65 \<le> k \<and> k \<le> 90 then Some (font ! (10 + k - 65))
         else if c = CHR ''%'' then Some percent else None)"

definition pixel_on :: "char \<Rightarrow> nat \<Rightarrow> nat \<Rightarrow> bool" where
  "pixel_on c x y =
     (case overlay_glyph c of
        Some g \<Rightarrow> g ! x AND push_bit y 1 \<noteq> 0
      | None \<Rightarrow> if c = CHR ''-'' then y = 3 else if c = CHR ''.'' then x = 2 \<and> y = 6 else False)"

text \<open>A store that may leave the buffer, and a loop of such stores.\<close>

definition put_pixel :: "u32 \<Rightarrow> (u32 \<Rightarrow> u32) \<Rightarrow> u32 list \<Rightarrow> u32 list option" where
  "put_pixel i f pixels = (if unat i < length pixels then Some (pixels[unat i := f (pixels ! unat i)]) else None)"

fun each_of :: "('a \<Rightarrow> 'b \<Rightarrow> 'b option) \<Rightarrow> 'a list \<Rightarrow> 'b \<Rightarrow> 'b option" where
  "each_of f [] s = Some s"
| "each_of f (x # xs) s = (case f x s of None \<Rightarrow> None | Some t \<Rightarrow> each_of f xs t)"

definition dim :: "u32 \<Rightarrow> u32" where
  "dim p = (p AND 0xff000000) OR drop_bit 2 (p AND 0x00fefefe)"

definition dim_band :: "u32 \<Rightarrow> u32 \<Rightarrow> u32 list \<Rightarrow> u32 list option" where
  "dim_band width pitch =
     each_of (\<lambda>y. each_of (\<lambda>x. put_pixel (of_nat y * pitch + of_nat x) dim) [0..<unat width]) [0..<10]"

definition draw_char :: "u32 \<Rightarrow> nat \<Rightarrow> char \<Rightarrow> u32 list \<Rightarrow> u32 list option" where
  "draw_char pitch n c =
     each_of (\<lambda>x. each_of (\<lambda>y pixels.
       if pixel_on c x y
       then put_pixel ((2 + of_nat y) * pitch + 3 + of_nat n * 6 + of_nat x) (\<lambda>_. 0xffffffff) pixels
       else Some pixels) [0..<7]) [0..<5]"

fun draw_line :: "u32 \<Rightarrow> u32 \<Rightarrow> nat \<Rightarrow> string \<Rightarrow> u32 list \<Rightarrow> u32 list option" where
  "draw_line width pitch n [] pixels = Some pixels"
| "draw_line width pitch n (c # line) pixels =
     (if of_nat n * 6 + 7 < width
      then (case draw_char pitch n c pixels of None \<Rightarrow> None
            | Some pixels \<Rightarrow> draw_line width pitch (n + 1) line pixels)
      else Some pixels)"

text \<open>\<open>%.0f\<close>\<close>

definition fmt_f0 :: "rat \<Rightarrow> string" where
  "fmt_f0 x = (if x < 0 then ''-'' else []) @ fmt_u (nat (round_even \<bar>x\<bar>))"

definition overlay_line :: "View \<Rightarrow> string" where
  "overlay_line v = take 159 (''RTT '' @ fmt_f0 (vw_rtt v) @ ''MS JIT '' @ fmt_f0 (vw_jitter v) @ ''MS LOSS ''
     @ fmt_f1 (vw_loss v) @ ''%'')"

definition overlay :: "u32 \<Rightarrow> u32 \<Rightarrow> u32 \<Rightarrow> Client \<Rightarrow> u32 list \<Rightarrow> u32 list option" where
  "overlay width height pitch s pixels =
     (if \<not> cf_overlay (cl_config s) \<or> width = 0 \<or> height < 10 then Some pixels
      else case dim_band width pitch pixels of None \<Rightarrow> None
           | Some pixels \<Rightarrow> draw_line width pitch 0 (overlay_line (view s)) pixels)"

section \<open>Every store is in range\<close>

text \<open>\<open>pixels'\<close> differs from \<open>pixels\<close> at most in the first ten rows, left of \<open>width\<close>.\<close>

definition in_band :: "nat \<Rightarrow> nat \<Rightarrow> nat \<Rightarrow> bool" where
  "in_band width pitch i \<longleftrightarrow> i div pitch < 10 \<and> i mod pitch < width"

definition kept :: "nat \<Rightarrow> nat \<Rightarrow> u32 list \<Rightarrow> u32 list \<Rightarrow> bool" where
  "kept width pitch pixels pixels' \<longleftrightarrow> length pixels' = length pixels
     \<and> (\<forall>i<length pixels. \<not> in_band width pitch i \<longrightarrow> pixels' ! i = pixels ! i)"

definition stays_in :: "nat \<Rightarrow> nat \<Rightarrow> nat \<Rightarrow> (u32 list \<Rightarrow> u32 list option) \<Rightarrow> bool" where
  "stays_in width pitch sz f \<longleftrightarrow> (\<forall>px. length px = sz \<longrightarrow> (\<exists>px'. f px = Some px' \<and> kept width pitch px px'))"

lemma kept_trans: "kept w p a b \<Longrightarrow> kept w p b c \<Longrightarrow> kept w p a c"
  by (auto simp: kept_def)

lemma stays_in_Some [simp]: "stays_in w p sz Some"
  by (simp add: stays_in_def kept_def)

lemma stays_in_then:
  assumes "stays_in w p sz f" and "stays_in w p sz g"
  shows "stays_in w p sz (\<lambda>px. case f px of None \<Rightarrow> None | Some px \<Rightarrow> g px)"
  unfolding stays_in_def
proof (intro allI impI)
  fix px :: "u32 list"
  assume "length px = sz"
  with assms(1) obtain a where a: "f px = Some a" "kept w p px a" "length a = sz" by (auto simp: stays_in_def kept_def)
  with assms(2) obtain b where "g a = Some b" "kept w p a b" by (auto simp: stays_in_def)
  with a show "\<exists>px'. (case f px of None \<Rightarrow> None | Some px \<Rightarrow> g px) = Some px' \<and> kept w p px px'"
    using kept_trans by auto
qed

lemma stays_in_each: "(\<And>x. x \<in> set xs \<Longrightarrow> stays_in w p sz (f x)) \<Longrightarrow> stays_in w p sz (each_of f xs)"
proof (induction xs)
  case Nil
  have "each_of f [] = Some" by (rule ext) simp
  then show ?case by simp
next
  case (Cons x xs)
  have "each_of f (x # xs) = (\<lambda>px. case f x px of None \<Rightarrow> None | Some px \<Rightarrow> each_of f xs px)" by (rule ext) simp
  then show ?case using Cons by (simp add: stays_in_then)
qed

lemma stays_in_put:
  assumes "unat i < sz" and "in_band w p (unat i)"
  shows "stays_in w p sz (put_pixel i f)"
  using assms by (auto simp: stays_in_def put_pixel_def kept_def nth_list_update)

text \<open>Row \<open>y\<close>, column \<open>x\<close> of a buffer with room for ten rows.\<close>

lemma pixel_index:
  assumes "x < unat w" and "y < 10" and "unat w \<le> unat p" and "10 * unat p \<le> sz" and "sz < 2 ^ 32"
  shows "unat (of_nat y * p + of_nat x :: u32) = y * unat p + x"
    and "y * unat p + x < sz" and "in_band (unat w) (unat p) (y * unat p + x)"
proof -
  have "y * unat p \<le> 9 * unat p" using assms(2) by (intro mult_right_mono) simp_all
  then have "y * unat p + x < 10 * unat p" using assms(1,3) by linarith
  then show lt: "y * unat p + x < sz" using assms(4) by linarith
  have "y * unat p < 2 ^ 32" "x < 2 ^ 32" using lt assms(5) by linarith+
  then show "unat (of_nat y * p + of_nat x :: u32) = y * unat p + x"
    using lt assms(2,5) by (simp add: unat_word_ariths unat_of_nat)
  have "0 < unat p" using assms(1,3) by linarith
  then show "in_band (unat w) (unat p) (y * unat p + x)"
    using assms(1-3) by (simp add: in_band_def)
qed

text \<open>A buffer of ten full rows at least, whose size 32-bit indices can address.\<close>

definition roomy :: "u32 \<Rightarrow> u32 \<Rightarrow> nat \<Rightarrow> bool" where
  "roomy w p sz \<longleftrightarrow> unat w \<le> unat p \<and> 10 * unat p \<le> sz \<and> sz < 2 ^ 32"

lemma stays_in_pixel:
  assumes "roomy w p sz" and "x < unat w" and "y < 10" and "i = of_nat y * p + of_nat x"
  shows "stays_in (unat w) (unat p) sz (put_pixel i f)"
proof -
  have r: "unat w \<le> unat p" "10 * unat p \<le> sz" "sz < 2 ^ 32" using assms(1) by (simp_all add: roomy_def)
  show ?thesis
    unfolding assms(4) using pixel_index [OF assms(2,3) r] by (intro stays_in_put) simp_all
qed

lemma dim_band_stays: "roomy w p sz \<Longrightarrow> stays_in (unat w) (unat p) sz (dim_band w p)"
  unfolding dim_band_def by (intro stays_in_each) (auto intro: stays_in_pixel)

lemma draw_char_stays:
  assumes "roomy w p sz" and "n * 6 + 7 < unat w"
  shows "stays_in (unat w) (unat p) sz (draw_char p n c)"
  unfolding draw_char_def
proof (intro stays_in_each)
  fix x y
  assume xy: "x \<in> set [0..<5]" "y \<in> set [0..<7]"
  have "(2 + of_nat y) * p + 3 + of_nat n * 6 + of_nat x = of_nat (2 + y) * p + of_nat (3 + n * 6 + x)"
    by (simp add: algebra_simps)
  moreover have "3 + n * 6 + x < unat w" "2 + y < 10" using assms(2) xy by auto
  ultimately have "stays_in (unat w) (unat p) sz (put_pixel ((2 + of_nat y) * p + 3 + of_nat n * 6 + of_nat x) (\<lambda>_. 0xffffffff))"
    using stays_in_pixel [OF assms(1)] by blast
  then show "stays_in (unat w) (unat p) sz (\<lambda>px. if pixel_on c x y
      then put_pixel ((2 + of_nat y) * p + 3 + of_nat n * 6 + of_nat x) (\<lambda>_. 0xffffffff) px else Some px)"
    by (cases "pixel_on c x y") (simp_all add: stays_in_def kept_def)
qed

lemma draw_line_stays:
  assumes "roomy w p sz" and "n + length line < 1000"
  shows "stays_in (unat w) (unat p) sz (draw_line w p n line)"
  using assms(2)
proof (induction line arbitrary: n)
  case Nil
  have "draw_line w p n [] = Some" by (rule ext) simp
  then show ?case by simp
next
  case (Cons c line)
  have fits: "of_nat n * 6 + 7 < w \<longleftrightarrow> n * 6 + 7 < unat w"
    using Cons.prems by (simp add: word_less_nat_alt unat_word_ariths unat_of_nat)
  have eq: "draw_line w p n (c # line) = (if n * 6 + 7 < unat w
      then (\<lambda>px. case draw_char p n c px of None \<Rightarrow> None | Some px \<Rightarrow> draw_line w p (n + 1) line px) else Some)"
    by (rule ext) (simp add: fits)
  show ?case
    unfolding eq using draw_char_stays [OF assms(1)] Cons by (simp add: stays_in_then)
qed

text \<open>What is drawn, once the overlay is on and the frame has ten rows.\<close>

lemma drawing_stays:
  assumes "roomy w p sz"
  shows "stays_in (unat w) (unat p) sz
    (\<lambda>px. case dim_band w p px of None \<Rightarrow> None | Some px \<Rightarrow> draw_line w p 0 (overlay_line (view s)) px)"
  by (intro stays_in_then dim_band_stays draw_line_stays assms) (simp add: overlay_line_def)

text \<open>
  C40. Drawing the heads-up display never leaves the frame buffer, however small the frame
  is: with \<open>height\<close> rows of \<open>pitch\<close> pixels and a width of at most the pitch, every store hits the buffer,
  whatever the figures to be shown are, and the buffer keeps its size. A frame of fewer than ten rows is
  left alone entirely; otherwise no pixel below the tenth row or right of the given width changes.
\<close>

theorem overlay_in_bounds:
  assumes "unat width \<le> unat pitch" and "unat height * unat pitch \<le> length pixels" and "length pixels < 2 ^ 32"
  shows "\<exists>pixels'. overlay width height pitch s pixels = Some pixels' \<and> length pixels' = length pixels
    \<and> (\<forall>i<length pixels. height < 10 \<or> i div unat pitch \<ge> 10 \<or> i mod unat pitch \<ge> unat width \<longrightarrow> pixels' ! i = pixels ! i)"
proof (cases "\<not> cf_overlay (cl_config s) \<or> width = 0 \<or> height < 10")
  case False
  then have "10 \<le> unat height" by (simp add: word_less_nat_alt)
  then have "10 * unat pitch \<le> unat height * unat pitch" by (intro mult_right_mono) simp_all
  then have "10 * unat pitch \<le> length pixels" using assms(2) by (rule order_trans)
  with assms(1,3) have "roomy width pitch (length pixels)" by (simp add: roomy_def)
  from drawing_stays [OF this, of s] False show ?thesis
    by (auto simp: overlay_def stays_in_def kept_def in_band_def)
qed (simp add: overlay_def)

end
