(* ===== verification/Fz_Client_Witness.thy ===== *)
theory Fz_Client_Witness
  imports Fz_Link Fz_Client_Overlay Fz_Server_Witness
begin

text \<open>
  Concrete clients on which the hypotheses of the theorems on the client, and on client and server
  together, hold.
\<close>

section \<open>Clients\<close>

definition sample_client_config :: Config where
  "sample_client_config = \<lparr>cf_baseline = False, cf_autoNext = False, cf_overlay = True, cf_address = ''127.0.0.1:12000'',
     cf_key = [], cf_ownerNonce = 0, cf_autoCar = - 1\<rparr>"

definition sample_client_io :: client_io where
  "sample_client_io = \<lparr>ci_clock = \<lambda>n. 1000000 + of_nat n, ci_readings = 0, ci_send_ok = \<lambda>_. True, ci_sent = [], ci_printed = []\<rparr>"

text \<open>A cartridge of one megabyte, every byte 0x42, as in the client test.\<close>

definition sample_memory :: Memory where
  "sample_memory = \<lparr>mem_ram = replicate 0x20000 0, mem_rom = replicate 0x100000 0x42, mem_power = \<lambda>r. r, mem_resets = 0\<rparr>"

definition sample_attach :: attach_env where
  "sample_attach = \<lparr>ae_resolves = True, ae_socket = 5, ae_connects = True, ae_nonblock = True, ae_random = Some 99\<rparr>"

definition sample_fresh :: Client where
  "sample_fresh = fresh_client sample_client_config sample_memory sample_client_io"

definition sample_patched :: Client where
  "sample_patched = frame (frame (snd (attach sample_memory sample_attach sample_fresh)))"

lemma patched_run: "client_run (replicate 0x100000 0x42) sample_patched"
proof -
  have rom: "mem_rom sample_memory = replicate 0x100000 0x42" by (simp add: sample_memory_def)
  have "client_run (mem_rom sample_memory) sample_fresh"
    unfolding sample_fresh_def by (rule client_run.construct) (simp add: rom)
  then have "client_run (mem_rom sample_memory) (snd (attach sample_memory sample_attach sample_fresh))"
    by (rule client_run.attaching) (simp add: rom)
  then show ?thesis
    unfolding sample_patched_def rom by (intro client_run.framing)
qed

theorem client_always_consistent_witness: "client_ok sample_patched"
  using client_always_consistent [OF patched_run] by blast

theorem rom_restored_witness: "mem_rom (cl_memory (detach sample_patched)) = replicate 0x100000 0x42"
  using rom_restored [OF patched_run] by blast

definition sample_titled :: Client where
  "sample_titled = sample_fresh\<lparr>cl_attached := True\<rparr>"

theorem title_menu_exact_witness:
  "tile_color (menu_tile (patchTitleMenu sample_titled) 0 0) 1 1 = 3
    \<and> mem_rom (cl_memory (patchTitleMenu sample_titled)) ! 0x678a0 = 0x42"
proof -
  have *: "cl_attached sample_titled" "cl_titleOriginals sample_titled = []" "mem_rom (cl_memory sample_titled) = replicate 0x100000 0x42"
    by (simp_all add: sample_titled_def sample_fresh_def fresh_client_def sample_memory_def)
  have m: "letter_color (CHR ''M'') 1 1 = 3" by (simp add: letter_color_def glyph_def glyphs_def)
  note t = title_menu_exact [OF *(1,2), unfolded *(3) length_replicate]
  have "(424096 :: nat) \<notin> title_tiles" by (simp add: title_tiles_def)
  with t [THEN conjunct1, rule_format, of 0 1 1] t [THEN conjunct2, THEN conjunct2, rule_format, of 424096] m show ?thesis
    by simp
qed

theorem overlay_in_bounds_witness:
  "(\<exists>pixels'. overlay 64 11 64 sample_fresh (replicate 704 0xffffffff) = Some pixels' \<and> pixels' ! 650 = 0xffffffff)
    \<and> (\<exists>pixels'. overlay 64 1 64 sample_fresh (replicate 64 0xffffffff) = Some pixels' \<and> pixels' ! 5 = 0xffffffff)"
proof -
  obtain px where "overlay 64 11 64 sample_fresh (replicate 704 0xffffffff) = Some px"
      "\<forall>i<704. 10 \<le> i div 64 \<or> 64 \<le> i mod 64 \<longrightarrow> px ! i = replicate 704 0xffffffff ! i"
    using overlay_in_bounds [of 64 64 11 "replicate 704 0xffffffff" sample_fresh] by auto
  moreover obtain py where "overlay 64 1 64 sample_fresh (replicate 64 0xffffffff) = Some py"
      "\<forall>i<64. py ! i = replicate 64 0xffffffff ! i"
    using overlay_in_bounds [of 64 64 1 "replicate 64 0xffffffff" sample_fresh] by auto
  ultimately show ?thesis by (auto dest: spec [of _ 650] spec [of _ 5])
qed

section \<open>Opponents\<close>

definition sample_peer :: "u16 \<Rightarrow> u8 \<Rightarrow> Peer" where
  "sample_peer x v = zero_peer\<lparr>pr_x := x, pr_orientation := v\<rparr>"

definition sample_moving :: Client where
  "sample_moving = sample_fresh\<lparr>cl_snapshotBuffer :=
     [\<lparr>sn_time = 100000, sn_peers = replicate 4 (sample_peer 10 250)\<rparr>, \<lparr>sn_time = 200000, sn_peers = replicate 4 (sample_peer 20 4)\<rparr>]\<rparr>"

theorem opponents_smooth_witness: "between 10 (pr_x (renderedPeers 230000 sample_moving ! 0)) 20"
proof -
  have buf: "cl_snapshotBuffer sample_moving = [\<lparr>sn_time = 100000, sn_peers = replicate 4 (sample_peer 10 250)\<rparr>,
      \<lparr>sn_time = 200000, sn_peers = replicate 4 (sample_peer 20 4)\<rparr>]"
    by (simp add: sample_moving_def)
  then have ne: "cl_snapshotBuffer sample_moving \<noteq> []" by simp
  note o = opponents_smooth [OF ne, of 230000, unfolded buf]
  define d where "d = interpolationDelay sample_moving"
  have d: "50000 \<le> unat d" "unat d \<le> 100000" using o by (simp_all add: d_def)
  then have "unat (230000 - d) = 230000 - unat d" "d < 230000"
    by (simp_all add: unat_sub word_le_nat_alt word_less_nat_alt)
  with d have "100000 < render_time 230000 sample_moving" "render_time 230000 sample_moving < 200000"
    by (simp_all add: render_time_def d_def [symmetric] word_less_nat_alt)
  with o obtain n where "Suc n < 2" "\<forall>i<4. on_the_way (sn_peers ([\<lparr>sn_time = 100000, sn_peers = replicate 4 (sample_peer 10 250)\<rparr>,
      \<lparr>sn_time = 200000, sn_peers = replicate 4 (sample_peer 20 4)\<rparr>] ! n) ! i) (renderedPeers 230000 sample_moving ! i)
      (sn_peers ([\<lparr>sn_time = 100000, sn_peers = replicate 4 (sample_peer 10 250)\<rparr>,
      \<lparr>sn_time = 200000, sn_peers = replicate 4 (sample_peer 20 4)\<rparr>] ! Suc n) ! i)"
    by auto
  then have "on_the_way (sample_peer 10 250) (renderedPeers 230000 sample_moving ! 0) (sample_peer 20 4)"
    by (auto dest: spec [of _ 0])
  then show ?thesis by (simp add: on_the_way_def sample_peer_def)
qed

section \<open>Clients that hold a seat\<close>

definition sample_seated :: Client where
  "sample_seated = sample_fresh\<lparr>cl_attached := True, cl_socket := 5, cl_id := 0, cl_session := 42, cl_token := 42, cl_race := 1,
     cl_nonce := 5\<rparr>"

definition sample_queued :: Client where
  "sample_queued = queue [FZ_SELECT, 3] sample_seated"

lemma seated_ok: "client_ok sample_seated"
  by (simp add: sample_seated_def sample_fresh_def fresh_client_def client_ok_defs seated_def no_peers_ok sample_client_config_def)

lemma queued_ok: "client_ok sample_queued"
  by (simp add: sample_queued_def seated_ok)

lemma queued_pending:
  "cl_pending sample_queued = [\<lparr>pd_packet = zero_packet\<lparr>pk_type := FZ_COMMAND, pk_seq := 1, pk_length := 2, pk_payload := fill [FZ_SELECT, 3]\<rparr>, pd_sent = 0\<rparr>]"
  "cl_commandSeq sample_queued = 1"
  by (simp_all add: sample_queued_def queue_def sample_seated_def sample_fresh_def fresh_client_def Let_def)

theorem acknowledgement_exact_witness: "cl_pending (acknowledge 1 sample_queued) = []"
  using acknowledgement_exact [OF queued_ok, of 1] by (simp add: queued_pending)

lemma seated_seat: "seated_at 0 sample_lobby sample_seated" "seated_at 0 sample_lobby sample_queued"
  by (simp_all add: seated_at_def sample_queued_def queue_def sample_seated_def sample_fresh_def fresh_client_def Let_def)

theorem snapshot_mirrored_witness:
  "\<exists>d p. (sample_address, d) \<in> set (io_sent (s_io (snapshot sample_lobby))) \<and> fz_decode d = Some p
    \<and> pr_status (cl_peers (client_receive p sample_seated) ! 1) = FZ_JOINED"
proof -
  have "s_snapshot_seq sample_lobby = 0" "cl_snapshotSeq sample_seated = 0" "cl_race sample_seated = 1"
    by (simp_all add: sample_room_def sample_server_def new_server_def sample_seated_def sample_fresh_def fresh_client_def)
  then obtain d p now where "(sample_address, d) \<in> set (io_sent (s_io (snapshot sample_lobby)))" "fz_decode d = Some p"
      "mirrors now sample_lobby (client_receive p sample_seated)"
    using snapshot_mirrored [OF sample_lobby_inv seated_seat(1)] by (auto simp: newer_Suc [of 0, simplified])
  then show ?thesis by (intro exI [of _ d] exI [of _ p]) (simp add: mirrors_def mirrored_def)
qed

theorem handshake_witness:
  "\<exists>j w p. (sample_address, w) \<in> set (io_sent (s_io (receive_packet (fz_encode FZ_MAX_PACKET (outgoing sample_fresh (hello_packet sample_fresh))) sample_address sample_server)))
    \<and> fz_decode w = Some p \<and> cl_id (client_receive p sample_fresh) = int j"
proof -
  have "\<not> s_closed sample_server" "s_phase sample_server = FZ_LOBBY" "count sample_server < unat (s_expected sample_server)"
    "io_entropy (s_io sample_server) (io_draws (s_io sample_server)) \<noteq> None"
    "\<forall>k<4. occupied (player sample_server k) \<longrightarrow> \<not> same_address sample_address (p_address (player sample_server k))"
    "s_owner_nonce sample_server = 0 \<or> occupied (player sample_server 0) \<or> cl_nonce sample_fresh = s_owner_nonce sample_server"
    "cl_id sample_fresh < 0" "cf_key (cl_config sample_fresh) = s_key sample_server" "length (s_key sample_server) \<le> FZ_KEY_MAX"
    by (simp_all add: sample_server_def new_server_def sample_config_def sample_io_def sample_fresh_def fresh_client_def
        sample_client_config_def vacant_players all_less_4 count_players_def upt_4)
  from handshake [OF sample_reachable this] show ?thesis
    unfolding Let_def seated_at_def by blast
qed

lemma select_sent:
  "fz_encode FZ_MAX_PACKET (outgoing sample_queued (pd_packet (hd (cl_pending sample_queued)))) = sample_data FZ_COMMAND 2 1 [FZ_SELECT, 3]"
  by (simp add: queued_pending) (simp add: sample_data_def sample_packet_def outgoing_def sample_queued_def queue_def sample_seated_def
      sample_fresh_def fresh_client_def zero_packet_def Let_def)

definition sample_chosen :: Server where
  "sample_chosen = run_command 0 (sample_packet FZ_COMMAND 2 1 [FZ_SELECT, 3]) (sample_lobby\<lparr>s_rx := s_rx sample_lobby + 1\<rparr>)"

lemma snapshot_seq_ops [simp]:
  "s_snapshot_seq (log_event l k m s) = s_snapshot_seq s" "s_snapshot_seq (update_player i f s) = s_snapshot_seq s"
  "s_snapshot_seq (snd (now_us s)) = s_snapshot_seq s" "s_snapshot_seq (sample_room ph h own ps) = 0"
  by (simp_all add: log_event_def update_player_def now_us_def sample_room_def sample_server_def new_server_def Let_def)

lemma chosen:
  "s_players sample_chosen = [sample_player\<lparr>p_car := 3, p_status := FZ_SELECTED, p_command_seq := 1, p_seen := 7\<rparr>, sample_second, zero_player, zero_player]"
  "s_phase sample_chosen = FZ_LOBBY" "s_race sample_chosen = 1" "s_snapshot_seq sample_chosen = 0" "s_expected sample_chosen = 2"
  "fst (now_us sample_chosen) = 7"
  unfolding sample_chosen_def
  by (simp_all add: run_command_def apply_command_def command_done_def Let_def case_prod_beta fst_now_us)

lemma chosen_waits: "advance 7 (snd (now_us sample_chosen)) = snd (now_us sample_chosen)"
proof -
  have "occupied (sample_player\<lparr>p_car := 3, p_status := FZ_SELECTED, p_command_seq := 1, p_seen := 7\<rparr>)" by (simp add: occupied_def)
  then show ?thesis
    by (simp add: advance_def timeouts_def upt_4 chosen start_loading_def count_players_def all_at_least_def
        start_countdown_def start_race_def end_race_def Let_def)
qed

lemma chosen_answer: "receive_packet (sample_data FZ_COMMAND 2 1 [FZ_SELECT, 3]) sample_address sample_lobby = snapshot (snd (now_us sample_chosen))"
  using sample_decode [of FZ_COMMAND 2 "[FZ_SELECT, 3]" 1] chosen_waits chosen(6)
  by (simp add: receive_command_packet receive_command_def newer_Suc [of 0, simplified] Let_def case_prod_beta)
    (simp add: sample_chosen_def)

theorem command_delivered_witness:
  "\<exists>w p more. (sample_address, w) \<in> set (io_sent (s_io (snapshot (snd (now_us sample_chosen))))) \<and> fz_decode w = Some p
    \<and> cl_pending (client_receive p sample_queued) = [] @ more"
proof -
  let ?b = "sample_data FZ_COMMAND 2 1 [FZ_SELECT, 3]" and ?d = "hd (cl_pending sample_queued)"
  have c: "cl_race sample_queued = 1" "cl_snapshotSeq sample_queued = 0"
    by (simp_all add: sample_queued_def queue_def sample_seated_def sample_fresh_def fresh_client_def Let_def)
  have p: "cl_pending sample_queued = ?d # []" "pk_seq (pd_packet ?d) = 1" by (simp_all add: queued_pending)
  have t: "occupied (player (receive_packet ?b sample_address sample_lobby) 0)" "s_race (receive_packet ?b sample_address sample_lobby) = 1"
    "p_token (player (receive_packet ?b sample_address sample_lobby) 0) = 42" "p_address (player (receive_packet ?b sample_address sample_lobby) 0) = sample_address"
    "s_snapshot_seq (receive_packet ?b sample_address sample_lobby) = 1"
    unfolding chosen_answer by (simp_all add: chosen snapshot_counts) (simp add: occupied_def)
  show ?thesis
    using command_delivered [OF queued_ok sample_lobby_inv seated_seat(2) _ _ p(1) _ select_sent [symmetric], of sample_address] p(2) t c
    by (simp add: chosen_answer newer_Suc [of 0, simplified])
qed

end
