(* ===== verification/Fz_Server_Gap.thy ===== *)
theory Fz_Server_Gap
  imports Fz_Server_Witness
begin

text \<open>
  A run of the server that leaves a player in a seat beyond the size of the room: four players join a
  room for four, the second leaves, and the host makes it a room for three.
\<close>

section \<open>Lobbies of the run\<close>

definition guest :: "u16 \<Rightarrow> Player" where
  "guest port = new_player \<lparr>sin_addr = 0x7F000001, sin_port = port\<rparr> 5 42 7"

text \<open>A lobby for \<open>e\<close> with these players, otherwise as \<open>sample_server\<close> was created.\<close>

definition lobby_of :: "u8 \<Rightarrow> u8 \<Rightarrow> Player list \<Rightarrow> Server \<Rightarrow> bool" where
  "lobby_of e h ps s \<longleftrightarrow> s_players s = ps \<and> s_phase s = FZ_LOBBY \<and> s_expected s = e \<and> s_host s = h
     \<and> \<not> s_closed s \<and> s_race s = 1 \<and> s_track s = 0 \<and> s_league s = 0 \<and> setup_of s = setup_of (poll_wait 0 sample_server)"

lemma lobby_setup:
  assumes "lobby_of e h ps s"
  shows "s_key s = []" "s_owner_nonce s = 0" "s_session s = 42" "io_clock (s_io s) = (\<lambda>_. 7)"
    "io_entropy (s_io s) = (\<lambda>_. Some 42)" "s_tick s = 7" "s_summary s = 7"
  using assms
  by (simp_all add: lobby_of_def setup_of_def poll_wait_def sample_server_def new_server_def sample_config_def sample_io_def)

lemma guest_simps [simp]:
  "occupied (guest p)" "p_address (guest p) = \<lparr>sin_addr = 0x7F000001, sin_port = p\<rparr>" "p_token (guest p) = 42"
  "p_seen (guest p) = 7" "p_status (guest p) = FZ_JOINED" "p_command_seq (guest p) = 0" "p_car (guest p) = 0"
  by (simp_all add: guest_def new_player_def occupied_def zero_player_def)

section \<open>Joining\<close>

lemma guest_joins:
  assumes s: "lobby_of e h ps s" and ps: "length ps = 4" "i < 4" "\<not> occupied (ps ! i)" "\<forall>k<i. occupied (ps ! k)"
    and room: "count_players ps < unat e"
    and new: "\<forall>k<4. occupied (ps ! k) \<longrightarrow> sin_port (p_address (ps ! k)) \<noteq> port"
  shows "lobby_of e (if h = 255 then of_nat i else h) (ps[i := guest port])
    (receive_packet sample_hello_data \<lparr>sin_addr = 0x7F000001, sin_port = port\<rparr> s)"
proof -
  let ?a = "\<lparr>sin_addr = 0x7F000001, sin_port = port\<rparr>" and ?s = "s\<lparr>s_rx := s_rx s + 1\<rparr>"
  have f: "s_players s = ps" "s_phase s = FZ_LOBBY" "s_expected s = e" "s_host s = h" "\<not> s_closed s" "s_race s = 1"
      "s_track s = 0" "s_league s = 0" "setup_of s = setup_of (poll_wait 0 sample_server)"
    using s by (simp_all add: lobby_of_def)
  have "admissible sample_hello ?a ?s"
    using room new by (simp add: admissible_def f lobby_setup [OF s] same_address_def) (auto simp: sample_hello_def hello_payload)
  then have "receive_packet sample_hello_data ?a s = join_slot i ?a 5 ?s"
    using receive_hello_admissible [of sample_hello ?a ?s i] ps(2-4) f
    by (simp add: receive_packet_def) (simp add: sample_hello_def hello_payload)
  then show ?thesis
    using f(9) ps(1,2)
    by (simp add: lobby_of_def f) (simp add: join_slot_def Let_def case_prod_beta random_id_def now_us_def
        lobby_setup [OF s] f guest_def new_player_def)
qed

section \<open>Leaving and configuring\<close>

text \<open>Nothing happens in a lobby whose players have been heard just now and have not chosen their machines.\<close>

lemma lobby_waits:
  assumes "lobby_of e h ps s" and "list_all (\<lambda>i. occupied (ps ! i) \<longrightarrow> p_seen (ps ! i) = 7) [0..<4]"
    and "i < 4" "occupied (ps ! i)" "p_status (ps ! i) < FZ_SELECTED"
  shows "advance 7 s = s"
proof -
  have f: "s_players s = ps" "s_phase s = FZ_LOBBY" "\<not> s_closed s" using assms(1) by (simp_all add: lobby_of_def)
  have "timeouts 7 s = s"
    using assms(2) by (intro timeouts_none) (auto simp: f list_all_iff)
  moreover have "\<not> all_at_least FZ_SELECTED s"
    using assms(3-5) by (auto simp: all_at_least_iff f not_le)
  ultimately show ?thesis
    using f by (simp add: advance_def start_loading_def start_countdown_def start_race_def end_race_def)
qed

lemma guest_commands:
  assumes s: "lobby_of e h ps s" and i: "authenticate (sample_packet FZ_COMMAND len 1 b) a s = Some i" "p_command_seq (ps ! i) = 0"
    and b: "unat len = length b" "0 < length b" "length b \<le> 220"
  shows "receive_packet (sample_data FZ_COMMAND len 1 b) a s
    = (let t = run_command i (sample_packet FZ_COMMAND len 1 b) (s\<lparr>s_rx := s_rx s + 1\<rparr>)
       in snapshot (advance (fst (now_us t)) (snd (now_us t))))"
proof -
  have f: "s_players s = ps" "\<not> s_closed s" "s_race s = 1" using s by (simp_all add: lobby_of_def)
  have "0 < len" using b(1,2) by (simp add: word_less_nat_alt)
  then have "\<not> len < 1" by (simp add: word_less_nat_alt)
  then show ?thesis
    using f i b receive_command_packet [OF sample_decode [of FZ_COMMAND len b 1], of s a]
    by (simp add: receive_command_def newer_Suc [of 0, simplified] Let_def case_prod_beta)
qed

lemma lobby_quiet [simp]:
  "lobby_of e h ps (snd (now_us s)) = lobby_of e h ps s" "lobby_of e h ps (snapshot s) = lobby_of e h ps s"
  "lobby_of e h ps (s\<lparr>s_rx := v\<rparr>) = lobby_of e h ps s"
  by (simp_all add: lobby_of_def)

lemma lobby_after_command:
  assumes "lobby_of e h ps s" and "authenticate (sample_packet FZ_COMMAND len 1 b) a s = Some i" and "p_command_seq (ps ! i) = 0"
    and "unat len = length b" "0 < length b" "length b \<le> 220"
    and t: "lobby_of e' h' ps' (run_command i (sample_packet FZ_COMMAND len 1 b) (s\<lparr>s_rx := s_rx s + 1\<rparr>))"
    and w: "list_all (\<lambda>i. occupied (ps' ! i) \<longrightarrow> p_seen (ps' ! i) = 7) [0..<4]"
    and k: "k < 4" "occupied (ps' ! k)" "p_status (ps' ! k) < FZ_SELECTED"
  shows "lobby_of e' h' ps' (receive_packet (sample_data FZ_COMMAND len 1 b) a s)"
proof -
  let ?t = "run_command i (sample_packet FZ_COMMAND len 1 b) (s\<lparr>s_rx := s_rx s + 1\<rparr>)"
  have "fst (now_us ?t) = 7" using lobby_setup(4) [OF t] by (simp add: fst_now_us)
  moreover have "advance 7 (snd (now_us ?t)) = snd (now_us ?t)"
    using t w k by (intro lobby_waits [of e' h' ps' _ k]) simp_all
  ultimately show ?thesis
    unfolding guest_commands [OF assms(1-6)] Let_def using t by simp
qed

abbreviation four_guests :: "Player list" where
  "four_guests \<equiv> [guest 4000, guest 4001, guest 4002, guest 4003]"

abbreviation three_guests :: "Player list" where
  "three_guests \<equiv> [guest 4000, zero_player, guest 4002, guest 4003]"

lemma guest_address: "same_address \<lparr>sin_addr = 0x7F000001, sin_port = p\<rparr> \<lparr>sin_addr = 0x7F000001, sin_port = q\<rparr> \<longleftrightarrow> p = q"
  by (simp add: same_address_def)

lemma second_leaves:
  assumes s: "lobby_of 4 0 four_guests s"
  shows "lobby_of 4 0 three_guests
    (receive_packet (sample_data FZ_COMMAND 1 1 [FZ_LEAVE]) \<lparr>sin_addr = 0x7F000001, sin_port = 4001\<rparr> s)"
proof (rule lobby_after_command [OF s, of _ _ _ 1 _ _ _ 0])
  have f: "s_players s = four_guests" "s_phase s = FZ_LOBBY" "s_expected s = 4" "s_host s = 0" "\<not> s_closed s" "s_race s = 1"
      "s_track s = 0" "s_league s = 0" "setup_of s = setup_of (poll_wait 0 sample_server)"
    using s by (simp_all add: lobby_of_def)
  note n = lobby_setup [OF s]
  show "authenticate (sample_packet FZ_COMMAND 1 1 [FZ_LEAVE]) \<lparr>sin_addr = 0x7F000001, sin_port = 4001\<rparr> s = Some 1"
    by (simp add: authenticate_def upt_4 f n guest_address)
  show "lobby_of 4 0 three_guests (run_command 1 (sample_packet FZ_COMMAND 1 1 [FZ_LEAVE]) (s\<lparr>s_rx := s_rx s + 1\<rparr>))"
    by (simp add: lobby_of_def f)
      (simp add: run_command_def apply_command_def command_done_def departed_def Let_def case_prod_beta f n count_players_def upt_4)
qed (simp_all add: upt_4)

lemma host_shrinks:
  assumes s: "lobby_of 4 0 three_guests s"
  shows "lobby_of 3 0 (three_guests[0 := (guest 4000)\<lparr>p_command_seq := 1, p_seen := 7\<rparr>])
    (receive_packet (sample_data FZ_COMMAND 4 1 [FZ_CONFIG, 3, 0, 0]) \<lparr>sin_addr = 0x7F000001, sin_port = 4000\<rparr> s)"
proof (rule lobby_after_command [OF s, of _ _ _ 0 _ _ _ 2])
  have f: "s_players s = three_guests" "s_phase s = FZ_LOBBY" "s_expected s = 4" "s_host s = 0" "\<not> s_closed s" "s_race s = 1"
      "s_track s = 0" "s_league s = 0" "setup_of s = setup_of (poll_wait 0 sample_server)"
    using s by (simp_all add: lobby_of_def)
  note n = lobby_setup [OF s]
  show "authenticate (sample_packet FZ_COMMAND 4 1 [FZ_CONFIG, 3, 0, 0]) \<lparr>sin_addr = 0x7F000001, sin_port = 4000\<rparr> s = Some 0"
    by (simp add: authenticate_def upt_4 f n guest_address)
  show "lobby_of 3 0 (three_guests[0 := (guest 4000)\<lparr>p_command_seq := 1, p_seen := 7\<rparr>])
      (run_command 0 (sample_packet FZ_COMMAND 4 1 [FZ_CONFIG, 3, 0, 0]) (s\<lparr>s_rx := s_rx s + 1\<rparr>))"
    by (simp add: lobby_of_def f)
      (simp add: run_command_def apply_command_def command_done_def Let_def case_prod_beta f n count_players_def
        upt_4 fst_now_us)
qed (simp_all add: upt_4 occupied_def)

section \<open>The run\<close>

definition four_config :: fz_server_config where
  "four_config = sample_config\<lparr>c_players := 4\<rparr>"

definition gap_env :: poll_env where
  "gap_env = \<lparr>pe_poll_error = None, pe_recv =
     [Datagram sample_hello_data \<lparr>sin_addr = 0x7F000001, sin_port = 4000\<rparr>,
      Datagram sample_hello_data \<lparr>sin_addr = 0x7F000001, sin_port = 4001\<rparr>,
      Datagram sample_hello_data \<lparr>sin_addr = 0x7F000001, sin_port = 4002\<rparr>,
      Datagram sample_hello_data \<lparr>sin_addr = 0x7F000001, sin_port = 4003\<rparr>,
      Datagram (sample_data FZ_COMMAND 1 1 [FZ_LEAVE]) \<lparr>sin_addr = 0x7F000001, sin_port = 4001\<rparr>,
      Datagram (sample_data FZ_COMMAND 4 1 [FZ_CONFIG, 3, 0, 0]) \<lparr>sin_addr = 0x7F000001, sin_port = 4000\<rparr>]\<rparr>"

definition gap_room :: Server where
  "gap_room = snd (fz_server_poll 0 gap_env (sample_server\<lparr>s_expected := 4\<rparr>))"

lemma gap_reachable: "reachable sample_io gap_room"
proof -
  have "fz_server_create (Some four_config) 0 sample_os sample_io = Inr (sample_server\<lparr>s_expected := 4\<rparr>)"
    by (simp add: fz_server_create_def four_config_def sample_config_def valid_config_def sample_os_def sample_io_def
        random_id_def now_us_def new_server_def sample_server_def inet_pton_def Let_def log_event_def)
  then show ?thesis unfolding gap_room_def by (intro reachable.polled reachable.created)
qed

lemma receive_next:
  "0 < n \<Longrightarrow> \<not> s_closed s \<Longrightarrow> receive_loop n (Datagram b a # rs) s
    = receive_loop (n - 1) rs (receive_packet (take (FZ_MAX_PACKET + 1) b) a s)"
  by (cases n) simp_all

lemma receive_none: "receive_loop n [] s = (True, s)"
  by (cases n) simp_all

lemma open_lobby: "lobby_of e h ps s \<Longrightarrow> \<not> s_closed s"
  by (simp add: lobby_of_def)

lemma sample_data_short: "length b \<le> 220 \<Longrightarrow> unat len = length b \<Longrightarrow> take 257 (sample_data FZ_COMMAND len q b) = sample_data FZ_COMMAND len q b"
  unfolding sample_data_def
  by (subst take_all) (simp_all add: length_encode canonical_def sample_packet_def)

lemma four_join:
  assumes s: "lobby_of 4 255 (replicate 4 zero_player) s"
  defines "join p \<equiv> receive_packet sample_hello_data \<lparr>sin_addr = 0x7F000001, sin_port = p\<rparr>"
  shows "lobby_of 4 0 [guest 4000, zero_player, zero_player, zero_player] (join 4000 s)"
    and "lobby_of 4 0 [guest 4000, guest 4001, zero_player, zero_player] (join 4001 (join 4000 s))"
    and "lobby_of 4 0 [guest 4000, guest 4001, guest 4002, zero_player] (join 4002 (join 4001 (join 4000 s)))"
    and "lobby_of 4 0 four_guests (join 4003 (join 4002 (join 4001 (join 4000 s))))"
proof -
  have few: "(\<forall>k<2. P k) \<longleftrightarrow> P 0 \<and> P 1" "(\<forall>k<3. P k) \<longleftrightarrow> P 0 \<and> P 1 \<and> P (2 :: nat)" for P
    by (auto simp: numeral_eq_Suc less_Suc_eq)
  note c = count_players_def upt_4 all_less_4 few vacant_players
  show 1: "lobby_of 4 0 [guest 4000, zero_player, zero_player, zero_player] (join 4000 s)"
    using guest_joins [OF s, of 0 4000] by (simp add: c join_def)
  show 2: "lobby_of 4 0 [guest 4000, guest 4001, zero_player, zero_player] (join 4001 (join 4000 s))"
    using guest_joins [OF 1, of 1 4001] by (simp add: c join_def)
  show 3: "lobby_of 4 0 [guest 4000, guest 4001, guest 4002, zero_player] (join 4002 (join 4001 (join 4000 s)))"
    using guest_joins [OF 2, of 2 4002] by (simp add: c join_def)
  show "lobby_of 4 0 four_guests (join 4003 (join 4002 (join 4001 (join 4000 s))))"
    using guest_joins [OF 3, of 3 4003] by (simp add: c join_def)
qed

definition gap_players :: "Player list" where
  "gap_players = [(guest 4000)\<lparr>p_command_seq := 1, p_seen := 7\<rparr>, zero_player, guest 4002, guest 4003]"

text \<open>The room after the run: three players for a room of three, one of them in the fourth seat.\<close>

lemma gap_room:
  "s_players gap_room = gap_players" "s_phase gap_room = FZ_LOBBY" "s_expected gap_room = 3" "s_host gap_room = 0"
  "s_race gap_room = 1" "s_track gap_room = 0" "s_league gap_room = 0" "s_session gap_room = 42" "\<not> s_closed gap_room"
proof -
  define s0 where "s0 = poll_wait 0 (snd (now_us (sample_server\<lparr>s_expected := 4\<rparr>)))"
  define s6 where "s6 = snd (receive_loop 128 (pe_recv gap_env) s0)"
  have s0: "lobby_of 4 255 (replicate 4 zero_player) s0"
    by (simp add: lobby_of_def s0_def setup_of_def poll_wait_def now_us_def sample_server_def new_server_def sample_config_def)
  note j = four_join [OF s0]
  note l = second_leaves [OF j(4)]
  note stay = open_lobby [OF s0] open_lobby [OF j(1)] open_lobby [OF j(2)] open_lobby [OF j(3)] open_lobby [OF j(4)]
    open_lobby [OF l]
  have loop: "receive_loop 128 (pe_recv gap_env) s0 = (True, s6)" and s6: "lobby_of 3 0 gap_players s6"
    using host_shrinks [OF l] stay unfolding s6_def
    by (simp_all add: gap_env_def receive_next receive_none sample_data_short gap_players_def)
  let ?t = "snd (now_us s6)"
  have t: "lobby_of 3 0 gap_players ?t" using s6 by simp
  have "advance 7 ?t = ?t"
    by (rule lobby_waits [OF t, of 2]) (simp_all add: gap_players_def upt_4)
  moreover have "fst (now_us s6) = 7" "s_tick ?t = 7" "s_summary ?t = 7"
    using lobby_setup [OF s6] lobby_setup [OF t] by (simp_all add: fst_now_us)
  moreover have "fz_server_poll 0 gap_env (sample_server\<lparr>s_expected := 4\<rparr>)
      = (let now = fst (now_us s6); u = poll_summary now (poll_tick now ?t) in (if s_closed u then 0 else 1, u))"
  proof -
    have "poll_timeout 0 7 7 = 0" by (simp add: poll_timeout_def)
    then show ?thesis
      using loop unfolding fz_server_poll_def
      by (simp add: s0_def Let_def case_prod_beta gap_env_def sample_server_def new_server_def sample_io_def fst_now_us)
  qed
  ultimately have eq: "gap_room = (snapshot ?t)\<lparr>s_tick := 7 + 16667\<rparr>"
    using open_lobby [OF t] by (simp add: gap_room_def poll_tick_def poll_summary_def Let_def)
  show "s_players gap_room = gap_players" "s_phase gap_room = FZ_LOBBY" "s_expected gap_room = 3" "s_host gap_room = 0"
    "s_race gap_room = 1" "s_track gap_room = 0" "s_league gap_room = 0" "s_session gap_room = 42" "\<not> s_closed gap_room"
    using s6 lobby_setup(3) [OF s6] unfolding eq by (simp_all add: lobby_of_def)
qed

end
