(* ===== verification/Fz_Presentation.thy ===== *)
theory Fz_Presentation
  imports Fz_Client
begin

text \<open>
  What the front end shows of a room and which changes it offers (\<^verbatim>\<open>client/fzvs_presentation.hpp\<close>).
  Texts are byte strings: the punctuation outside ASCII is written as the bytes of its UTF-8 encoding.
\<close>

record RoomPresentation =
  rp_connected :: bool
  rp_canConfigure :: bool
  rp_canNext :: bool
  rp_occupied :: u32
  rp_guidance :: string
  rp_players :: "string list"

definition empty_presentation :: RoomPresentation where
  "empty_presentation = \<lparr>rp_connected = False, rp_canConfigure = False, rp_canNext = False, rp_occupied = 0,
     rp_guidance = [], rp_players = []\<rparr>"

definition middle_dot :: string where
  "middle_dot = [CHR 0xC2, CHR 0xB7]"

definition em_dash :: string where
  "em_dash = [CHR 0xE2, CHR 0x80, CHR 0x94]"

definition ellipsis :: string where
  "ellipsis = [CHR 0xE2, CHR 0x80, CHR 0xA6]"

definition peer_present :: "Peer \<Rightarrow> bool" where
  "peer_present peer \<longleftrightarrow> pr_status peer \<noteq> FZ_EMPTY \<and> pr_status peer \<noteq> FZ_DISCONNECTED"

definition present_player :: "View \<Rightarrow> nat \<Rightarrow> RoomPresentation \<Rightarrow> RoomPresentation" where
  "present_player v i p =
     (let peer = vw_peers v ! i;
          occupied = peer_present peer;
          p = (if occupied then p\<lparr>rp_occupied := rp_occupied p + 1\<rparr> else p);
          text = ''P'' @ fmt_u (i + 1) @ ''  '' @ middle_dot @ ''  Color: '' @ fz_player_color i;
          text = (if int i = vw_player v then text @ ''  '' @ middle_dot @ ''  You'' else text);
          text = (if int i = vw_host v then text @ ''  '' @ middle_dot @ ''  Host'' else text);
          text = text @ ''  '' @ em_dash @ ''  '';
          text = text @ (if occupied then ''Machine: '' @ fz_selected_car_name (unat (pr_status peer)) (unat (pr_car peer))
                   else ''Open slot'')
      in p\<lparr>rp_players := rp_players p @ [text]\<rparr>)"

definition presentRoom :: "View \<Rightarrow> RoomPresentation" where
  "presentRoom v =
     (let p = empty_presentation\<lparr>rp_connected := vw_connected v\<rparr>
      in if \<not> vw_connected v then p\<lparr>rp_guidance := ''Connect to a room to see network statistics''\<rparr>
         else let p = fold (present_player v) [0..<nat (max 2 (min 4 (vw_expected v)))] p;
                  p = p\<lparr>rp_canConfigure := (vw_player v = vw_host v \<and> vw_phase v = 0),
                        rp_canNext := (vw_player v = vw_host v \<and> vw_phase v = 4)\<rparr>
           in p\<lparr>rp_guidance :=
                (if vw_phase v = 4 then ''Race complete''
                 else if vw_phase v = 3 then ''Racing''
                 else if vw_phase v = 2 then ''Race starting''
                 else if vw_phase v = 1 then ''Loading track''
                 else if rp_occupied p < of_int (vw_expected v) then ''Waiting for players''
                 else if vw_player v \<ge> 0 \<and> vw_player v < 4 \<and> pr_status (vw_peers v ! nat (vw_player v)) < FZ_SELECTED
                 then ''Select your machine in the game''
                 else ''Waiting for machine selections'')\<rparr>)"

definition connectionProgress :: "string \<Rightarrow> bool \<Rightarrow> string" where
  "connectionProgress state hosting =
     (if state = ''resolving'' then ''Looking up the host'' @ ellipsis
      else if state = ''stopping'' then ''Leaving room'' @ ellipsis
      else if hosting then ''Creating room and connecting as P1'' @ ellipsis
      else ''Connecting to room'' @ ellipsis)"

definition validRoomChange :: "View \<Rightarrow> u32 \<Rightarrow> u32 \<Rightarrow> u32 \<Rightarrow> bool" where
  "validRoomChange v players track league \<longleftrightarrow>
     (let p = presentRoom v
      in rp_canConfigure p \<and> players \<ge> 2 \<and> players \<le> 4 \<and> players \<ge> rp_occupied p \<and> track < 5 \<and> league < 3
         \<and> (players \<noteq> of_int (vw_expected v) \<or> track \<noteq> of_int (vw_track v) \<or> league \<noteq> of_int (vw_league v)))"

text \<open>\<open>find\<close> and \<open>resize\<close> cut at the first dot.\<close>

definition defaultRoomName :: "string \<Rightarrow> string" where
  "defaultRoomName computer =
     (let computer = takeWhile (\<lambda>c. c \<noteq> CHR ''.'') computer;
          computer = (if computer = [] then ''F-Zero VS'' else computer)
      in take 56 computer @ [CHR 0x27] @ ''s game'')"

section \<open>The number of players shown\<close>

lemma shown_fold:
  "rp_occupied (fold (present_player v) is p) = rp_occupied p + of_nat (length (filter (\<lambda>i. peer_present (vw_peers v ! i)) is))
   \<and> length (rp_players (fold (present_player v) is p)) = length (rp_players p) + length is"
  by (induction "is" arbitrary: p) (simp_all add: present_player_def Let_def)

lemma room_shown:
  assumes "vw_connected v"
  shows "rp_occupied (presentRoom v) = of_nat (length (filter (\<lambda>i. peer_present (vw_peers v ! i)) [0..<nat (max 2 (min 4 (vw_expected v)))]))"
    and "rp_canConfigure (presentRoom v) \<longleftrightarrow> vw_player v = vw_host v \<and> vw_phase v = 0"
    and "rp_canNext (presentRoom v) \<longleftrightarrow> vw_player v = vw_host v \<and> vw_phase v = 4"
    and "length (rp_players (presentRoom v)) = nat (max 2 (min 4 (vw_expected v)))"
  using assms shown_fold [of v] by (simp_all add: presentRoom_def Let_def empty_presentation_def)

lemma not_connected_shown: "\<not> vw_connected v \<Longrightarrow> \<not> rp_canConfigure (presentRoom v) \<and> \<not> rp_canNext (presentRoom v)"
  by (simp add: presentRoom_def Let_def empty_presentation_def)

end
