(* ===== verification/Fz_Presentation_Props.thy ===== *)
theory Fz_Presentation_Props
  imports Fz_Client_Witness Fz_Server_Gap Fz_Presentation
begin

text \<open>
  What the front end offers the host of a room is what the server accepts.
\<close>

section \<open>The published view\<close>

lemma view_publish:
  "vw_connected (view (publish c)) \<longleftrightarrow> 0 \<le> cl_id c \<and> cl_game c \<noteq> Disconnected" "vw_player (view (publish c)) = cl_id c"
  "vw_host (view (publish c)) = int (unat (cl_host c))" "vw_expected (view (publish c)) = int (unat (cl_expected c))"
  "vw_phase (view (publish c)) = int (unat (cl_phase c))" "vw_track (view (publish c)) = int (unat (cl_track c))"
  "vw_league (view (publish c)) = int (unat (cl_league c))" "vw_peers (view (publish c)) = cl_peers c"
  by (simp_all add: view_def publish_def Let_def case_prod_beta)

lemma present_mirrored: "peer_present (mirrored now p) = occupied p"
  by (simp add: peer_present_def mirrored_def occupied_def)

text \<open>The seats of the players present are those of the room.\<close>

definition compact :: "Server \<Rightarrow> bool" where
  "compact s \<longleftrightarrow> (\<forall>i<4. occupied (player s i) \<longrightarrow> i < unat (s_expected s))"

lemma compact_count:
  assumes "compact s" and "2 \<le> unat (s_expected s)" and "unat (s_expected s) \<le> 4"
  shows "length (filter (\<lambda>i. occupied (player s i)) [0..<unat (s_expected s)]) = count s"
proof -
  consider "unat (s_expected s) = 2" | "unat (s_expected s) = 3" | "unat (s_expected s) = 4" using assms(2,3) by linarith
  then show ?thesis
    using assms(1) by cases (auto simp: compact_def count_players_def upt_rec all_less_4 numeral_2_eq_2 numeral_3_eq_3)
qed

lemma clamped: "2 \<le> n \<Longrightarrow> n \<le> 4 \<Longrightarrow> nat (max 2 (min 4 (int n))) = n"
  by simp

lemma shown_count:
  assumes "server_inv s" and "mirrors now s c" and "seated_at j s c" and "cl_game c \<noteq> Disconnected"
  shows "rp_occupied (presentRoom (view (publish c)))
    = of_nat (length (filter (\<lambda>i. occupied (player s i)) [0..<unat (s_expected s)]))"
proof -
  have e: "2 \<le> unat (s_expected s)" "unat (s_expected s) \<le> 4" and len: "length (s_players s) = 4"
    using assms(1) by (simp_all add: inv_defs word_le_nat_alt)
  have conn: "vw_connected (view (publish c))"
    using assms(3,4) by (simp add: view_publish seated_at_def)
  have "filter (\<lambda>i. peer_present (cl_peers c ! i)) [0..<unat (s_expected s)] = filter (\<lambda>i. occupied (player s i)) [0..<unat (s_expected s)]"
    using assms(2) e(2) len by (intro filter_cong) (simp_all add: mirrors_def present_mirrored)
  moreover have "cl_expected c = s_expected s" using assms(2) by (simp add: mirrors_def)
  ultimately show ?thesis
    unfolding room_shown(1) [OF conn] view_publish using clamped [OF e] by (simp only:)
qed

section \<open>Offers\<close>

definition config_packet :: "u32 \<Rightarrow> u32 \<Rightarrow> u32 \<Rightarrow> u32 \<Rightarrow> fz_packet" where
  "config_packet seq players track league = zero_packet\<lparr>pk_type := FZ_COMMAND, pk_seq := seq, pk_length := 4,
     pk_payload := fill [FZ_CONFIG, ucast players, ucast track, ucast league]\<rparr>"

lemma config_queued:
  assumes "0 \<le> cl_id c" and "length (cl_pending c) < 8"
  shows "pd_packet (last (cl_pending (queue [FZ_CONFIG, ucast players, ucast track, ucast league] c)))
    = config_packet (cl_commandSeq c + 1) players track league"
  using assms by (simp add: queue_def Let_def config_packet_def)

lemma small_byte: "(x :: u32) \<le> 4 \<Longrightarrow> unat (ucast x :: u8) = unat x"
  by (simp add: unsigned_ucast_eq take_bit_nat_eq_self word_le_nat_alt)

text \<open>
  A change the front end offers is answered by the number of players alone: everything else the server
  checks has been checked.
\<close>

lemma offer_answer:
  assumes "server_inv s" and "mirrors now s c" and "seated_at j s c" and "cl_game c \<noteq> Disconnected"
    and "validRoomChange (view (publish c)) players track league"
  shows "apply_command j (config_packet seq players track league) s
    = (if count s \<le> unat players then (True, s\<lparr>s_expected := ucast players, s_track := ucast track, s_league := ucast league\<rparr>)
       else (False, s))"
proof -
  have conn: "vw_connected (view (publish c))" using assms(3,4) by (simp add: view_publish seated_at_def)
  have "vw_player (view (publish c)) = vw_host (view (publish c)) \<longleftrightarrow> j = unat (s_host s)"
    using assms(2,3) by (simp add: view_publish mirrors_def seated_at_def flip: of_nat_eq_iff [where 'a = int])
  moreover have "vw_phase (view (publish c)) = 0 \<longleftrightarrow> s_phase s = FZ_LOBBY"
    using assms(2) by (simp add: view_publish mirrors_def uint_0_iff)
  ultimately have v: "2 \<le> players" "players \<le> 4" "track < 5" "league < 3" "j = unat (s_host s)" "s_phase s = FZ_LOBBY"
    using assms(5) room_shown(2) [OF conn] by (auto simp: validRoomChange_def Let_def)
  moreover have "track \<le> 4" "league \<le> 4" using v(3,4) by (simp_all add: word_less_nat_alt word_le_nat_alt)
  ultimately show ?thesis
    by (simp add: apply_command_def config_packet_def Let_def word_le_nat_alt word_less_nat_alt small_byte)
qed

text \<open>
  C27. What the front end offers the host, the server accepts: as long as the client's
  picture is current and every player sits below the size of the room, a change of the room that passes
  \<open>validRoomChange\<close>, sent as the client queues it, is a valid command and gives the room exactly the
  chosen size, track and league, and when the next race is offered, that command is valid as well.
\<close>

theorem offer_accepted:
  assumes "server_inv s" and "mirrors now s c" and "seated_at j s c" and "cl_game c \<noteq> Disconnected" and "compact s"
  shows "(validRoomChange (view (publish c)) players track league \<longrightarrow>
      apply_command j (config_packet seq players track league) s
        = (True, s\<lparr>s_expected := ucast players, s_track := ucast track, s_league := ucast league\<rparr>))
    \<and> (rp_canNext (presentRoom (view (publish c))) \<longrightarrow>
      apply_command j (zero_packet\<lparr>pk_type := FZ_COMMAND, pk_seq := seq, pk_length := 1, pk_payload := fill [FZ_NEXT]\<rparr>) s = (True, s))"
proof -
  have inv: "2 \<le> unat (s_expected s)" "unat (s_expected s) \<le> 4" "count s \<le> 4"
    using assms(1) by (auto simp: inv_defs word_le_nat_alt)
  have conn: "vw_connected (view (publish c))" using assms(3,4) by (simp add: view_publish seated_at_def)
  have host: "vw_player (view (publish c)) = vw_host (view (publish c)) \<longleftrightarrow> j = unat (s_host s)"
    using assms(2,3) by (simp add: view_publish mirrors_def seated_at_def flip: of_nat_eq_iff [where 'a = int])
  have phase: "vw_phase (view (publish c)) = 4 \<longleftrightarrow> s_phase s = FZ_RESULTS"
    using assms(2) by (simp add: view_publish mirrors_def word_unat_eq_iff flip: of_nat_eq_iff [where 'a = int])
  have occupied: "rp_occupied (presentRoom (view (publish c))) = of_nat (count s)"
    using shown_count [OF assms(1-4)] compact_count [OF assms(5) inv(1,2)] by simp
  have "count s \<le> unat players" if "validRoomChange (view (publish c)) players track league"
    using that inv(3) by (simp add: validRoomChange_def Let_def occupied word_le_nat_alt unat_of_nat)
  moreover have "j = unat (s_host s) \<and> s_phase s = FZ_RESULTS" if "rp_canNext (presentRoom (view (publish c)))"
    using that host phase room_shown(3) [OF conn] by simp
  ultimately show ?thesis
    using offer_answer [OF assms(1-4)] by (simp add: apply_command_def Let_def)
qed

section \<open>A room and a client that shows it\<close>

definition showing :: "Server \<Rightarrow> Client" where
  "showing s = sample_seated\<lparr>cl_phase := s_phase s, cl_expected := s_expected s, cl_host := s_host s, cl_track := s_track s,
     cl_league := s_league s, cl_armedMask := armed_mask s, cl_startTime := s_start s, cl_race := s_race s,
     cl_peers := map (mirrored 0) (s_players s)\<rparr>"

lemma showing: "mirrors 0 s (showing s)" "cl_game (showing s) \<noteq> Disconnected" "0 \<le> cl_id (showing s)"
  "seated_at 0 (sample_room ph h own (sample_player # ps)) (showing (sample_room ph h own (sample_player # ps)))"
  by (simp_all add: showing_def mirrors_def sample_seated_def sample_fresh_def fresh_client_def seated_at_def)

lemma shown:
  "vw_connected (view (publish (showing s)))" "vw_expected (view (publish (showing s))) = int (unat (s_expected s))"
  "vw_player (view (publish (showing s))) = 0" "vw_host (view (publish (showing s))) = int (unat (s_host s))"
  "vw_phase (view (publish (showing s))) = int (unat (s_phase s))" "vw_track (view (publish (showing s))) = int (unat (s_track s))"
  "vw_league (view (publish (showing s))) = int (unat (s_league s))" "vw_peers (view (publish (showing s))) = map (mirrored 0) (s_players s)"
  unfolding view_publish by (simp_all add: showing_def sample_seated_def sample_fresh_def fresh_client_def)

theorem offer_accepted_witness:
  "apply_command 0 (config_packet 1 3 1 2) sample_lobby = (True, sample_lobby\<lparr>s_expected := 3, s_track := 1, s_league := 2\<rparr>)"
proof -
  have "compact sample_lobby" by (simp add: compact_def all_less_4)
  moreover have "validRoomChange (view (publish (showing sample_lobby))) 3 1 2"
    unfolding validRoomChange_def Let_def room_shown [OF shown(1)] shown
    by (simp add: upt_rec present_mirrored)
  ultimately show ?thesis
    using offer_accepted [OF sample_lobby_inv showing(1) showing(4) showing(2), of 0 3 1 2 1] by simp
qed

section \<open>Seats beyond the size of the room\<close>

text \<open>
  The server does not keep every player below the size of the room: when four players have joined, the
  second one leaves and the host then makes it a room for three, the fourth seat stays taken.
\<close>

lemma seats_below:
  assumes "i < 4" and "occupied (player s i)" and "n \<le> i"
  shows "length (filter (\<lambda>k. occupied (player s k)) [0..<n]) < count s"
proof -
  have "[0..<4] = [0..<n] @ [n..<4]"
    using assms(1,3) upt_add_eq_append [of 0 n "4 - n"] by simp
  moreover have "i \<in> set (filter (\<lambda>k. occupied (player s k)) [n..<4])" using assms by simp
  then have "0 < length (filter (\<lambda>k. occupied (player s k)) [n..<4])" by (rule length_pos_if_in_set)
  moreover have "count s = length (filter (\<lambda>k. occupied (player s k)) [0..<4])"
    by (simp add: count_players_def upt_4)
  ultimately show ?thesis by simp
qed

text \<open>
  C39. In a room where a player sits beyond the size of the room, the roster of the front
  end is incomplete. In every state of the server that can be reached, and for every client whose
  picture of it is current, the front end does not list that player and counts too few; and
  of the changes it then offers the host, the server accepts exactly those that have room for everybody,
  so that an offer with the size the roster shows is refused.
\<close>

theorem roster_incomplete:
  assumes "reachable w s" and "mirrors now s c" and "seated_at j s c" and "cl_game c \<noteq> Disconnected"
    and "i < 4" and "occupied (player s i)" and "unat (s_expected s) \<le> i"
  shows "length (rp_players (presentRoom (view (publish c)))) \<le> i
    \<and> unat (rp_occupied (presentRoom (view (publish c)))) < count s
    \<and> (validRoomChange (view (publish c)) players track league \<longrightarrow>
        (fst (apply_command j (config_packet seq players track league) s) \<longleftrightarrow> count s \<le> unat players))"
proof -
  have inv: "server_inv s" by (rule room.I_reachable [OF assms(1)])
  then have e: "2 \<le> unat (s_expected s)" "unat (s_expected s) \<le> 4" "count s \<le> 4"
    by (auto simp: inv_defs word_le_nat_alt)
  have conn: "vw_connected (view (publish c))" using assms(3,4) by (simp add: view_publish seated_at_def)
  have "cl_expected c = s_expected s" using assms(2) by (simp add: mirrors_def)
  then have "length (rp_players (presentRoom (view (publish c)))) \<le> i"
    unfolding room_shown(4) [OF conn] view_publish using clamped [OF e(1,2)] assms(7) by (simp only:)
  moreover have "unat (rp_occupied (presentRoom (view (publish c)))) < count s"
    using seats_below [OF assms(5-7)] e(3) unfolding shown_count [OF inv assms(2-4)] by (simp add: unat_of_nat)
  ultimately show ?thesis
    using offer_answer [OF inv assms(2-4)] by simp
qed

text \<open>The room of three that the run in \<open>Fz_Server_Gap\<close> reaches: the host is offered a room for two, and the server refuses it.\<close>

theorem roster_incomplete_witness:
  "unat (rp_occupied (presentRoom (view (publish (showing gap_room))))) < 3
    \<and> validRoomChange (view (publish (showing gap_room))) 2 0 0
    \<and> \<not> fst (apply_command 0 (config_packet 1 2 0 0) gap_room)"
proof -
  have players: "occupied (player gap_room 0)" "p_token (player gap_room 0) = 42" "\<not> occupied (player gap_room 1)"
      "occupied (player gap_room 2)" "occupied (player gap_room 3)"
    by (simp_all add: gap_room(1) gap_players_def) (simp_all add: occupied_def zero_player_def)
  then have three: "count gap_room = 3" by (simp add: count_players_def upt_4)
  have seat: "seated_at 0 gap_room (showing gap_room)"
    using players by (simp add: seated_at_def showing_def gap_room sample_seated_def sample_fresh_def fresh_client_def)
  have "[0..<unat (s_expected gap_room)] = [0, 1, 2]" by (simp add: gap_room(3) upt_rec)
  then have "rp_occupied (presentRoom (view (publish (showing gap_room)))) = 2"
    using shown_count [OF room.I_reachable [OF gap_reachable] showing(1) seat showing(2)] players by simp
  then have offered: "validRoomChange (view (publish (showing gap_room))) 2 0 0"
    using room_shown(2) [OF shown(1), of gap_room] by (simp add: validRoomChange_def shown gap_room)
  show ?thesis
    using roster_incomplete [OF gap_reachable showing(1) seat showing(2), of 3 2 0 0 1] players three offered
    by (simp add: gap_room(3))
qed

end
