(* ===== verification/Fz_Text.thy ===== *)
theory Fz_Text
  imports Fz_Events
begin

text \<open>
  Texts as the C and C++ sources read them: where a C string ends, the character classes of the C
  locale, and decimal numerals, which are inverse to the \<open>%u\<close> conversion of the log.
\<close>

section \<open>Strings and characters\<close>

text \<open>A C string ends at its first zero byte.\<close>

definition cstr :: "string \<Rightarrow> string" where
  "cstr cs = takeWhile (\<lambda>c. of_char c \<noteq> (0 :: nat)) cs"

definition is_space :: "char \<Rightarrow> bool" where
  "is_space c \<longleftrightarrow> (let n = of_char c :: nat in n = 32 \<or> (9 \<le> n \<and> n \<le> 13))"

definition is_digit :: "char \<Rightarrow> bool" where
  "is_digit c \<longleftrightarrow> (let n = of_char c :: nat in 48 \<le> n \<and> n \<le> 57)"

definition digits_value :: "string \<Rightarrow> int" where
  "digits_value cs = foldl (\<lambda>v c. v * 10 + (of_char c - 48)) 0 cs"

section \<open>Decimal numerals\<close>

lemma digit_char:
  fixes n :: nat
  assumes "n < 10"
  shows "is_digit (char_of (48 + n))" "of_char (char_of (48 + n) :: char) = int (48 + n)"
proof -
  have "of_char (char_of (48 + n) :: char) = 48 + n" using assms by simp
  then show "of_char (char_of (48 + n) :: char) = int (48 + n)"
    by (metis of_nat_of_char)
  show "is_digit (char_of (48 + n))" using assms by (simp add: is_digit_def Let_def)
qed

lemma digits_value_snoc: "digits_value (cs @ [c]) = digits_value cs * 10 + (of_char c - 48)"
  by (simp add: digits_value_def)

lemma fmt_u_digits: "digits_value (fmt_u n) = int n \<and> (\<forall>c\<in>set (fmt_u n). is_digit c) \<and> fmt_u n \<noteq> []"
proof (induction n rule: fmt_u.induct)
  case (1 n)
  show ?case
  proof (cases "n < 10")
    case True
    then show ?thesis by (simp add: fmt_u.simps [of n] digits_value_def digit_char del: of_char_of)
  next
    case False
    have "int (n div 10) * 10 + int (n mod 10) = int n"
      by (metis div_mult_mod_eq of_nat_add of_nat_mult of_nat_numeral)
    with False "1" show ?thesis
      by (simp add: fmt_u.simps [of n] digits_value_snoc digit_char del: of_char_of)
  qed
qed

lemma span_digits:
  assumes "\<forall>c\<in>set ds. is_digit c" and "case cs of [] \<Rightarrow> True | c # _ \<Rightarrow> \<not> is_digit c"
  shows "takeWhile is_digit (ds @ cs) = ds" "dropWhile is_digit (ds @ cs) = cs"
  using assms by (auto simp: takeWhile_append2 dropWhile_append2 split: list.splits)

end
