(* ===== verification/Fz_Main.thy ===== *)
theory Fz_Main
  imports Fz_Text Fz_Server_Run
begin

text \<open>
  The standalone server program (\<^verbatim>\<open>server/src/main.c\<close>): the reading of its command line, the two
  forms in which it writes the event log, and its life from the creation of the server to its exit
  code. What the operating system answers is an argument: the outcome of each opened file, of the
  set-up of the server, and what each round of the loop finds on the socket before a signal sets
  \<open>stopping\<close>.
\<close>

section \<open>Writing the log\<close>

definition hex_digit :: "nat \<Rightarrow> char" where
  "hex_digit n = char_of (if n < 10 then 48 + n else 87 + n)"

text \<open>\<open>%0kx\<close> of a number below \<open>16 ^ k\<close>.\<close>

fun fmt_x :: "nat \<Rightarrow> nat \<Rightarrow> string" where
  "fmt_x 0 n = []"
| "fmt_x (Suc k) n = fmt_x k (n div 16) @ [hex_digit (n mod 16)]"

definition levels :: "string list" where
  "levels = [''WARN'', ''INFO'', ''DEBUG'', ''TRACE'']"

abbreviation (input) newline :: string where "newline \<equiv> [CHR 0x0A]"

definition text_line :: "fz_server_event \<Rightarrow> string" where
  "text_line e =
     fmt_u (unat (e_time_us e)) @ '' '' @ levels ! nat (e_level e) @ '' session=''
       @ fmt_x 16 (unat (e_session e)) @ '' race='' @ fmt_u (unat (e_race e)) @ '' player=''
       @ fmt_d (e_player e + 1) @ '' '' @ cstr (e_message e) @ newline"

fun json_escape :: "string \<Rightarrow> string" where
  "json_escape [] = []"
| "json_escape (c # cs) =
     (let n = of_char c :: nat in
      if n = 0 then []
      else (if n = 34 \<or> n = 92 then [CHR 0x5C] else [])
        @ (if n \<ge> 32 then [c] else CHR 0x5C # CHR ''u'' # fmt_x 4 n) @ json_escape cs)"

definition json_line :: "fz_server_event \<Rightarrow> string" where
  "json_line e =
     ''{\"monotonic_us\":'' @ fmt_u (unat (e_time_us e)) @ '',\"level\":\"'' @ levels ! nat (e_level e)
       @ ''\",\"session\":\"'' @ fmt_x 16 (unat (e_session e)) @ ''\",\"race\":'' @ fmt_u (unat (e_race e))
       @ '',\"player\":'' @ fmt_d (e_player e + 1) @ '',\"message\":\"'' @ json_escape (e_message e)
       @ ''\"}'' @ newline"

text \<open>The two streams the program writes: standard output and, when asked for, the JSON log.\<close>

record sinks =
  k_stdout :: string
  k_json :: "string option"

definition write_event :: "fz_server_event \<Rightarrow> sinks \<Rightarrow> sinks" where
  "write_event e k = \<lparr>k_stdout = k_stdout k @ text_line e,
     k_json = map_option (\<lambda>j. j @ json_line e) (k_json k)\<rparr>"

function drain :: "sinks \<Rightarrow> Server \<Rightarrow> sinks \<times> Server" where
  "drain k s =
     (case fz_server_next_event (s_ring s) of None \<Rightarrow> (k, s)
      | Some (e, r) \<Rightarrow> drain (write_event e k) (s\<lparr>s_ring := r\<rparr>))"
  by pat_completeness auto
termination
  by (relation "measure (\<lambda>(k, s). er_count (s_ring s))") (auto dest: next_event_decreases)

declare drain.simps [simp del]

section \<open>Reading the command line\<close>

text \<open>
  \<open>strtol(text,&end,10)\<close> on a 64-bit \<open>long\<close>: the value, what \<open>end\<close> points to, and whether \<open>errno\<close>
  is set. Without any digit nothing is consumed.
\<close>

definition strtol :: "string \<Rightarrow> int \<times> string \<times> bool" where
  "strtol text =
     (let cs = dropWhile is_space text;
          (neg, cs) = (case cs of c # ds \<Rightarrow>
              if c = CHR ''-'' then (True, ds) else if c = CHR ''+'' then (False, ds) else (False, cs)
            | [] \<Rightarrow> (False, []));
          ds = takeWhile is_digit cs;
          v = (if neg then - digits_value ds else digits_value ds)
      in if ds = [] then (0, text, False)
         else if v < - (2 ^ 63) then (- (2 ^ 63), dropWhile is_digit cs, True)
         else if v > 2 ^ 63 - 1 then (2 ^ 63 - 1, dropWhile is_digit cs, True)
         else (v, dropWhile is_digit cs, False))"

text \<open>The ways the program ends before it has a server to run: the exit code and what it printed.\<close>

datatype outcome =
    Help
  | Usage string

definition number :: "string \<Rightarrow> int \<Rightarrow> int \<Rightarrow> outcome + int" where
  "number text low high =
     (let (n, end, errno) = strtol text
      in if errno \<or> text = [] \<or> end \<noteq> [] \<or> n < low \<or> n > high
         then Inl (Usage (''Invalid number: '' @ text)) else Inr n)"

record options =
  o_config :: fz_server_config
  o_ready :: "string option"
  o_json_path :: "string option"

definition key_bytes :: "string \<Rightarrow> bytes" where
  "key_bytes cs = map (\<lambda>c. of_nat (of_char c)) cs"

definition default_options :: options where
  "default_options =
     \<lparr>o_config = \<lparr>c_bind_address = Some ''127.0.0.1'', c_room_key = Some [], c_port = 12000,
        c_players = 2, c_track = 0, c_league = 0, c_log_level = 1, c_trace_player = - 1,
        c_owner_nonce = 0\<rparr>, o_ready = None, o_json_path = None\<rparr>"

definition set_config :: "(fz_server_config \<Rightarrow> fz_server_config) \<Rightarrow> options \<Rightarrow> options" where
  "set_config f opt = opt\<lparr>o_config := f (o_config opt)\<rparr>"

definition bind_result :: "outcome + 'a \<Rightarrow> ('a \<Rightarrow> outcome + 'b) \<Rightarrow> outcome + 'b" where
  "bind_result r f = (case r of Inl e \<Rightarrow> Inl e | Inr v \<Rightarrow> f v)"

definition numeric :: "string \<Rightarrow> int \<Rightarrow> int \<Rightarrow> (int \<Rightarrow> fz_server_config \<Rightarrow> fz_server_config) \<Rightarrow> options
    \<Rightarrow> outcome + options" where
  "numeric text low high f opt = bind_result (number text low high) (\<lambda>n. Inr (set_config (f n) opt))"

text \<open>One flag with its value. The cast to \<open>uint8_t\<close> is written out.\<close>

definition apply_flag :: "string \<Rightarrow> string \<Rightarrow> options \<Rightarrow> outcome + options" where
  "apply_flag flag v opt =
     (if flag = ''--bind'' then Inr (set_config (c_bind_address_update (\<lambda>_. Some v)) opt)
      else if flag = ''--port'' then numeric v 1 65535 (\<lambda>n. c_port_update (\<lambda>_. of_int n)) opt
      else if flag = ''--players''
        then numeric v 2 4 (\<lambda>n. c_players_update (\<lambda>_. ucast (of_int n :: u8))) opt
      else if flag = ''--track''
        then numeric v 0 4 (\<lambda>n. c_track_update (\<lambda>_. ucast (of_int n :: u8))) opt
      else if flag = ''--league''
        then numeric v 0 2 (\<lambda>n. c_league_update (\<lambda>_. ucast (of_int n :: u8))) opt
      else if flag = ''--room-key''
        then if length v > FZ_KEY_MAX then Inl (Usage [])
          else Inr (set_config (c_room_key_update (\<lambda>_. Some (key_bytes v))) opt)
      else if flag = ''--ready-file'' then Inr (opt\<lparr>o_ready := Some v\<rparr>)
      else if flag = ''--json-log'' then Inr (opt\<lparr>o_json_path := Some v\<rparr>)
      else if flag = ''--trace-player''
        then numeric v 1 4 (\<lambda>n. c_trace_player_update (\<lambda>_. n - 1)) opt
      else if flag = ''--log-level''
        then if v = ''info'' then Inr (set_config (c_log_level_update (\<lambda>_. 1)) opt)
          else if v = ''debug'' then Inr (set_config (c_log_level_update (\<lambda>_. 2)) opt)
          else if v = ''trace'' then Inr (set_config (c_log_level_update (\<lambda>_. 3)) opt)
          else Inl (Usage [])
      else Inl (Usage (''Unknown option: '' @ flag)))"

fun parse_args :: "string list \<Rightarrow> options \<Rightarrow> outcome + options" where
  "parse_args [] opt = Inr opt"
| "parse_args [flag] opt =
     (if flag = ''--help'' then Inl Help else Inl (Usage (''Missing value: '' @ flag)))"
| "parse_args (flag # v # args) opt =
     (if flag = ''--help'' then Inl Help
      else bind_result (apply_flag flag v opt) (parse_args args))"

section \<open>The life of the program\<close>

text \<open>
  \<open>while(!stopping && result>0)\<close>: one entry of the list per round that starts before a signal
  arrives.
\<close>

fun serve :: "poll_env list \<Rightarrow> int \<Rightarrow> sinks \<Rightarrow> Server \<Rightarrow> int \<times> sinks \<times> Server" where
  "serve [] result k s = (result, k, s)"
| "serve (env # rounds) result k s =
     (if result > 0
      then let (result, s) = fz_server_poll 16 env s; (k, s) = drain k s
        in serve rounds result k s
      else (result, k, s))"

text \<open>Whether the two files could be opened and written, and the \<open>strerror\<close> text if not.\<close>

record files =
  f_json_ok :: bool
  f_ready_ok :: bool
  f_strerror :: string

text \<open>
  What is left of a run: its exit code, what it wrote, the path it handed to \<open>unlink\<close>, and the server
  if there was one.
\<close>

record run =
  r_code :: int
  r_stderr :: string
  r_sinks :: sinks
  r_unlinked :: "string option"
  r_server :: "Server option"

definition usage_text :: string where
  "usage_text =
     ''fzvs-server --bind IPv4 --port N --players 2..4 --track 0..4 --league 0..2'' @ newline
       @ ''  --room-key KEY --ready-file PATH --log-level info|debug|trace --json-log PATH --trace-player 1..4''
       @ newline"

definition stop_early :: "outcome \<Rightarrow> run" where
  "stop_early e =
     (case e of
        Help \<Rightarrow> \<lparr>r_code = 0, r_stderr = [], r_sinks = \<lparr>k_stdout = usage_text, k_json = None\<rparr>,
          r_unlinked = None, r_server = None\<rparr>
      | Usage m \<Rightarrow> \<lparr>r_code = 2, r_stderr = (if m = [] then [] else m @ newline),
          r_sinks = \<lparr>k_stdout = [], k_json = None\<rparr>, r_unlinked = None, r_server = None\<rparr>)"

definition run_server :: "options \<Rightarrow> files \<Rightarrow> poll_env list \<Rightarrow> Server \<Rightarrow> run" where
  "run_server opt fs rounds s =
     (let k = \<lparr>k_stdout = [], k_json = map_option (\<lambda>_. []) (o_json_path opt)\<rparr>
      in if o_ready opt \<noteq> None \<and> \<not> f_ready_ok fs
         then \<lparr>r_code = 1, r_stderr = ''ready-file: '' @ f_strerror fs @ newline, r_sinks = k,
           r_unlinked = None, r_server = Some (fz_server_destroy s)\<rparr>
         else let (result, k, s) = serve rounds 1 k s;
                  (k, s) = drain k (fz_server_close s)
           in \<lparr>r_code = (if result < 0 then 1 else 0), r_stderr = [], r_sinks = k,
               r_unlinked = o_ready opt, r_server = Some (fz_server_destroy s)\<rparr>)"

definition main :: "string list \<Rightarrow> files \<Rightarrow> os_setup \<Rightarrow> io \<Rightarrow> poll_env list \<Rightarrow> run" where
  "main args fs os w rounds =
     (case parse_args args default_options of
        Inl e \<Rightarrow> stop_early e
      | Inr opt \<Rightarrow>
          if o_json_path opt \<noteq> None \<and> \<not> f_json_ok fs
          then \<lparr>r_code = 1, r_stderr = ''json-log: '' @ f_strerror fs @ newline,
            r_sinks = \<lparr>k_stdout = [], k_json = None\<rparr>, r_unlinked = None, r_server = None\<rparr>
          else case fz_server_create (Some (o_config opt)) 256 os w of
            Inl message \<Rightarrow> \<lparr>r_code = 1, r_stderr = the message @ newline,
              r_sinks = \<lparr>k_stdout = [], k_json = map_option (\<lambda>_. []) (o_json_path opt)\<rparr>,
              r_unlinked = None, r_server = None\<rparr>
          | Inr s \<Rightarrow> run_server opt fs rounds s)"

end
