(* ===== verification/Fz_Server_Log.thy ===== *)
theory Fz_Server_Log
  imports Fz_Server_Run
begin

text \<open>
  The levels of the events in the log: whatever the server does, they stay within the four the
  readers of the log have names for.
\<close>

definition level_ok :: "fz_server_event \<Rightarrow> bool" where
  "level_ok e \<longleftrightarrow> 0 \<le> e_level e \<and> e_level e \<le> 3"

definition levels_ok :: "Server \<Rightarrow> bool" where
  "levels_ok s \<longleftrightarrow> ring_invar (s_ring s) \<and> list_all level_ok (ring_contents (s_ring s))"

lemma levels_ok_ring: "s_ring s' = s_ring s \<Longrightarrow> levels_ok s' = levels_ok s"
  by (simp add: levels_ok_def)

lemma list_all_newest: "list_all P xs \<Longrightarrow> list_all P (newest n xs)"
  by (auto simp: newest_def list_all_iff dest: in_set_dropD)

lemma levels_log [simp]:
  assumes "levels_ok s" and "0 \<le> l" and "l \<le> 3"
  shows "levels_ok (log_event l k m s)"
  using assms log_ring.contents_push [of "s_ring s"]
  by (simp add: levels_ok_def log_event_def Let_def now_us_def ring_invar_push list_all_newest level_ok_def)

lemma levels_quiet [simp]:
  "levels_ok (snd (now_us s)) = levels_ok s" "levels_ok (snd (random_id s)) = levels_ok s"
  "levels_ok (transmit a packet s) = levels_ok s" "levels_ok (send_player i packet s) = levels_ok s"
  "levels_ok (update_player i f s) = levels_ok s" "levels_ok (update_players f s) = levels_ok s"
  "levels_ok (reject s) = levels_ok s" "levels_ok (join_error a n c s) = levels_ok s"
  "levels_ok (send_welcome i s) = levels_ok s" "levels_ok (poll_wait v s) = levels_ok s"
  by (rule levels_ok_ring; simp add: now_us_def random_id_def transmit_def send_player_def
      update_player_def update_players_eq reject_def join_error_def send_welcome_def poll_wait_def Let_def)+

lemma levels_updates [simp]:
  "levels_ok (s\<lparr>s_players := v0\<rparr>) = levels_ok s" "levels_ok (s\<lparr>s_host := v1\<rparr>) = levels_ok s"
  "levels_ok (s\<lparr>s_start := v2\<rparr>) = levels_ok s" "levels_ok (s\<lparr>s_race := v3\<rparr>) = levels_ok s"
  "levels_ok (s\<lparr>s_phase := v4\<rparr>) = levels_ok s" "levels_ok (s\<lparr>s_expected := v5\<rparr>) = levels_ok s"
  "levels_ok (s\<lparr>s_track := v6\<rparr>) = levels_ok s" "levels_ok (s\<lparr>s_league := v7\<rparr>) = levels_ok s"
  "levels_ok (s\<lparr>s_closed := v8\<rparr>) = levels_ok s" "levels_ok (s\<lparr>s_rx := v9\<rparr>) = levels_ok s"
  "levels_ok (s\<lparr>s_stale := v10\<rparr>) = levels_ok s" "levels_ok (s\<lparr>s_session := v11\<rparr>) = levels_ok s"
  "levels_ok (s\<lparr>s_socket := v12\<rparr>) = levels_ok s" "levels_ok (s\<lparr>s_tick := v13\<rparr>) = levels_ok s"
  "levels_ok (s\<lparr>s_summary := v14\<rparr>) = levels_ok s" "levels_ok (s\<lparr>s_phase_since := v15\<rparr>) = levels_ok s"
  "levels_ok (s\<lparr>s_snapshot_seq := v16\<rparr>) = levels_ok s"
  by (simp_all add: levels_ok_def)

lemma levels_fold:
  "(\<And>i s. levels_ok s \<Longrightarrow> levels_ok (f i s)) \<Longrightarrow> levels_ok s \<Longrightarrow> levels_ok (fold f xs s)"
  by (induction xs arbitrary: s) simp_all

lemma levels_sends [simp]:
  "levels_ok s \<Longrightarrow> levels_ok (send_occupied packet s)" "levels_ok s \<Longrightarrow> levels_ok (snapshot s)"
  by (simp_all add: send_occupied_def snapshot_def Let_def case_prod_beta levels_fold)

lemma levels_phase [simp]: "levels_ok s \<Longrightarrow> levels_ok (phase v s)"
  by (simp add: phase_def Let_def case_prod_beta)

lemma levels_begin_lobby [simp]: "levels_ok s \<Longrightarrow> levels_ok (begin_lobby s)"
  by (simp add: begin_lobby_def Let_def)

lemma levels_drop_player [simp]: "levels_ok s \<Longrightarrow> levels_ok (drop_player i reason s)"
  by (simp add: drop_player_def Let_def)

lemma levels_timeouts [simp]: "levels_ok s \<Longrightarrow> levels_ok (timeouts now s)"
  by (simp add: timeouts_def levels_fold)

lemma levels_barriers [simp]:
  "levels_ok s \<Longrightarrow> levels_ok (start_loading s)" "levels_ok s \<Longrightarrow> levels_ok (start_countdown now s)"
  "levels_ok s \<Longrightarrow> levels_ok (start_race now s)" "levels_ok s \<Longrightarrow> levels_ok (end_race s)"
  by (simp_all add: start_loading_def start_countdown_def start_race_def end_race_def Let_def)

lemma levels_advance [simp]: "levels_ok s \<Longrightarrow> levels_ok (advance now s)"
  by (simp add: advance_def Let_def)

lemma levels_hello [simp]: "levels_ok s \<Longrightarrow> levels_ok (receive_hello packet a s)"
  by (simp add: receive_hello_def join_slot_def Let_def case_prod_beta split: option.split)

lemma levels_player_packets [simp]:
  "levels_ok s \<Longrightarrow> levels_ok (receive_pong i s)" "levels_ok s \<Longrightarrow> levels_ok (receive_ping i packet s)"
  "levels_ok s \<Longrightarrow> levels_ok (receive_state i packet sz s)"
  by (simp_all add: receive_pong_def receive_ping_def receive_state_def Let_def case_prod_beta)

lemma levels_apply [simp]: "levels_ok s \<Longrightarrow> levels_ok (snd (apply_command i packet s))"
  by (simp add: apply_command_def Let_def case_prod_beta)

lemma levels_command [simp]: "levels_ok s \<Longrightarrow> levels_ok (receive_command i packet s)"
  by (simp add: receive_command_def run_command_def command_error_def command_done_def Let_def case_prod_beta)

lemma levels_packet [simp]: "levels_ok s \<Longrightarrow> levels_ok (receive_packet b a s)"
  by (simp add: receive_packet_def receive_player_def Let_def split: option.split)

lemma levels_new_server: "levels_ok (new_server c w)"
  by (simp add: levels_ok_def new_server_def)

interpretation levels: server_safety levels_ok w for w
proof
  fix c sz os s
  assume "fz_server_create c sz os w = Inr s"
  then show "levels_ok s"
    by (elim create_Inr) (simp add: levels_new_server)
next
  fix s e r
  assume "levels_ok s" and "fz_server_next_event (s_ring s) = Some (e, r)"
  then show "levels_ok (s\<lparr>s_ring := r\<rparr>)"
    using log_ring.invar_pop [of "s_ring s" e r] log_ring.pop_Some [of "s_ring s" e r]
    by (simp add: levels_ok_def)
qed (simp_all add: fz_server_close_def Let_def summary_player_def)

end
