(* ===== verification/Fz_Main_Props.thy ===== *)
theory Fz_Main_Props
  imports Fz_Main Fz_Server_Log Fz_Server_Props2 "HOL-Library.Monad_Syntax"
begin

text \<open>
  The standalone server program: its log is exact and readable by machine, its command line accepts
  exactly the runnable configurations, and it leaves no server open behind.
\<close>

section \<open>Hexadecimal numerals\<close>

text \<open>The value of a hexadecimal numeral.\<close>

definition unhex :: "char \<Rightarrow> nat" where
  "unhex c = (let n = of_char c in if n < 58 then n - 48 else n - 87)"

definition hex_value :: "string \<Rightarrow> nat" where
  "hex_value cs = foldl (\<lambda>v c. v * 16 + unhex c) 0 cs"

lemma unhex_hex_digit: "n < 16 \<Longrightarrow> unhex (hex_digit n) = n"
  by (simp add: unhex_def hex_digit_def Let_def)

lemma hex_value_fmt_x: "n < 16 ^ k \<Longrightarrow> hex_value (fmt_x k n) = n"
proof (induction k arbitrary: n)
  case (Suc k)
  then have "n div 16 < 16 ^ k" by (simp add: less_mult_imp_div_less mult.commute)
  with Suc.IH show ?case by (simp add: hex_value_def unhex_hex_digit)
qed (simp add: hex_value_def)

lemma length_fmt_x [simp]: "length (fmt_x k n) = k"
  by (induction k n rule: fmt_x.induct) simp_all

section \<open>A reader of the JSON log\<close>

text \<open>
  A reader of JSON strings after the grammar of RFC 8259, byte by byte: one character, then a string
  up to its closing quote.
\<close>

definition json_escaped :: "string \<Rightarrow> (char \<times> string) option" where
  "json_escaped cs =
     (case cs of [] \<Rightarrow> None
      | c # ds \<Rightarrow>
          if c = CHR ''u'' then if length ds < 4 then None
            else Some (char_of (hex_value (take 4 ds)), drop 4 ds)
          else map_option (\<lambda>v. (v, ds)) (map_of [(CHR 0x22, CHR 0x22), (CHR 0x5C, CHR 0x5C),
            (CHR ''/'', CHR ''/''), (CHR ''b'', CHR 0x08), (CHR ''f'', CHR 0x0C), (CHR ''n'', CHR 0x0A),
            (CHR ''r'', CHR 0x0D), (CHR ''t'', CHR 0x09)] c))"

lemma json_escaped_shorter: "json_escaped cs = Some (c, ds) \<Longrightarrow> length ds < length cs"
  by (auto simp: json_escaped_def split: list.splits if_splits)

function json_string :: "string \<Rightarrow> (string \<times> string) option" where
  "json_string [] = None"
| "json_string (c # cs) =
     (if c = CHR 0x22 then Some ([], cs)
      else if c = CHR 0x5C
      then (case json_escaped cs of None \<Rightarrow> None
            | Some (d, ds) \<Rightarrow> map_option (\<lambda>(m, r). (d # m, r)) (json_string ds))
      else if of_char c < (32 :: nat) then None
      else map_option (\<lambda>(m, r). (c # m, r)) (json_string cs))"
  by pat_completeness auto
termination
  by (relation "measure length") (auto dest: json_escaped_shorter)

lemma cstr_Cons: "cstr (c # cs) = (if of_char c = (0 :: nat) then [] else c # cstr cs)"
  by (simp add: cstr_def)

lemma char_code: "of_char c = (n :: nat) \<Longrightarrow> c = char_of n"
  by auto

lemma json_string_escape: "json_string (json_escape m @ CHR 0x22 # r) = Some (cstr m, r)"
proof (induction m)
  case Nil
  then show ?case by (simp add: cstr_def)
next
  case (Cons c cs)
  let ?n = "of_char c :: nat"
  consider "?n = 0" | "?n = 34" | "?n = 92" | "0 < ?n" "?n < 32" | "32 \<le> ?n" "?n \<noteq> 34" "?n \<noteq> 92"
    by linarith
  then show ?case
  proof cases
    case 2
    have "c = CHR 0x22" using char_code [OF 2] by (simp add: char_of_def bit_0)
    with Cons show ?thesis by (simp add: Let_def cstr_Cons json_escaped_def)
  next
    case 3
    have "c = CHR 0x5C" using char_code [OF 3] by (simp add: char_of_def bit_0)
    with Cons show ?thesis by (simp add: Let_def cstr_Cons json_escaped_def)
  next
    case 4
    then have "json_escaped (CHR ''u'' # fmt_x 4 ?n @ x) = Some (c, x)" for x
      by (simp add: json_escaped_def hex_value_fmt_x)
    with 4 Cons show ?thesis by (simp add: Let_def cstr_Cons)
  next
    case 5
    then have "c \<noteq> CHR 0x22" "c \<noteq> CHR 0x5C" by auto
    with 5 Cons show ?thesis by (simp add: Let_def cstr_Cons)
  qed (simp add: cstr_Cons)
qed

text \<open>The other parts of a line: a fixed text, a decimal numeral, sixteen hexadecimal digits.\<close>

fun expect :: "string \<Rightarrow> string \<Rightarrow> string option" where
  "expect [] cs = Some cs"
| "expect (l # ls) [] = None"
| "expect (l # ls) (c # cs) = (if l = c then expect ls cs else None)"

definition read_nat :: "string \<Rightarrow> (nat \<times> string) option" where
  "read_nat cs =
     (let ds = takeWhile is_digit cs
      in if ds = [] then None else Some (nat (digits_value ds), dropWhile is_digit cs))"

definition read_int :: "string \<Rightarrow> (int \<times> string) option" where
  "read_int cs =
     (case cs of [] \<Rightarrow> None
      | c # ds \<Rightarrow> if c = CHR ''-'' then map_option (\<lambda>(n, r). (- int n, r)) (read_nat ds)
          else map_option (\<lambda>(n, r). (int n, r)) (read_nat cs))"

definition read_level :: "string \<Rightarrow> (int \<times> string) option" where
  "read_level cs =
     do {
       (name, cs) \<leftarrow> json_string cs;
       level \<leftarrow> map_of (zip levels [0, 1, 2, 3]) name;
       Some (level, cs)
     }"

definition read_event :: "string \<Rightarrow> (fz_server_event \<times> string) option" where
  "read_event cs =
     do {
       cs \<leftarrow> expect ''{\"monotonic_us\":'' cs;
       (time, cs) \<leftarrow> read_nat cs;
       cs \<leftarrow> expect '',\"level\":\"'' cs;
       (level, cs) \<leftarrow> read_level cs;
       cs \<leftarrow> expect '',\"session\":\"'' cs;
       let session = hex_value (take 16 cs);
       cs \<leftarrow> expect ''\",\"race\":'' (drop 16 cs);
       (race, cs) \<leftarrow> read_nat cs;
       cs \<leftarrow> expect '',\"player\":'' cs;
       (pl, cs) \<leftarrow> read_int cs;
       cs \<leftarrow> expect '',\"message\":\"'' cs;
       (message, cs) \<leftarrow> json_string cs;
       cs \<leftarrow> expect (CHR ''}'' # newline) cs;
       Some (\<lparr>e_time_us = of_nat time, e_session = of_nat session, e_race = of_nat race,
               e_level = level, e_player = pl - 1, e_message = message\<rparr>, cs)
     }"

lemma read_nat_fmt_u:
  assumes "case cs of [] \<Rightarrow> True | c # _ \<Rightarrow> \<not> is_digit c"
  shows "read_nat (fmt_u n @ cs) = Some (n, cs)"
proof -
  have u: "\<forall>c\<in>set (fmt_u n). is_digit c" "fmt_u n \<noteq> []" "digits_value (fmt_u n) = int n"
    using fmt_u_digits [of n] by simp_all
  show ?thesis by (simp only: read_nat_def span_digits [OF u(1) assms]) (simp add: u(2,3))
qed

lemma read_int_fmt_d:
  assumes "case cs of [] \<Rightarrow> True | c # _ \<Rightarrow> \<not> is_digit c"
  shows "read_int (fmt_d n @ cs) = Some (n, cs)"
proof (cases "n < 0")
  case True
  then show ?thesis by (simp add: read_int_def fmt_d_def read_nat_fmt_u [OF assms])
next
  case False
  obtain d ds where u: "fmt_u (nat n) = d # ds" "is_digit d"
    using fmt_u_digits [of "nat n"] by (cases "fmt_u (nat n)") auto
  then have "d \<noteq> CHR ''-''" by (auto simp: is_digit_def)
  then show ?thesis
    using False u read_nat_fmt_u [OF assms, of "nat n"] by (simp add: read_int_def fmt_d_def)
qed

lemma read_level_name:
  assumes "0 \<le> l" and "l \<le> 3"
  shows "read_level (levels ! nat l @ CHR 0x22 # cs) = Some (l, cs)"
proof -
  have "l \<in> {0, 1, 2, 3}" using assms by auto
  then show ?thesis by (auto simp: read_level_def levels_def)
qed

text \<open>An event as a line can show it: its message up to the first zero byte.\<close>

definition shown :: "fz_server_event \<Rightarrow> fz_server_event" where
  "shown e = e\<lparr>e_message := cstr (e_message e)\<rparr>"

lemma read_json_line:
  assumes "0 \<le> e_level e" and "e_level e \<le> 3"
  shows "read_event (json_line e @ cs) = Some (shown e, cs)"
proof -
  have hex: "hex_value (fmt_x 16 (unat (e_session e))) = unat (e_session e)"
    using unsigned_less [of "e_session e"] by (intro hex_value_fmt_x) simp
  have follow: "\<not> is_digit CHR '',''" by (simp add: is_digit_def)
  show ?thesis
    unfolding read_event_def json_line_def
    by (simp add: read_nat_fmt_u read_int_fmt_d follow hex read_level_name [OF assms, simplified]
        json_string_escape shown_def)
qed

primrec read_events :: "nat \<Rightarrow> string \<Rightarrow> (fz_server_event list \<times> string) option" where
  "read_events 0 cs = Some ([], cs)"
| "read_events (Suc n) cs =
     do {
       (e, cs) \<leftarrow> read_event cs;
       (es, cs) \<leftarrow> read_events n cs;
       Some (e # es, cs)
     }"

lemma read_json_lines:
  "list_all level_ok es \<Longrightarrow>
     read_events (length es) (concat (map json_line es)) = Some (map shown es, [])"
  by (induction es) (simp_all add: level_ok_def read_json_line)

section \<open>Draining\<close>

lemma drain_contents:
  assumes "log_ok s"
  shows "\<exists>r. drain k s = (fold write_event (ring_contents (s_ring s)) k, s\<lparr>s_ring := r\<rparr>)
    \<and> er_count r = 0 \<and> ring_invar r"
  using assms
proof (induction k s rule: drain.induct)
  case (1 k s)
  have inv: "ring_invar (s_ring s)" using "1.prems" by (simp add: log_ok_def)
  show ?case
  proof (cases "fz_server_next_event (s_ring s)")
    case None
    then have "ring_contents (s_ring s) = []" using log_ring.pop_None inv by blast
    moreover from this have "er_count (s_ring s) = 0"
      by (metis length_ring_contents list.size(3))
    ultimately show ?thesis
      using None inv by (intro exI [of _ "s_ring s"]) (simp add: drain.simps [of k s])
  next
    case (Some p)
    obtain e r where p: "p = (e, r)" by (cases p)
    have r: "ring_invar r" "ring_contents (s_ring s) = e # ring_contents r"
      using log_ring.invar_pop log_ring.pop_Some inv Some p by blast+
    have "\<exists>r'. drain (write_event e k) (s\<lparr>s_ring := r\<rparr>)
        = (fold write_event (ring_contents r) (write_event e k), s\<lparr>s_ring := r'\<rparr>)
        \<and> er_count r' = 0 \<and> ring_invar r'"
      using "1.IH" [OF Some p [symmetric]] r(1) by (simp add: log_ok_def)
    then show ?thesis using Some p r(2) by (simp add: drain.simps [of k s])
  qed
qed

lemma fold_write_event:
  "fold write_event es k = \<lparr>k_stdout = k_stdout k @ concat (map text_line es),
     k_json = map_option (\<lambda>j. j @ concat (map json_line es)) (k_json k)\<rparr>"
proof (induction es arbitrary: k)
  case Nil
  have "map_option (\<lambda>j. j) x = x" for x :: "string option" by (cases x) simp_all
  then show ?case by simp
qed (simp add: write_event_def option.map_comp o_def)

text \<open>
  C20. The log-writing loop ends in every state a server can reach, and it writes every pending event
  exactly once, oldest first, to both streams, leaving the log empty and the rest of the server as it
  was. What it appends to the JSON stream is well-formed: a JSON reader gets the same events back,
  with the messages unescaped.
\<close>

theorem drain_exact:
  assumes "reachable w s"
  shows "let es = ring_contents (s_ring s) in
    (\<exists>r. drain k s = (\<lparr>k_stdout = k_stdout k @ concat (map text_line es),
        k_json = map_option (\<lambda>j. j @ concat (map json_line es)) (k_json k)\<rparr>, s\<lparr>s_ring := r\<rparr>)
      \<and> ring_contents r = [])
    \<and> read_events (length es) (concat (map json_line es)) = Some (map shown es, [])"
proof -
  have ok: "log_ok s" "list_all level_ok (ring_contents (s_ring s))"
    using levels.I_reachable [OF assms(1)] by (simp_all add: levels_ok_def log_ok_def)
  obtain r where "drain k s = (fold write_event (ring_contents (s_ring s)) k, s\<lparr>s_ring := r\<rparr>)"
      "er_count r = 0"
    using drain_contents [OF ok(1), of k] by blast
  moreover from this have "ring_contents r = []" by (simp add: ring_contents_def)
  ultimately show ?thesis
    using read_json_lines [OF ok(2)] by (auto simp: fold_write_event Let_def)
qed

section \<open>A whole run\<close>

lemma reachable_drain: "reachable w s \<Longrightarrow> reachable w (snd (drain k s))"
proof (induction k s rule: drain.induct)
  case (1 k s)
  show ?case
  proof (cases "fz_server_next_event (s_ring s)")
    case None
    with "1.prems" show ?thesis by (simp add: drain.simps [of k s])
  next
    case (Some p)
    obtain e r where p: "p = (e, r)" by (cases p)
    have "reachable w (s\<lparr>s_ring := r\<rparr>)"
      using reachable.event_read "1.prems" Some p by simp
    from "1.IH" [OF Some p [symmetric] this] show ?thesis
      using Some p by (simp add: drain.simps [of k s])
  qed
qed

text \<open>Both streams of a state carry the same events, all of a level with a name.\<close>

definition logs :: "fz_server_event list \<Rightarrow> sinks \<Rightarrow> sinks \<Rightarrow> bool" where
  "logs es k k' \<longleftrightarrow> list_all level_ok es \<and> k' = fold write_event es k"

lemma logs_drain:
  assumes "reachable w s"
  shows "logs (ring_contents (s_ring s)) k (fst (drain k s))"
  using levels.I_reachable [OF assms] drain_contents [of s k]
  by (auto simp: logs_def levels_ok_def log_ok_def)

lemma logs_trans: "logs es k k' \<Longrightarrow> logs es' k' k'' \<Longrightarrow> logs (es @ es') k k''"
  by (simp add: logs_def)

lemma serve_logs:
  "reachable w s \<Longrightarrow>
     \<exists>es. logs es k (fst (snd (serve rounds result k s))) \<and> reachable w (snd (snd (serve rounds result k s)))"
proof (induction rounds arbitrary: result k s)
  case Nil
  then show ?case by (auto simp: logs_def intro: exI [of _ "[]"])
next
  case (Cons env rounds)
  show ?case
  proof (cases "0 < result")
    case True
    define s1 where "s1 = snd (fz_server_poll 16 env s)"
    have s1: "reachable w s1" using Cons.prems by (simp add: s1_def reachable.polled)
    obtain es where "logs es (fst (drain k s1))
        (fst (snd (serve rounds (fst (fz_server_poll 16 env s)) (fst (drain k s1)) (snd (drain k s1)))))"
      and "reachable w (snd (snd (serve rounds (fst (fz_server_poll 16 env s)) (fst (drain k s1)) (snd (drain k s1)))))"
      using Cons.IH [OF reachable_drain [OF s1]] by blast
    with logs_trans [OF logs_drain [OF s1]] True show ?thesis
      by (auto simp: s1_def case_prod_beta)
  next
    case False
    with Cons.prems show ?thesis by (auto simp: logs_def intro: exI [of _ "[]"])
  qed
qed

lemma main_server:
  assumes "r_server (main args fs os w rounds) = Some s"
  obtains opt s0 where "main args fs os w rounds = run_server opt fs rounds s0"
    "fz_server_create (Some (o_config opt)) 256 os w = Inr s0"
  using assms that unfolding main_def stop_early_def
  by (auto split: sum.splits if_splits outcome.splits)

lemma run_server_logs:
  fixes opt :: options
  assumes "reachable w s0"
  defines "k0 \<equiv> \<lparr>k_stdout = [], k_json = map_option (\<lambda>_. []) (o_json_path opt)\<rparr>"
  shows "\<exists>es. logs es k0 (r_sinks (run_server opt fs rounds s0))"
    and "\<exists>s. r_server (run_server opt fs rounds s0) = Some s \<and> reachable w s \<and> s_socket s < 0"
proof -
  define s1 where "s1 = fz_server_close (snd (snd (serve rounds 1 k0 s0)))"
  obtain es where es: "logs es k0 (fst (snd (serve rounds 1 k0 s0)))" and s1: "reachable w s1"
    using serve_logs [OF assms(1), where k = k0 and rounds = rounds and result = 1] reachable.shut
    unfolding s1_def by blast
  have "logs (es @ ring_contents (s_ring s1)) k0 (fst (drain (fst (snd (serve rounds 1 k0 s0))) s1))"
    by (rule logs_trans [OF es logs_drain [OF s1]])
  moreover have "logs [] k0 k0" by (simp add: logs_def)
  ultimately show "\<exists>es. logs es k0 (r_sinks (run_server opt fs rounds s0))"
    by (auto simp: run_server_def case_prod_beta Let_def s1_def k0_def)
  have "s_socket (fz_server_destroy s) < 0" for s
    by (simp add: fz_server_destroy_def fz_server_close_def Let_def)
  moreover have "reachable w s \<Longrightarrow> reachable w (fz_server_destroy s)" for s
    by (simp add: fz_server_destroy_def reachable.shut)
  ultimately show "\<exists>s. r_server (run_server opt fs rounds s0) = Some s \<and> reachable w s \<and> s_socket s < 0"
    using assms(1) reachable_drain [OF s1]
    by (auto simp: run_server_def case_prod_beta Let_def s1_def k0_def)
qed

text \<open>
  C25. Over a whole run of the program, standard output and the JSON log carry the same events in
  the same order, line by line, and the complete JSON log reads back to exactly these events.
\<close>

theorem server_log_exact:
  assumes "r_server (main args fs os w rounds) = Some s"
  shows "\<exists>es. k_stdout (r_sinks (main args fs os w rounds)) = concat (map text_line es)
    \<and> (\<forall>j. k_json (r_sinks (main args fs os w rounds)) = Some j \<longrightarrow> j = concat (map json_line es)
         \<and> read_events (length es) j = Some (map shown es, []))"
proof -
  obtain opt s0 where main: "main args fs os w rounds = run_server opt fs rounds s0"
      and "fz_server_create (Some (o_config opt)) 256 os w = Inr s0"
    using main_server [OF assms] .
  then have "reachable w s0" by (blast intro: reachable.created)
  then obtain es where "logs es \<lparr>k_stdout = [], k_json = map_option (\<lambda>_. []) (o_json_path opt)\<rparr>
      (r_sinks (run_server opt fs rounds s0))"
    using run_server_logs(1) by blast
  then show ?thesis
    using read_json_lines [of es]
    by (intro exI [of _ es]) (auto simp: main logs_def fold_write_event)
qed

text \<open>
  C26. The program always ends with one of three exit codes, and with code 2 exactly when the command
  line is wrong. It never leaves a server open: one that was created is closed when the program
  ends, whatever happened in between, and without a server it did not get past its set-up.
\<close>

theorem main_exit:
  "(r_code (main args fs os w rounds) = 2
      \<longleftrightarrow> (\<exists>m. parse_args args default_options = Inl (Usage m)))
   \<and> r_code (main args fs os w rounds) \<in> {0, 1, 2}
   \<and> (case r_server (main args fs os w rounds) of
        Some s \<Rightarrow> reachable w s \<and> s_socket s < 0
      | None \<Rightarrow> r_code (main args fs os w rounds) = 0 \<longleftrightarrow> parse_args args default_options = Inl Help)"
proof -
  have code: "r_code (run_server opt fs rounds s) \<in> {0, 1}" for opt s
    by (simp add: run_server_def Let_def case_prod_beta)
  have server: "\<exists>s'. r_server (run_server opt fs rounds s) = Some s' \<and> reachable w s' \<and> s_socket s' < 0"
    if "fz_server_create (Some (o_config opt)) 256 os w = Inr s" for opt s
    using run_server_logs(2) reachable.created that by blast
  show ?thesis
  proof (cases "parse_args args default_options")
    case (Inl e)
    then show ?thesis by (cases e) (simp_all add: main_def stop_early_def)
  next
    case (Inr opt)
    show ?thesis
    proof (cases "fz_server_create (Some (o_config opt)) 256 os w")
      case (Inr s)
      then show ?thesis
        using code [of opt s] server [OF Inr] \<open>parse_args args default_options = Inr opt\<close>
        by (auto simp: main_def)
    qed (simp add: main_def Inr)
  qed
qed

end
