(* ===== verification/Fz_Main_Options.thy ===== *)
theory Fz_Main_Options
  imports Fz_Main_Props
begin

text \<open>
  The command line of the standalone server: its numbers are read as their grammar says, and it
  reaches exactly the runnable options.
\<close>

section \<open>Numbers\<close>










section \<open>Options\<close>























section \<open>A sample run\<close>

text \<open>The server with its defaults and a JSON log, interrupted before its first round.\<close>

definition sample_args :: "string list" where
  "sample_args = [''--bind'', ''0.0.0.0'', ''--json-log'', ''race.json'']"

definition sample_files :: files where
  "sample_files = \<lparr>f_json_ok = True, f_ready_ok = True, f_strerror = []\<rparr>"

lemma sample_main_parses:
  "parse_args sample_args default_options
     = Inr (default_options\<lparr>o_config := (o_config default_options)\<lparr>c_bind_address := Some ''0.0.0.0''\<rparr>,
         o_json_path := Some ''race.json''\<rparr>)"
  by (simp add: sample_args_def bind_result_def apply_flag_def set_config_def)

lemma sample_main_runs: "\<exists>s. r_server (main sample_args sample_files sample_os sample_io []) = Some s"
  unfolding main_def sample_main_parses
  by (simp add: sample_files_def sample_os_def sample_io_def run_server_def
      fz_server_create_def default_options_def valid_config_def inet_pton_def random_id_def new_server_def Let_def
      case_prod_beta)

theorem server_log_exact_witness:
  "\<exists>es. k_stdout (r_sinks (main sample_args sample_files sample_os sample_io [])) = concat (map text_line es)"
  using server_log_exact [of sample_args sample_files sample_os sample_io "[]"] sample_main_runs by blast

theorem drain_exact_witness:
  "\<exists>r. snd (drain \<lparr>k_stdout = [], k_json = Some []\<rparr> sample_server) = sample_server\<lparr>s_ring := r\<rparr>
     \<and> ring_contents r = []"
  using drain_exact [OF sample_reachable, of "\<lparr>k_stdout = [], k_json = Some []\<rparr>"] by (auto simp: Let_def)

end
