(* ===== verification/Fz_Discovery.thy ===== *)
theory Fz_Discovery
  imports Fz_Server_Loop
begin

text \<open>
  The discovery of rooms on the local network (\<^verbatim>\<open>client/fzvs_session.hpp\<close> and \<open>Discovery\<close> in
  \<^verbatim>\<open>client/fzvs_session.cpp\<close>): a host answers the queries of browsers with a description of its
  room, a browser multicasts queries and keeps a list of the rooms that answered. What the
  operating system answers is the argument \<open>os\<close> of each operation; an address is a 32-bit number in
  host order; the datagrams sent so far are kept in \<open>ds_sent\<close>.
\<close>

section \<open>Data\<close>

record HostOptions =
  ho_bind :: string
  ho_key :: string
  ho_name :: string
  ho_logPath :: string
  ho_readyFile :: string
  ho_port :: u32
  ho_players :: u32
  ho_track :: u32
  ho_league :: u32

definition default_host :: HostOptions where
  "default_host = \<lparr>ho_bind = ''0.0.0.0'', ho_key = [], ho_name = [], ho_logPath = [], ho_readyFile = [],
     ho_port = 12000, ho_players = 2, ho_track = 0, ho_league = 0\<rparr>"

record Room =
  rm_session :: u64
  rm_seen :: u64
  rm_name :: string
  rm_address :: string
  rm_players :: nat
  rm_occupied :: nat
  rm_phase :: nat
  rm_track :: nat
  rm_league :: nat
  rm_version :: nat
  rm_password :: bool

datatype DiscoveryPhase = Idle | Searching | Empty | Rooms | Unavailable

record DiscoveryFailure =
  df_operation :: string
  df_interface :: string
  df_message :: string
  df_code :: int

record DiscoveryStatus =
  dt_phase :: DiscoveryPhase
  dt_failures :: "DiscoveryFailure list"
  dt_queries :: u64
  dt_replies :: u64

definition zero_discovery_status :: DiscoveryStatus where
  "zero_discovery_status = \<lparr>dt_phase = Idle, dt_failures = [], dt_queries = 0, dt_replies = 0\<rparr>"

record Discovery =
  ds_listener :: int
  ds_query :: int
  ds_responder :: int
  ds_lastQuery :: u64
  ds_nonce :: u64
  ds_networks :: "u32 list"
  ds_status :: DiscoveryStatus
  ds_hostFailures :: "DiscoveryFailure list"
  ds_browseFailures :: "DiscoveryFailure list"
  ds_browseStarted :: u64
  ds_lastListen :: u64
  ds_sent :: "(sockaddr_in \<times> bytes) list"

text \<open>One result of \<open>recvfrom\<close>: a datagram, nothing to read, or a failure with its \<open>errno\<close>.\<close>

datatype received = Received bytes sockaddr_in | Nothing_yet | Failed int

record discovery_os =
  do_networks :: "u32 list"
  do_udp :: int
  do_bind :: bool
  do_member :: "u32 \<Rightarrow> bool"
  do_responder :: int
  do_reply_bind :: bool
  do_options :: bool
  do_nonce :: u64
  do_interface :: "u32 \<Rightarrow> bool"
  do_query_sent :: "u32 \<Rightarrow> bool"
  do_reply_sent :: "sockaddr_in \<Rightarrow> bool"
  do_errno :: "string \<Rightarrow> int"
  do_strerror :: "int \<Rightarrow> string"
  do_recv :: "received list"

section \<open>Interfaces\<close>

text \<open>An entry of \<open>getifaddrs\<close>: its IPv4 address if it has one, and the two flags that are looked at.\<close>

record ifaddr =
  if_inet :: "u32 option"
  if_up :: bool
  if_pointopoint :: bool

text \<open>The number a little-endian machine sees in an address in network order.\<close>

definition s_addr :: "u32 \<Rightarrow> u32" where
  "s_addr a = push_bit 24 (a AND 255) OR push_bit 16 (drop_bit 8 a AND 255)
     OR push_bit 8 (drop_bit 16 a AND 255) OR (drop_bit 24 a AND 255)"

abbreviation (input) INADDR_LOOPBACK :: u32 where "INADDR_LOOPBACK \<equiv> 0x7F000001"

definition interfaces :: "ifaddr list option \<Rightarrow> u32 list" where
  "interfaces ifs =
     (let found = (case ifs of None \<Rightarrow> [] | Some l \<Rightarrow>
            concat (map (\<lambda>p. case if_inet p of None \<Rightarrow> []
              | Some a \<Rightarrow> if if_up p \<and> \<not> if_pointopoint p then [a] else []) l))
      in sort_key s_addr (remdups (found @ [INADDR_LOOPBACK])))"

section \<open>Failures and phases\<close>

definition add_failure ::
    "discovery_os \<Rightarrow> string \<Rightarrow> string \<Rightarrow> int \<Rightarrow> DiscoveryFailure list \<Rightarrow> DiscoveryFailure list" where
  "add_failure os op iface code errors =
     (if length errors < 16
      then errors @ [\<lparr>df_operation = op, df_interface = iface, df_message = do_strerror os code, df_code = code\<rparr>]
      else errors)"

definition host_failure :: "discovery_os \<Rightarrow> string \<Rightarrow> string \<Rightarrow> Discovery \<Rightarrow> Discovery" where
  "host_failure os op iface d =
     d\<lparr>ds_hostFailures := add_failure os op iface (do_errno os op) (ds_hostFailures d)\<rparr>"

definition browse_failure :: "discovery_os \<Rightarrow> string \<Rightarrow> string \<Rightarrow> Discovery \<Rightarrow> Discovery" where
  "browse_failure os op iface d =
     d\<lparr>ds_browseFailures := add_failure os op iface (do_errno os op) (ds_browseFailures d)\<rparr>"

definition new_discovery :: "discovery_os \<Rightarrow> Discovery" where
  "new_discovery os =
     \<lparr>ds_listener = - 1, ds_query = - 1, ds_responder = - 1, ds_lastQuery = 0, ds_nonce = 0,
      ds_networks = do_networks os, ds_status = zero_discovery_status, ds_hostFailures = [],
      ds_browseFailures = [], ds_browseStarted = 0, ds_lastListen = 0, ds_sent = []\<rparr>"

definition retry :: "discovery_os \<Rightarrow> Discovery \<Rightarrow> Discovery" where
  "retry os d = d\<lparr>ds_listener := - 1, ds_responder := - 1, ds_query := - 1,
     ds_networks := do_networks os, ds_lastQuery := 0, ds_lastListen := 0, ds_browseStarted := 0,
     ds_status := zero_discovery_status, ds_hostFailures := [], ds_browseFailures := []\<rparr>"

definition discovery_phase :: "bool \<Rightarrow> Room list \<Rightarrow> u64 \<Rightarrow> Discovery \<Rightarrow> DiscoveryPhase" where
  "discovery_phase browsing rooms t d =
     (if browsing
      then if rooms \<noteq> [] then Rooms
        else if ds_query d < 0 \<and> ds_browseFailures d \<noteq> [] then Unavailable
        else if t - ds_browseStarted d < 2000 then Searching else Empty
      else if ds_hostFailures d = [] then Idle else Unavailable)"

definition publish_discovery :: "bool \<Rightarrow> Room list \<Rightarrow> u64 \<Rightarrow> Discovery \<Rightarrow> Discovery" where
  "publish_discovery browsing rooms t d =
     d\<lparr>ds_status := (ds_status d)\<lparr>dt_failures := ds_hostFailures d @ ds_browseFailures d,
         dt_phase := discovery_phase browsing rooms t d\<rparr>\<rparr>"

section \<open>The host: listening and answering\<close>

definition join_groups :: "discovery_os \<Rightarrow> Discovery \<Rightarrow> bool \<times> Discovery" where
  "join_groups os d =
     fold (\<lambda>ip (joined, d). if do_member os ip then (True, d)
           else (joined, host_failure os ''IP_ADD_MEMBERSHIP'' (inet_ntoa ip) d))
       (ds_networks d) (False, d)"

text \<open>The result is whether the host is listening, the warning, and the new state.\<close>

definition listen :: "discovery_os \<Rightarrow> u64 \<Rightarrow> string \<Rightarrow> string \<Rightarrow> Discovery \<Rightarrow> bool \<times> string \<times> Discovery" where
  "listen os now error bindAddress d =
     (if ds_listener d \<ge> 0 then (True, error, d)
      else let d = d\<lparr>ds_networks := do_networks os, ds_hostFailures := [], ds_lastListen := now,
                     ds_listener := do_udp os\<rparr>
        in if do_udp os < 0
           then (False, ''LAN discovery socket unavailable; direct address still works'',
                 host_failure os ''socket'' ''discovery listener'' d)
           else if \<not> do_bind os
           then (False, ''LAN discovery port unavailable; direct address still works'',
                 (host_failure os ''bind'' ''0.0.0.0:12001'' d)\<lparr>ds_listener := - 1\<rparr>)
           else let (joined, d) = join_groups os d
             in if \<not> joined
                then (False, ''LAN multicast unavailable; direct address still works'', d\<lparr>ds_listener := - 1\<rparr>)
                else let d = d\<lparr>ds_responder := do_responder os\<rparr>
                  in if do_responder os < 0 \<or> \<not> do_reply_bind os
                     then (False, ''LAN reply socket unavailable; direct address still works'',
                           (host_failure os ''bind reply socket'' bindAddress d)
                             \<lparr>ds_responder := - 1, ds_listener := - 1\<rparr>)
                     else (True, error, d))"

definition FZVD :: bytes where "FZVD = [0x46, 0x5A, 0x56, 0x44]"

abbreviation (input) byte_of :: "char \<Rightarrow> u8" where "byte_of c \<equiv> of_nat (of_char c)"

definition printable :: "u8 \<Rightarrow> bool" where
  "printable b \<longleftrightarrow> 32 \<le> b \<and> b < 127"

definition shown_byte :: "u8 \<Rightarrow> u8" where
  "shown_byte b = (if printable b then b else 63)"

definition reply_name :: "string \<Rightarrow> bytes" where
  "reply_name name =
     (let shown = map (\<lambda>c. shown_byte (byte_of c)) (take 63 name)
      in shown @ replicate (64 - length shown) 0)"

definition reply_bytes :: "fz_server_status \<Rightarrow> HostOptions \<Rightarrow> bytes \<Rightarrow> bytes" where
  "reply_bytes st host q =
     FZVD @ [1, 2, FZ_VERSION, 0] @ take 8 (drop 8 q) @ fz_put64 (st_session st)
       @ fz_put16 (of_nat (st_port st))
       @ [of_nat (st_phase st), of_nat (st_occupied st), of_nat (st_players st), of_nat (st_track st),
          of_nat (st_league st), of_bool (ho_key host \<noteq> [])]
       @ reply_name (ho_name host)"

definition valid_query :: "bytes \<Rightarrow> bool" where
  "valid_query b \<longleftrightarrow> length b = 16 \<and> take 4 b = FZVD \<and> b ! 4 = 1 \<and> b ! 5 = 1"

definition answers :: "fz_server_status \<Rightarrow> HostOptions \<Rightarrow> bytes \<Rightarrow> sockaddr_in \<Rightarrow> bool" where
  "answers st host b peer \<longleftrightarrow>
     \<not> (\<not> valid_query b \<or> \<not> st_owner_joined st \<or> st_closed st)
     \<and> \<not> (take 4 (ho_bind host) = ''127.'' \<and> drop_bit 24 (sin_addr peer) \<noteq> 127)"

definition send_reply :: "discovery_os \<Rightarrow> sockaddr_in \<Rightarrow> bytes \<Rightarrow> Discovery \<Rightarrow> Discovery" where
  "send_reply os peer reply d =
     (let d = d\<lparr>ds_sent := ds_sent d @ [(peer, reply)]\<rparr>
      in if do_reply_sent os peer then d else host_failure os ''send reply'' (inet_ntoa (sin_addr peer)) d)"

fun advertise_loop :: "discovery_os \<Rightarrow> fz_server_status \<Rightarrow> HostOptions \<Rightarrow> nat \<Rightarrow> received list \<Rightarrow> Discovery \<Rightarrow> Discovery" where
  "advertise_loop os st host (Suc n) (Received b peer # rs) d =
     (let b = take 257 b;
          d = (if answers st host b peer then send_reply os peer (reply_bytes st host b) d else d)
      in advertise_loop os st host n rs d)"
| "advertise_loop os st host n rs d = d"

definition advertise :: "discovery_os \<Rightarrow> fz_server_status \<Rightarrow> HostOptions \<Rightarrow> Discovery \<Rightarrow> Discovery" where
  "advertise os st host d =
     (if ds_listener d < 0 then d else advertise_loop os st host 32 (do_recv os) d)"

section \<open>The browser: querying and listing rooms\<close>

definition query_bytes :: "u64 \<Rightarrow> bytes" where
  "query_bytes nonce = FZVD @ [1, 1, FZ_VERSION, 0] @ fz_put64 nonce"

definition multicast :: sockaddr_in where
  "multicast = \<lparr>sin_addr = 0xEFFF465A, sin_port = 12001\<rparr>"

text \<open>Opening the query socket; \<open>False\<close> when \<open>scan\<close> returns from it.\<close>

definition open_query :: "discovery_os \<Rightarrow> u64 \<Rightarrow> Discovery \<Rightarrow> bool \<times> Discovery" where
  "open_query os now d =
     (let d = d\<lparr>ds_networks := do_networks os, ds_browseFailures := [], ds_lastQuery := now,
                ds_query := do_udp os, ds_nonce := do_nonce os\<rparr>
      in if do_udp os < 0 then (False, browse_failure os ''socket'' ''discovery browser'' d)
         else if \<not> do_bind os
         then (False, (browse_failure os ''bind'' ''browser ephemeral port'' d)\<lparr>ds_query := - 1\<rparr>)
         else if do_nonce os = 0
         then (False, d\<lparr>ds_browseFailures := add_failure os ''random nonce'' ''browser'' 5 (ds_browseFailures d),
                        ds_query := - 1\<rparr>)
         else if \<not> do_options os
         then (False, (browse_failure os ''multicast options'' ''browser'' d)\<lparr>ds_query := - 1\<rparr>)
         else (True, d\<lparr>ds_lastQuery := 0\<rparr>))"

definition query_on :: "discovery_os \<Rightarrow> u32 \<Rightarrow> bool \<times> Discovery \<Rightarrow> bool \<times> Discovery" where
  "query_on os ip p =
     (case p of (sent, d) \<Rightarrow>
        if \<not> do_interface os ip then (sent, browse_failure os ''IP_MULTICAST_IF'' (inet_ntoa ip) d)
        else let d = d\<lparr>ds_sent := ds_sent d @ [(multicast, query_bytes (ds_nonce d))]\<rparr>
          in if do_query_sent os ip
             then (True, d\<lparr>ds_status := (ds_status d)\<lparr>dt_queries := dt_queries (ds_status d) + 1\<rparr>\<rparr>)
             else (sent, browse_failure os ''send query'' (inet_ntoa ip) d))"

abbreviation (input) ENETUNREACH :: int where "ENETUNREACH \<equiv> 101"

definition send_query :: "discovery_os \<Rightarrow> u64 \<Rightarrow> Discovery \<Rightarrow> string \<times> Discovery" where
  "send_query os now d =
     (let d = d\<lparr>ds_networks := do_networks os, ds_browseFailures := []\<rparr>;
          (sent, d) = fold (query_on os) (ds_networks d) (False, d);
          d = (if \<not> sent \<and> ds_browseFailures d = []
               then d\<lparr>ds_browseFailures :=
                 add_failure os ''enumerate interfaces'' ''IPv4'' ENETUNREACH (ds_browseFailures d)\<rparr>
               else d)
      in if \<not> sent
         then (''Nearby games unavailable. Enter a host address or retry.'', d\<lparr>ds_query := - 1, ds_lastQuery := now\<rparr>)
         else ([], d\<lparr>ds_lastQuery := now\<rparr>))"

definition valid_reply :: "u64 \<Rightarrow> bytes \<Rightarrow> bool" where
  "valid_reply nonce b \<longleftrightarrow>
     \<not> (length b \<noteq> 96 \<or> take 4 b \<noteq> FZVD \<or> b ! 4 \<noteq> 1 \<or> b ! 5 \<noteq> 2 \<or> fz_u64 (drop 8 b) \<noteq> nonce
       \<or> fz_u64 (drop 16 b) = 0 \<or> fz_u16 (drop 24 b) = 0 \<or> fz_u16 (drop 24 b) = 12001
       \<or> b ! 26 > FZ_RESULTS \<or> b ! 27 > 4 \<or> b ! 28 < 2 \<or> b ! 28 > 4 \<or> b ! 29 > 4 \<or> b ! 30 > 2
       \<or> b ! 31 > 1)"

definition room_name :: "bytes \<Rightarrow> string" where
  "room_name b = map (\<lambda>x. char_of (unat (shown_byte x))) (takeWhile (\<lambda>x. x \<noteq> 0) (drop 32 b))"

definition room_of :: "u64 \<Rightarrow> bytes \<Rightarrow> sockaddr_in \<Rightarrow> Room" where
  "room_of now b src =
     \<lparr>rm_session = fz_u64 (drop 16 b), rm_seen = now, rm_name = room_name b,
      rm_address = inet_ntoa (sin_addr src) @ '':'' @ fmt_u (unat (fz_u16 (drop 24 b))),
      rm_players = unat (b ! 28), rm_occupied = unat (b ! 27), rm_phase = unat (b ! 26),
      rm_track = unat (b ! 29), rm_league = unat (b ! 30), rm_version = unat (b ! 6),
      rm_password = (b ! 31 \<noteq> 0)\<rparr>"

text \<open>\<open>*old=r\<close> for the first room of the same session, else \<open>push_back\<close> below the limit.\<close>

fun replace_room :: "Room \<Rightarrow> Room list \<Rightarrow> Room list option" where
  "replace_room r [] = None"
| "replace_room r (x # xs) =
     (if rm_session x = rm_session r then Some (r # xs) else map_option ((#) x) (replace_room r xs))"

definition add_room :: "Room \<Rightarrow> Room list \<Rightarrow> Room list" where
  "add_room r rooms =
     (case replace_room r rooms of Some rooms' \<Rightarrow> rooms'
      | None \<Rightarrow> if length rooms < 64 then rooms @ [r] else rooms)"

fun collect :: "discovery_os \<Rightarrow> u64 \<Rightarrow> nat \<Rightarrow> received list \<Rightarrow> Room list \<Rightarrow> Discovery \<Rightarrow> Room list \<times> Discovery" where
  "collect os now (Suc n) (Received b src # rs) rooms d =
     (let b = take 257 b in
      if valid_reply (ds_nonce d) b
      then collect os now n rs (add_room (room_of now b src) rooms)
             (d\<lparr>ds_status := (ds_status d)\<lparr>dt_replies := dt_replies (ds_status d) + 1\<rparr>\<rparr>)
      else collect os now n rs rooms d)"
| "collect os now (Suc n) (Failed code # rs) rooms d =
     (rooms, d\<lparr>ds_browseFailures := add_failure os ''receive reply'' ''browser'' code (ds_browseFailures d),
               ds_query := - 1\<rparr>)"
| "collect os now n rs rooms d = (rooms, d)"

definition unexpired :: "u64 \<Rightarrow> Room \<Rightarrow> bool" where
  "unexpired now r \<longleftrightarrow> \<not> now - rm_seen r > 6000"

text \<open>The rest of \<open>scan\<close> once there is a query socket. A closed one has nothing to receive.\<close>

definition scan_open :: "discovery_os \<Rightarrow> u64 \<Rightarrow> Room list \<Rightarrow> string \<Rightarrow> Discovery \<Rightarrow> Room list \<times> string \<times> Discovery" where
  "scan_open os now rooms warning d =
     (let (warning, d) = (if now - ds_lastQuery d \<ge> 2000 then send_query os now d else (warning, d));
          (rooms, d) = collect os now 64 (if ds_query d < 0 then [] else do_recv os) rooms d
      in (filter (unexpired now) rooms, warning, d))"

definition scan :: "discovery_os \<Rightarrow> u64 \<Rightarrow> Room list \<Rightarrow> string \<Rightarrow> Discovery \<Rightarrow> Room list \<times> string \<times> Discovery" where
  "scan os now rooms warning d =
     (let d = (if ds_browseStarted d = 0 then d\<lparr>ds_browseStarted := now\<rparr> else d)
      in if ds_query d < 0 \<and> now - ds_lastQuery d < 2000 then (rooms, warning, d)
         else if ds_query d < 0
         then case open_query os now d of
                (True, d) \<Rightarrow> scan_open os now rooms warning d
              | (False, d) \<Rightarrow> (rooms, warning, d)
         else scan_open os now rooms warning d)"

end
