(* ===== verification/Fz_Resolve.thy ===== *)
theory Fz_Resolve
  imports Fz_Text
begin

text \<open>
  Reading the address a player enters and looking it up (\<open>resolve\<close> in
  \<^verbatim>\<open>client/fzvs_session.cpp\<close>). The lookup runs in a thread of its own that shares only its result
  with the session; the answer of \<open>getaddrinfo\<close> is an argument of the step that finishes it.
\<close>

section \<open>The address\<close>

definition blank :: "char \<Rightarrow> bool" where
  "blank c \<longleftrightarrow> c \<in> {CHR '' '', CHR 0x09, CHR 0x0D, CHR 0x0A}"

definition trim :: "string \<Rightarrow> string" where
  "trim cs = rev (dropWhile blank (rev (dropWhile blank cs)))"

definition before_last_colon :: "string \<Rightarrow> string" where
  "before_last_colon cs = rev (tl (dropWhile (\<lambda>c. c \<noteq> CHR '':'') (rev cs)))"

definition after_last_colon :: "string \<Rightarrow> string" where
  "after_last_colon cs = rev (takeWhile (\<lambda>c. c \<noteq> CHR '':'') (rev cs))"

definition bad_port :: "string \<Rightarrow> bool" where
  "bad_port p \<longleftrightarrow> length p > 5 \<or> \<not> list_all is_digit p \<or> digits_value p = 0 \<or> digits_value p > 65535
     \<or> digits_value p = 12001"

text \<open>The host and the port to look up, or the error shown.\<close>

definition lookup_target :: "string \<Rightarrow> string + string \<times> string" where
  "lookup_target address =
     (if list_all blank address then Inl ''Enter a host address''
      else let address = trim address;
               address = (if CHR '':'' \<notin> set address then address @ '':12000'' else address);
               host = before_last_colon address; port = after_last_colon address
        in if host = [] \<or> port = [] then Inl ''Enter a hostname or IPv4 address followed by :port''
           else if bad_port port then Inl ''Invalid game port (12001 is reserved for discovery)''
           else Inr (host, port))"

section \<open>The lookup\<close>

record Resolution =
  rs_done :: bool
  rs_address :: string
  rs_error :: string

text \<open>
  \<open>resolvers\<close> is the number of lookups that still run, \<open>thread\<close> the error if none can be started.
  The result is the shared result, the new number, and what the thread looks up.
\<close>

definition resolve :: "string \<Rightarrow> nat \<Rightarrow> string option \<Rightarrow> Resolution \<times> nat \<times> (string \<times> string) option" where
  "resolve address resolvers thread =
     (let failed = (\<lambda>e. \<lparr>rs_done = True, rs_address = [], rs_error = e\<rparr>)
      in case lookup_target address of
           Inl e \<Rightarrow> (failed e, resolvers, None)
         | Inr target \<Rightarrow>
             if resolvers \<ge> 4
             then (failed ''Previous DNS requests are still finishing; retry shortly'', resolvers, None)
             else case thread of
                 Some e \<Rightarrow> (failed (''Cannot start DNS resolver: '' @ e), resolvers, None)
               | None \<Rightarrow> (\<lparr>rs_done = False, rs_address = [], rs_error = []\<rparr>, resolvers + 1, Some target))"

text \<open>The end of the thread: the text of the error, or the first address found.\<close>

definition resolved :: "string \<Rightarrow> string + string \<Rightarrow> Resolution \<Rightarrow> Resolution" where
  "resolved port result r =
     (case result of
        Inl e \<Rightarrow> r\<lparr>rs_error := ''Cannot resolve server: '' @ e, rs_done := True\<rparr>
      | Inr ip \<Rightarrow> r\<lparr>rs_address := ip @ '':'' @ port, rs_done := True\<rparr>)"

section \<open>The address is read as its grammar says\<close>

lemma last_colon_split:
  assumes "CHR '':'' \<notin> set p"
  shows "before_last_colon (h @ CHR '':'' # p) = h" "after_last_colon (h @ CHR '':'' # p) = p"
proof -
  have "dropWhile (\<lambda>c. c \<noteq> CHR '':'') (rev p @ CHR '':'' # rev h) = CHR '':'' # rev h"
    using assms by (subst dropWhile_append2) auto
  moreover have "takeWhile (\<lambda>c. c \<noteq> CHR '':'') (rev p @ CHR '':'' # rev h) = rev p"
    using assms by (subst takeWhile_append2) auto
  ultimately show "before_last_colon (h @ CHR '':'' # p) = h" "after_last_colon (h @ CHR '':'' # p) = p"
    by (simp_all add: before_last_colon_def after_last_colon_def)
qed

lemma last_colon_join:
  assumes "CHR '':'' \<in> set a"
  shows "a = before_last_colon a @ CHR '':'' # after_last_colon a" "CHR '':'' \<notin> set (after_last_colon a)"
proof -
  let ?P = "\<lambda>c. c \<noteq> CHR '':''"
  have "rev a = takeWhile ?P (rev a) @ dropWhile ?P (rev a)" by simp
  moreover have "dropWhile ?P (rev a) \<noteq> []" using assms by auto
  moreover from this have "hd (dropWhile ?P (rev a)) = CHR '':''" using hd_dropWhile by blast
  ultimately have "rev a = takeWhile ?P (rev a) @ CHR '':'' # tl (dropWhile ?P (rev a))"
    by (metis list.collapse)
  then have "a = rev (takeWhile ?P (rev a) @ CHR '':'' # tl (dropWhile ?P (rev a)))"
    by (metis rev_rev_ident)
  then show "a = before_last_colon a @ CHR '':'' # after_last_colon a"
    by (simp add: before_last_colon_def after_last_colon_def)
  show "CHR '':'' \<notin> set (after_last_colon a)"
    by (auto simp: after_last_colon_def dest: set_takeWhileD)
qed

lemma digits_no_colon: "list_all is_digit p \<Longrightarrow> CHR '':'' \<notin> set p"
  by (auto simp: list_all_iff is_digit_def)

lemma trim_Nil: "trim cs = [] \<longleftrightarrow> list_all blank cs"
proof -
  have "dropWhile blank cs = [] \<or> \<not> blank (hd (dropWhile blank cs))" using hd_dropWhile by blast
  then have "(\<forall>c\<in>set (dropWhile blank cs). blank c) \<longleftrightarrow> dropWhile blank cs = []"
    by (metis hd_in_set list.set(1) empty_iff)
  then show ?thesis by (simp add: trim_def list_all_iff)
qed

lemma lookup_target_iff:
  "lookup_target address = Inr (host, port) \<longleftrightarrow>
     (trim address = host \<and> CHR '':'' \<notin> set host \<and> port = ''12000''
      \<or> trim address = host @ '':'' @ port)
     \<and> host \<noteq> [] \<and> port \<noteq> [] \<and> \<not> bad_port port"
proof -
  have d: "\<not> bad_port ''12000''" "CHR '':'' \<notin> set ''12000''"
    by (simp_all add: bad_port_def is_digit_def digits_value_def)
  have nc: "CHR '':'' \<notin> set p" if "\<not> bad_port p" for p
    using that digits_no_colon by (auto simp: bad_port_def)
  let ?a = "trim address"
  show ?thesis
  proof (cases "CHR '':'' \<in> set ?a")
    case True
    then show ?thesis
      using last_colon_join [OF True] last_colon_split [OF nc, of port host] trim_Nil [of address]
      unfolding lookup_target_def Let_def by auto
  next
    case False
    then show ?thesis
      using last_colon_split [OF d(2), of ?a] d trim_Nil [of address]
      unfolding lookup_target_def Let_def by auto
  qed
qed

lemma digits_value_nonneg: "list_all is_digit cs \<Longrightarrow> 0 \<le> digits_value cs"
proof (induction cs rule: rev_induct)
  case (snoc c cs)
  then have "48 \<le> (of_char c :: nat)" by (simp add: is_digit_def Let_def)
  then have "48 \<le> (of_char c :: int)" by (metis of_nat_le_iff of_nat_numeral of_nat_of_char)
  with snoc show ?case by (simp add: digits_value_snoc)
qed (simp add: digits_value_def)

lemma good_port:
  "\<not> bad_port p \<longleftrightarrow> length p \<le> 5 \<and> list_all is_digit p \<and> digits_value p \<in> {1..65535} - {12001}"
  using digits_value_nonneg [of p] by (auto simp: bad_port_def)

text \<open>
  C19. The address entry reads exactly its grammar: after surrounding blanks are dropped, a host
  name alone stands for port 12000, and a host name, a colon and a port stand for themselves when
  the port is a number of at most five digits from 1 to 65535 other than the discovery port.
  Everything else is refused with a message.
\<close>

theorem resolve_exact:
  "lookup_target address = Inr (host, port) \<longleftrightarrow>
     (trim address = host \<and> CHR '':'' \<notin> set host \<and> port = ''12000''
      \<or> trim address = host @ '':'' @ port)
     \<and> host \<noteq> [] \<and> port \<noteq> [] \<and> length port \<le> 5 \<and> list_all is_digit port
     \<and> digits_value port \<in> {1..65535} - {12001}"
  unfolding lookup_target_iff good_port by blast

end
