(* ===== verification/Fz_Session.thy ===== *)
theory Fz_Session
  imports Fz_Discovery Fz_Resolve
begin

text \<open>
  The session of a client (\<^verbatim>\<open>client/fzvs_session.cpp\<close>, class \<open>Session\<close>): the calls of the front
  end, which share a mutex with a worker thread, and the worker, which owns the hosted server, the
  discovery sockets and the lookup of addresses. The data under the mutex is the record \<open>Session\<close>,
  the worker's own is \<open>Worker\<close>. The body of the worker's loop is cut where it takes the mutex or
  reads an atomic flag, and each piece is one function; what happens inside a piece is invisible
  to the other threads.
\<close>

section \<open>Data\<close>

definition zero_status :: fz_server_status where
  "zero_status =
     \<lparr>st_session = 0, st_rx = 0, st_tx = 0, st_rejected = 0, st_stale = 0, st_dropped_events = 0,
      st_race = 0, st_port = 0, st_phase = 0, st_players = 0, st_occupied = 0, st_host = 0,
      st_track = 0, st_league = 0, st_owner_joined = False, st_closed = False,
      st_peers = replicate 4 \<lparr>sp_status = 0, sp_car = 0, sp_rtt_ms = 0, sp_jitter_ms = 0,
        sp_movement_packets = 0, sp_movement_bytes = 0, sp_age_ms = 0\<rparr>\<rparr>"

record Connection =
  cn_address :: string
  cn_key :: string
  cn_ownerNonce :: u64
  cn_generation :: u64

record SessionView =
  sv_state :: string
  sv_message :: string
  sv_discoveryWarning :: string
  sv_addresses :: string
  sv_discovery :: DiscoveryStatus
  sv_hosting :: bool
  sv_generation :: u64
  sv_server :: fz_server_status
  sv_rooms :: "Room list"
  sv_events :: "fz_server_event list"

definition zero_view :: SessionView where
  "zero_view = \<lparr>sv_state = ''idle'', sv_message = [], sv_discoveryWarning = [], sv_addresses = [],
     sv_discovery = zero_discovery_status, sv_hosting = False, sv_generation = 0,
     sv_server = zero_status, sv_rooms = [], sv_events = []\<rparr>"

record Command =
  cm_type :: int
  cm_host :: HostOptions
  cm_address :: string
  cm_key :: string
  cm_generation :: u64

text \<open>\<open>ss_worker\<close> is \<open>worker.joinable()\<close>.\<close>

record Session =
  ss_commands :: "Command list"
  ss_connection :: "Connection option"
  ss_published :: SessionView
  ss_worker :: bool
  ss_quitting :: bool
  ss_browsing :: bool
  ss_discoveryRetry :: bool
  ss_generation :: u64

definition zero_session :: Session where
  "zero_session = \<lparr>ss_commands = [], ss_connection = None, ss_published = zero_view,
     ss_worker = False, ss_quitting = False, ss_browsing = False, ss_discoveryRetry = False,
     ss_generation = 0\<rparr>"

text \<open>
  \<open>wk_resolution\<close> names the shared result of the lookup the worker waits for, \<open>wk_log\<close> is what it
  wrote to the open host log, \<open>wk_stdout\<close> and \<open>wk_stderr\<close> what it wrote to the terminal.
\<close>

record Worker =
  wk_server :: "Server option"
  wk_options :: HostOptions
  wk_state :: SessionView
  wk_discovery :: Discovery
  wk_resolution :: "nat option"
  wk_joinKey :: string
  wk_operation :: u64
  wk_started :: u64
  wk_lastPublish :: u64
  wk_ready :: bool
  wk_ownsReadyFile :: bool
  wk_log :: "string option"
  wk_lastFailure :: string
  wk_lastDiscoveryReport :: string
  wk_stdout :: string
  wk_stderr :: string

text \<open>The results the lookup threads share with the worker, the threads that run, and the next name.\<close>

record Lookups =
  lk_results :: "nat \<Rightarrow> Resolution"
  lk_running :: "(nat \<times> string \<times> string) list"
  lk_next :: nat

text \<open>The answers of the operating system to one piece of the worker's loop.\<close>

record session_os =
  so_clock :: "nat \<Rightarrow> u64"
  so_nonce :: u64
  so_setup :: os_setup
  so_io :: io
  so_log_ok :: bool
  so_thread :: "string option"
  so_poll :: poll_env
  so_ready_open :: bool
  so_ready_written :: bool
  so_discovery :: discovery_os

definition set_view :: "(SessionView \<Rightarrow> SessionView) \<Rightarrow> Worker \<Rightarrow> Worker" where
  "set_view f k = k\<lparr>wk_state := f (wk_state k)\<rparr>"

section \<open>The calls of the front end\<close>

text \<open>\<open>thread\<close> is the error of a thread that cannot be started. The new worker starts on its own.\<close>

definition start :: "string option \<Rightarrow> Session \<Rightarrow> Session" where
  "start thread s =
     (if ss_worker s then s
      else let s = s\<lparr>ss_quitting := False\<rparr>
        in case thread of
             None \<Rightarrow> s\<lparr>ss_worker := True\<rparr>
           | Some e \<Rightarrow> s\<lparr>ss_published := (ss_published s)\<lparr>sv_state := ''error'',
               sv_message := ''Cannot start session worker: '' @ e\<rparr>\<rparr>)"

text \<open>
  Every call below but \<open>connected\<close> and \<open>takeConnection\<close> begins with \<open>start\<close>, which takes the mutex for
  itself and is a step of its own: the worker may run before the rest of the call.
\<close>

definition enqueue :: "Command \<Rightarrow> Session \<Rightarrow> bool \<times> Session" where
  "enqueue c s =
     (if \<not> ss_worker s then (False, s)
      else if cm_type c \<noteq> 0 \<and> length (ss_commands s) \<ge> 8 then (False, s)
      else let queue = (if cm_type c = 0 then [] else ss_commands s);
               generation = ss_generation s + 1;
               c = c\<lparr>cm_generation := generation\<rparr>
        in (True, s\<lparr>ss_generation := generation,
              ss_published := (ss_published s)\<lparr>
                sv_state := (if cm_type c = 0 then ''stopping'' else ''starting''),
                sv_message := [], sv_generation := generation\<rparr>,
              ss_commands := queue @ [c], ss_connection := None\<rparr>))"

definition host :: "HostOptions \<Rightarrow> Session \<Rightarrow> bool \<times> Session" where
  "host h = enqueue \<lparr>cm_type = 1, cm_host = h, cm_address = [], cm_key = [], cm_generation = 0\<rparr>"

definition join :: "string \<Rightarrow> string \<Rightarrow> Session \<Rightarrow> bool \<times> Session" where
  "join address key =
     enqueue \<lparr>cm_type = 2, cm_host = default_host, cm_address = address, cm_key = key, cm_generation = 0\<rparr>"

definition stop :: "Session \<Rightarrow> bool \<times> Session" where
  "stop = enqueue \<lparr>cm_type = 0, cm_host = default_host, cm_address = [], cm_key = [], cm_generation = 0\<rparr>"

definition browse :: "bool \<Rightarrow> Session \<Rightarrow> Session" where
  "browse enabled s = s\<lparr>ss_browsing := enabled\<rparr>"

definition retryDiscovery :: "Session \<Rightarrow> Session" where
  "retryDiscovery s = s\<lparr>ss_discoveryRetry := True\<rparr>"

definition connected :: "Session \<Rightarrow> Session" where
  "connected s =
     (if sv_state (ss_published s) = ''connecting''
      then s\<lparr>ss_published := (ss_published s)\<lparr>sv_state := ''connected''\<rparr>\<rparr> else s)"

definition takeConnection :: "Session \<Rightarrow> Connection option \<times> Session" where
  "takeConnection s =
     ((case ss_connection s of None \<Rightarrow> None
       | Some c \<Rightarrow> if cn_generation c \<noteq> ss_generation s then None else Some c),
      s\<lparr>ss_connection := None\<rparr>)"

definition Session_view :: "Session \<Rightarrow> SessionView" where
  "Session_view s = ss_published s"

text \<open>\<open>shutdown\<close> asks the worker to end, and once it has ended joins it.\<close>

definition shutdown_ask :: "Session \<Rightarrow> Session" where
  "shutdown_ask s = s\<lparr>ss_quitting := True\<rparr>"

definition shutdown_join :: "Session \<Rightarrow> Session" where
  "shutdown_join s = s\<lparr>ss_worker := False\<rparr>"

section \<open>Events and stopping\<close>

definition push_event :: "fz_server_event \<Rightarrow> Worker \<Rightarrow> Worker" where
  "push_event e = set_view (\<lambda>v. v\<lparr>sv_events :=
     (if length (sv_events v) = 512 then tl (sv_events v) else sv_events v) @ [e]\<rparr>)"

definition event_line :: "string \<Rightarrow> fz_server_event \<Rightarrow> string" where
  "event_line tag e =
     fmt_u (unat (e_time_us e)) @ tag @ [''WARN'', ''INFO'', ''DEBUG'', ''TRACE''] ! nat (e_level e)
       @ '' race='' @ fmt_u (unat (e_race e)) @ '' player='' @ fmt_d (e_player e + 1) @ '' ''
       @ cstr (e_message e) @ [CHR 0x0A]"

definition note_event :: "fz_server_event \<Rightarrow> Worker \<Rightarrow> Worker" where
  "note_event e k =
     (let k = push_event e k;
          k = (if e_level e \<le> 2 then k\<lparr>wk_stdout := wk_stdout k @ event_line '' HOST '' e\<rparr> else k)
      in k\<lparr>wk_log := map_option (\<lambda>l. l @ event_line '' '' e) (wk_log k)\<rparr>)"

definition drain_session :: "Worker \<Rightarrow> Worker" where
  "drain_session k =
     (case wk_server k of None \<Rightarrow> k
      | Some s \<Rightarrow> let (es, r) = drain_events (s_ring s)
          in (fold note_event es k)\<lparr>wk_server := Some (s\<lparr>s_ring := r\<rparr>)\<rparr>)"

definition stopServer :: "Worker \<Rightarrow> Worker" where
  "stopServer k =
     (let k = (case wk_server k of None \<Rightarrow> k
               | Some s \<Rightarrow> (drain_session (k\<lparr>wk_server := Some (fz_server_close s)\<rparr>))\<lparr>wk_server := None\<rparr>);
          k = k\<lparr>wk_log := None, wk_ownsReadyFile := False,
                wk_discovery := (wk_discovery k)\<lparr>ds_listener := - 1, ds_responder := - 1\<rparr>,
                wk_resolution := None, wk_ready := False\<rparr>
      in set_view (\<lambda>v. v\<lparr>sv_hosting := False, sv_server := zero_status\<rparr>) k)"

definition set_state :: "string \<Rightarrow> Worker \<Rightarrow> Worker" where
  "set_state st = set_view (\<lambda>v. v\<lparr>sv_state := st\<rparr>)"

definition set_message :: "string \<Rightarrow> Worker \<Rightarrow> Worker" where
  "set_message m = set_view (\<lambda>v. v\<lparr>sv_message := m\<rparr>)"

definition fail :: "string \<Rightarrow> Worker \<Rightarrow> Worker" where
  "fail m k = set_state ''error'' (stopServer (set_message m k))"

section \<open>The worker\<close>

definition new_worker :: "session_os \<Rightarrow> Session \<Rightarrow> Worker" where
  "new_worker os s =
     \<lparr>wk_server = None, wk_options = default_host,
      wk_state = zero_view\<lparr>sv_events := sv_events (ss_published s)\<rparr>,
      wk_discovery = new_discovery (so_discovery os), wk_resolution = None, wk_joinKey = [],
      wk_operation = 0, wk_started = 0, wk_lastPublish = 0, wk_ready = False,
      wk_ownsReadyFile = False, wk_log = None, wk_lastFailure = [], wk_lastDiscoveryReport = [],
      wk_stdout = [], wk_stderr = []\<rparr>"

definition take_commands :: "Session \<Rightarrow> Command list \<times> Session" where
  "take_commands s = (ss_commands s, s\<lparr>ss_commands := []\<rparr>)"

definition take_retry :: "session_os \<Rightarrow> Session \<Rightarrow> Worker \<Rightarrow> Session \<times> Worker" where
  "take_retry os s k =
     (s\<lparr>ss_discoveryRetry := False\<rparr>,
      if ss_discoveryRetry s
      then set_view (\<lambda>v. v\<lparr>sv_discoveryWarning := [], sv_rooms := []\<rparr>)
             (k\<lparr>wk_discovery := retry (so_discovery os) (wk_discovery k)\<rparr>)
      else k)"

text \<open>The addresses shown to the host, and the one its own client connects to.\<close>

definition shown_addresses :: "HostOptions \<Rightarrow> u32 list \<Rightarrow> string" where
  "shown_addresses h networks =
     (let port = fmt_u (unat (ho_port h));
          all = (ho_bind h = ''0.0.0.0'');
          found = concat (map (\<lambda>ip. if ip \<noteq> INADDR_LOOPBACK \<and> (all \<or> ho_bind h = inet_ntoa ip)
            then inet_ntoa ip @ '':'' @ port @ [CHR 0x0A] else []) networks)
      in if all then found @ ''127.0.0.1:'' @ port
         else if found = [] then ho_bind h @ '':'' @ port else found)"

definition own_address :: "HostOptions \<Rightarrow> string" where
  "own_address h =
     (if ho_bind h = ''0.0.0.0'' then ''127.0.0.1'' else ho_bind h) @ '':'' @ fmt_u (unat (ho_port h))"

definition host_config :: "HostOptions \<Rightarrow> u64 \<Rightarrow> fz_server_config" where
  "host_config h nonce =
     \<lparr>c_bind_address = Some (cstr (ho_bind h)), c_room_key = Some (map byte_of (cstr (ho_key h))),
      c_port = ho_port h, c_players = ho_players h, c_track = ho_track h, c_league = ho_league h,
      c_log_level = 3, c_trace_player = - 1, c_owner_nonce = nonce\<rparr>"

definition offer :: "Connection \<Rightarrow> Worker \<Rightarrow> Session \<Rightarrow> Session" where
  "offer c k s = (if wk_operation k = ss_generation s then s\<lparr>ss_connection := Some c\<rparr> else s)"

definition start_host :: "session_os \<Rightarrow> HostOptions \<Rightarrow> Session \<Rightarrow> Worker \<Rightarrow> Session \<times> Worker" where
  "start_host os h s k =
     (let k = set_state ''starting'' (k\<lparr>wk_options := h\<rparr>); nonce = so_nonce os
      in if nonce = 0 then (s, set_state ''error'' (set_message ''Cannot create host identity'' k))
         else let named = (if ho_name h = [] then h\<lparr>ho_name := ''F-Zero VS''\<rparr> else h);
                  k = k\<lparr>wk_options := named\<rparr>
           in if length (ho_name named) > 63
              then (s, set_state ''error'' (set_message ''Room name must be at most 63 bytes'' k))
              else case fz_server_create (Some (host_config h nonce)) 256 (so_setup os) (so_io os) of
                Inl message \<Rightarrow> (s, set_state ''error'' (set_message (the message) k))
              | Inr server \<Rightarrow>
                  let k = k\<lparr>wk_server := Some server\<rparr>
                  in if ho_logPath h \<noteq> [] \<and> \<not> so_log_ok os then (s, fail ''Cannot open host log file'' k)
                     else let k = k\<lparr>wk_log := (if ho_logPath h \<noteq> [] then Some [] else None),
                                    wk_started := so_clock os 0\<rparr>;
                              k = set_view (\<lambda>v. v\<lparr>sv_hosting := True,
                                sv_addresses := shown_addresses h (ds_networks (wk_discovery k))\<rparr>) k
                       in (offer \<lparr>cn_address = own_address h, cn_key = ho_key h, cn_ownerNonce = nonce,
                             cn_generation = wk_operation k\<rparr> k s, k))"

definition start_join :: "session_os \<Rightarrow> string \<Rightarrow> string \<Rightarrow> Lookups \<Rightarrow> Worker \<Rightarrow> Lookups \<times> Worker" where
  "start_join os address key l k =
     (case resolve address (length (lk_running l)) (so_thread os) of (r, _, target) \<Rightarrow>
        (\<lparr>lk_results = (lk_results l)(lk_next l := r),
          lk_running = (case target of None \<Rightarrow> lk_running l
            | Some (h, p) \<Rightarrow> lk_running l @ [(lk_next l, h, p)]),
          lk_next = lk_next l + 1\<rparr>,
         (set_state ''resolving'' k)\<lparr>wk_joinKey := key, wk_resolution := Some (lk_next l)\<rparr>))"

definition run_request ::
    "session_os \<Rightarrow> Command \<Rightarrow> Session \<Rightarrow> Lookups \<Rightarrow> Worker \<Rightarrow> Session \<times> Lookups \<times> Worker" where
  "run_request os c s l k =
     (let k = (stopServer k)\<lparr>wk_operation := cm_generation c\<rparr>;
          k = set_view (\<lambda>v. v\<lparr>sv_generation := cm_generation c, sv_message := [], sv_state := ''idle''\<rparr>) k
      in if cm_type c = 1 then (case start_host os (cm_host c) s k of (s, k) \<Rightarrow> (s, l, k))
         else if cm_type c = 2
         then (case start_join os (cm_address c) (cm_key c) l k of (l, k) \<Rightarrow> (s, l, k))
         else (s, l, k))"

definition check_lookup :: "Lookups \<Rightarrow> Session \<Rightarrow> Worker \<Rightarrow> Session \<times> Worker" where
  "check_lookup l s k =
     (case wk_resolution k of None \<Rightarrow> (s, k)
      | Some i \<Rightarrow>
          let r = lk_results l i
          in if \<not> rs_done r then (s, k)
             else let k = k\<lparr>wk_resolution := None\<rparr>
               in if rs_error r \<noteq> [] then (s, set_state ''error'' (set_message (rs_error r) k))
                  else (offer \<lparr>cn_address = rs_address r, cn_key = wk_joinKey k, cn_ownerNonce = 0,
                          cn_generation = wk_operation k\<rparr> k s, set_state ''connecting'' k))"

definition session_listen :: "session_os \<Rightarrow> u64 \<Rightarrow> Worker \<Rightarrow> Worker" where
  "session_listen os now k =
     (case listen (so_discovery os) now (sv_discoveryWarning (wk_state k)) (ho_bind (wk_options k)) (wk_discovery k)
      of (_, warning, d) \<Rightarrow>
        set_view (\<lambda>v. v\<lparr>sv_discoveryWarning := warning\<rparr>) (k\<lparr>wk_discovery := d\<rparr>))"

text \<open>The host is ready once its own client has joined.\<close>

definition become_ready :: "session_os \<Rightarrow> Worker \<Rightarrow> Worker" where
  "become_ready os k =
     (let file = (ho_readyFile (wk_options k) \<noteq> []);
          k = (if file \<and> so_ready_open os then k\<lparr>wk_ownsReadyFile := True\<rparr> else k)
      in if file \<and> \<not> (so_ready_open os \<and> so_ready_written os)
         then fail ''Cannot write host readiness file'' k
         else session_listen os (so_clock os 0) (set_state ''hosting'' (k\<lparr>wk_ready := True\<rparr>)))"

definition announce :: "session_os \<Rightarrow> Worker \<Rightarrow> Worker" where
  "announce os k =
     (if wk_server k = None \<or> \<not> wk_ready k then k
      else let k = (if ds_listener (wk_discovery k) < 0
                       \<and> so_clock os 1 - ds_lastListen (wk_discovery k) \<ge> 2000
                    then session_listen os (so_clock os 2) k else k)
        in k\<lparr>wk_discovery := advertise (so_discovery os) (sv_server (wk_state k)) (wk_options k) (wk_discovery k)\<rparr>)"

definition serve_room :: "session_os \<Rightarrow> Worker \<Rightarrow> Worker" where
  "serve_room os k =
     (case wk_server k of None \<Rightarrow> k
      | Some s \<Rightarrow>
          let (result, s) = fz_server_poll 4 (so_poll os) s;
              k = drain_session (k\<lparr>wk_server := Some s\<rparr>);
              (st, s) = fz_server_get_status (the (wk_server k));
              k = set_view (\<lambda>v. v\<lparr>sv_server := st\<rparr>) (k\<lparr>wk_server := Some s\<rparr>);
              k = (if result \<le> 0
                   then set_state (if result < 0 then ''error'' else ''idle'')
                     (stopServer (set_message (if result < 0 then ''Server socket failed''
                        else ''Host left; room ended'') k))
                   else if \<not> wk_ready k \<and> st_owner_joined st then become_ready os k
                   else if \<not> wk_ready k \<and> so_clock os 0 - wk_started k > 10000
                   then fail ''Local host failed to join reserved P1 slot'' k
                   else k)
          in announce os k)"

definition session_event :: "u64 \<Rightarrow> int \<Rightarrow> string \<Rightarrow> fz_server_event" where
  "session_event t level message =
     \<lparr>e_time_us = t * 1000, e_session = 0, e_race = 0, e_level = level, e_player = - 1,
      e_message = take 511 (cstr message)\<rparr>"

definition report_failure :: "session_os \<Rightarrow> Worker \<Rightarrow> Worker" where
  "report_failure os k =
     (let message = sv_message (wk_state k); key = fmt_u (unat (wk_operation k)) @ message
      in if sv_state (wk_state k) = ''error'' \<and> key \<noteq> wk_lastFailure k
         then let e = session_event (so_clock os 0) 0 message
           in push_event e (k\<lparr>wk_lastFailure := key,
                wk_stderr := wk_stderr k @ ''FZVS SESSION ERROR '' @ e_message e @ [CHR 0x0A]\<rparr>)
         else k)"

text \<open>\<open>erase_if\<close> reads the clock once for every room.\<close>

definition expire_rooms :: "session_os \<Rightarrow> Room list \<Rightarrow> Room list" where
  "expire_rooms os rooms =
     map snd (filter (\<lambda>(i, r). unexpired (so_clock os (i + 1)) r) (enumerate 0 rooms))"

definition browse_rooms :: "session_os \<Rightarrow> Session \<Rightarrow> Worker \<Rightarrow> Worker" where
  "browse_rooms os s k =
     (let v = wk_state k;
          (rooms, warning, d) = (if ss_browsing s
            then scan (so_discovery os) (so_clock os 0) (sv_rooms v) (sv_discoveryWarning v) (wk_discovery k)
            else ([], sv_discoveryWarning v, (wk_discovery k)\<lparr>ds_query := - 1, ds_browseStarted := 0\<rparr>))
      in set_view (\<lambda>v. v\<lparr>sv_rooms := expire_rooms os rooms, sv_discoveryWarning := warning\<rparr>)
           (k\<lparr>wk_discovery := d\<rparr>))"

definition failure_report :: "DiscoveryFailure list \<Rightarrow> string" where
  "failure_report fs = concat (map (\<lambda>f. df_operation f @ '' ['' @ df_interface f @ '']: ''
     @ df_message f @ '' ('' @ fmt_d (df_code f) @ '')'' @ [CHR 0x0A]) fs)"

definition report_discovery :: "session_os \<Rightarrow> Session \<Rightarrow> Worker \<Rightarrow> Worker" where
  "report_discovery os s k =
     (let d = publish_discovery (ss_browsing s) (sv_rooms (wk_state k)) (so_clock os 0) (wk_discovery k);
          k = set_view (\<lambda>v. v\<lparr>sv_discovery := ds_status d,
            sv_discoveryWarning := (if dt_phase (ds_status d) \<noteq> Unavailable then [] else sv_discoveryWarning v)\<rparr>)
            (k\<lparr>wk_discovery := d\<rparr>);
          report = failure_report (dt_failures (ds_status d))
      in if report = wk_lastDiscoveryReport k then k
         else let e = session_event (so_clock os 1) (if report = [] then 1 else 0)
                    (''Discovery: '' @ (if report = [] then ''recovered'' else report))
           in push_event e (k\<lparr>wk_lastDiscoveryReport := report,
                wk_stderr := wk_stderr k @ ''FZVS '' @ e_message e @ [CHR 0x0A],
                wk_log := map_option (\<lambda>l. l @ fmt_u (unat (e_time_us e)) @ '' '' @ e_message e @ [CHR 0x0A]) (wk_log k)\<rparr>))"

definition publish_view :: "session_os \<Rightarrow> Session \<Rightarrow> Worker \<Rightarrow> Session \<times> Worker" where
  "publish_view os s k =
     (if so_clock os 0 - wk_lastPublish k \<ge> 50
      then let k = (if sv_state (ss_published s) = ''connected'' \<and> sv_state (wk_state k) = ''connecting''
                       \<and> sv_generation (ss_published s) = wk_operation k
                    then set_state ''connected'' k else k)
        in (if wk_operation k = ss_generation s then s\<lparr>ss_published := wk_state k\<rparr> else s,
            k\<lparr>wk_lastPublish := so_clock os 1\<rparr>)
      else (s, k))"

definition finish :: "Session \<Rightarrow> Worker \<Rightarrow> Session \<times> Worker" where
  "finish s k =
     (let k = set_state ''idle'' (stopServer k)
      in (s\<lparr>ss_published := wk_state k, ss_connection := None, ss_commands := []\<rparr>, k))"

end
