(* ===== verification/Fz_Session_Run.thy ===== *)
theory Fz_Session_Run
  imports Fz_Session
begin

text \<open>
  The threads of a session together: the front end calls it, the worker goes through its loop piece
  by piece, and lookups finish, in any order and with any answers of the operating system.
\<close>

section \<open>Steps\<close>

text \<open>Where the worker is in its loop. The commands it has taken over are \<open>pending\<close> in the source.\<close>

datatype pc =
    Absent
  | Starting
  | Top
  | Retrying "Command list"
  | Handling "Command list"
  | Looking
  | Serving
  | Reporting
  | Browsing
  | Discovering
  | Publishing
  | Gone

text \<open>\<open>sy_requests\<close> records the accepted requests for the statements; nothing depends on it.\<close>

record System =
  sy_session :: Session
  sy_worker :: Worker
  sy_pc :: pc
  sy_lookups :: Lookups
  sy_requests :: "Command list"

definition worker_step :: "session_os \<Rightarrow> System \<Rightarrow> System" where
  "worker_step os y =
     (let s = sy_session y; k = sy_worker y; l = sy_lookups y
      in case sy_pc y of
        Absent \<Rightarrow> y
      | Starting \<Rightarrow> y\<lparr>sy_worker := new_worker os s, sy_pc := Top\<rparr>
      | Top \<Rightarrow>
          if ss_quitting s
          then (case finish s k of (s, k) \<Rightarrow> y\<lparr>sy_session := s, sy_worker := k, sy_pc := Gone\<rparr>)
          else (case take_commands s of (cs, s) \<Rightarrow> y\<lparr>sy_session := s, sy_pc := Retrying cs\<rparr>)
      | Retrying cs \<Rightarrow>
          (case take_retry os s k of (s, k) \<Rightarrow> y\<lparr>sy_session := s, sy_worker := k, sy_pc := Handling cs\<rparr>)
      | Handling [] \<Rightarrow> y\<lparr>sy_pc := Looking\<rparr>
      | Handling (c # cs) \<Rightarrow>
          (case run_request os c s l k of (s, l, k) \<Rightarrow>
             y\<lparr>sy_session := s, sy_lookups := l, sy_worker := k, sy_pc := Handling cs\<rparr>)
      | Looking \<Rightarrow>
          (case check_lookup l s k of (s, k) \<Rightarrow> y\<lparr>sy_session := s, sy_worker := k, sy_pc := Serving\<rparr>)
      | Serving \<Rightarrow> y\<lparr>sy_worker := serve_room os k, sy_pc := Reporting\<rparr>
      | Reporting \<Rightarrow> y\<lparr>sy_worker := report_failure os k, sy_pc := Browsing\<rparr>
      | Browsing \<Rightarrow> y\<lparr>sy_worker := browse_rooms os s k, sy_pc := Discovering\<rparr>
      | Discovering \<Rightarrow> y\<lparr>sy_worker := report_discovery os s k, sy_pc := Publishing\<rparr>
      | Publishing \<Rightarrow>
          (case publish_view os s k of (s, k) \<Rightarrow> y\<lparr>sy_session := s, sy_worker := k, sy_pc := Top\<rparr>)
      | Gone \<Rightarrow> y)"

text \<open>A call of \<open>host\<close>, \<open>join\<close> or \<open>stop\<close> that is accepted becomes a request.\<close>

definition submit :: "(Session \<Rightarrow> bool \<times> Session) \<Rightarrow> System \<Rightarrow> System" where
  "submit call y =
     (case call (sy_session y) of (accepted, s) \<Rightarrow>
        y\<lparr>sy_session := s,
          sy_requests := (if accepted then sy_requests y @ [last (ss_commands s)] else sy_requests y)\<rparr>)"

inductive step :: "System \<Rightarrow> System \<Rightarrow> bool" where
  start: "step y (y\<lparr>sy_session := Fz_Session.start thread (sy_session y),
     sy_pc := (if \<not> ss_worker (sy_session y) \<and> thread = None then Starting else sy_pc y)\<rparr>)"
| host: "step y (submit (host h) y)"
| join: "step y (submit (join address key) y)"
| stop: "step y (submit stop y)"
| browse: "step y (y\<lparr>sy_session := browse b (sy_session y)\<rparr>)"
| retryDiscovery: "step y (y\<lparr>sy_session := retryDiscovery (sy_session y)\<rparr>)"
| connected: "step y (y\<lparr>sy_session := connected (sy_session y)\<rparr>)"
| takeConnection: "step y (y\<lparr>sy_session := snd (takeConnection (sy_session y))\<rparr>)"
| quit: "step y (y\<lparr>sy_session := shutdown_ask (sy_session y)\<rparr>)"
| joined: "sy_pc y = Gone \<Longrightarrow>
    step y (y\<lparr>sy_session := shutdown_join (sy_session y), sy_pc := Absent\<rparr>)"
| lookup: "(i, h, p) \<in> set (lk_running (sy_lookups y)) \<Longrightarrow>
    step y (y\<lparr>sy_lookups := (sy_lookups y)\<lparr>
      lk_results := (lk_results (sy_lookups y))(i := resolved p result (lk_results (sy_lookups y) i)),
      lk_running := remove1 (i, h, p) (lk_running (sy_lookups y))\<rparr>\<rparr>)"
| worker: "step y (worker_step os y)"

definition initial :: "Worker \<Rightarrow> Lookups \<Rightarrow> System" where
  "initial k l = \<lparr>sy_session = zero_session, sy_worker = k, sy_pc = Absent,
     sy_lookups = l\<lparr>lk_running := []\<rparr>, sy_requests = []\<rparr>"

inductive runs :: "System \<Rightarrow> bool" where
  begun: "runs (initial k l)"
| stepped: "runs y \<Longrightarrow> step y y' \<Longrightarrow> runs y'"

end
