(* ===== verification/Fz_Session_Inv.thy ===== *)
theory Fz_Session_Inv
  imports Fz_Session_Run
begin

text \<open>
  What holds in every state of a session, whatever the order of its threads: a connection on offer
  belongs to the newest request, and the worker waits only for the lookup of the request it works on.
\<close>

section \<open>What the pieces of the loop leave alone\<close>

text \<open>The part of the worker that names its request: the operation, the key and the lookup.\<close>

definition task :: "Worker \<Rightarrow> u64 \<times> string \<times> nat option" where
  "task k = (wk_operation k, wk_joinKey k, wk_resolution k)"

definition calm :: "Worker \<Rightarrow> Worker \<Rightarrow> bool" where
  "calm k k' \<longleftrightarrow> wk_operation k' = wk_operation k \<and> wk_joinKey k' = wk_joinKey k
     \<and> (wk_resolution k' = None \<or> wk_resolution k' = wk_resolution k)"

lemma calm_refl [simp]: "calm k k"
  by (simp add: calm_def)

lemma calm_trans: "calm k k' \<Longrightarrow> calm k' k'' \<Longrightarrow> calm k k''"
  by (auto simp: calm_def)

lemma calm_task: "task k' = task k \<Longrightarrow> calm k k'"
  by (simp add: calm_def task_def)

lemma task_updates [simp]:
  "task (set_view f k) = task k" "task (set_state st k) = task k" "task (set_message m k) = task k"
  "task (push_event e k) = task k" "task (k\<lparr>wk_server := v1\<rparr>) = task k"
  "task (k\<lparr>wk_discovery := v2\<rparr>) = task k" "task (k\<lparr>wk_log := v3\<rparr>) = task k"
  "task (k\<lparr>wk_ready := v4\<rparr>) = task k" "task (k\<lparr>wk_ownsReadyFile := v5\<rparr>) = task k"
  "task (k\<lparr>wk_lastFailure := v6\<rparr>) = task k" "task (k\<lparr>wk_lastDiscoveryReport := v7\<rparr>) = task k"
  "task (k\<lparr>wk_stdout := v8\<rparr>) = task k" "task (k\<lparr>wk_stderr := v9\<rparr>) = task k"
  "task (k\<lparr>wk_lastPublish := v10\<rparr>) = task k" "task (k\<lparr>wk_options := v11\<rparr>) = task k"
  "task (k\<lparr>wk_started := v12\<rparr>) = task k"
  by (simp_all add: task_def set_view_def set_state_def set_message_def push_event_def)

lemma task_note_event [simp]: "task (note_event e k) = task k"
  by (simp add: note_event_def Let_def)

lemma task_note_events [simp]: "task (fold note_event es k) = task k"
  by (induction es arbitrary: k) simp_all

lemma task_drain_session [simp]: "task (drain_session k) = task k"
  by (simp add: drain_session_def case_prod_beta Let_def split: option.split)

lemma stopServer_task: "task (stopServer k) = (wk_operation k, wk_joinKey k, None)"
proof -
  let ?k = "case wk_server k of None \<Rightarrow> k
    | Some s \<Rightarrow> (drain_session (k\<lparr>wk_server := Some (fz_server_close s)\<rparr>))\<lparr>wk_server := None\<rparr>"
  have "task ?k = task k" by (simp split: option.split)
  then have "wk_operation ?k = wk_operation k" "wk_joinKey ?k = wk_joinKey k" by (simp_all add: task_def)
  then show ?thesis by (simp add: stopServer_def Let_def) (simp add: task_def)
qed

lemma calm_stopServer [simp]: "calm k (stopServer k)"
  using stopServer_task [of k] by (simp add: calm_def task_def)

lemma calm_fail [simp]: "calm k (fail m k)"
  unfolding fail_def
  by (meson calm_stopServer calm_task calm_trans task_updates(2,3))

lemma task_session_listen [simp]: "task (session_listen os now k) = task k"
  by (simp add: session_listen_def split: prod.split)

lemma calm_become_ready: "calm k (become_ready os k)"
proof -
  have "calm k (fail m (k\<lparr>wk_ownsReadyFile := True\<rparr>))" for m
    by (rule calm_trans [OF calm_task calm_fail]) simp
  then show ?thesis by (simp add: become_ready_def Let_def calm_task)
qed

lemma task_announce [simp]: "task (announce os k) = task k"
  by (simp add: announce_def Let_def)

lemma calm_serve_room: "calm k (serve_room os k)"
proof (cases "wk_server k")
  case (Some s)
  define k1 where "k1 = drain_session (k\<lparr>wk_server := Some (snd (fz_server_poll 4 (so_poll os) s))\<rparr>)"
  define st where "st = fst (fz_server_get_status (the (wk_server k1)))"
  define k2 where "k2 = set_view (\<lambda>v. v\<lparr>sv_server := st\<rparr>)
    (k1\<lparr>wk_server := Some (snd (fz_server_get_status (the (wk_server k1))))\<rparr>)"
  have k2: "calm k k2" by (rule calm_task) (simp add: k2_def k1_def)
  have "calm k2 (set_state t (stopServer (set_message m k2)))" for t m
    by (rule calm_trans [OF calm_trans [OF calm_task calm_stopServer] calm_task]) simp_all
  with calm_become_ready [of k2 os] calm_fail [of k2] show ?thesis
    by (auto simp: serve_room_def Some Let_def case_prod_beta k1_def [symmetric] st_def [symmetric]
        k2_def [symmetric] intro!: calm_trans [OF k2] calm_trans [OF _ calm_task [OF task_announce]])
qed (simp add: serve_room_def)

lemma task_reports [simp]:
  "task (report_failure os k) = task k" "task (browse_rooms os s k) = task k"
  "task (report_discovery os s k) = task k" "task (snd (take_retry os s k)) = task k"
  "task (snd (publish_view os s k)) = task k"
  by (simp_all add: report_failure_def browse_rooms_def report_discovery_def take_retry_def
      publish_view_def Let_def case_prod_beta)

section \<open>Requests, lookups and offers\<close>

text \<open>A connection that answers a request, and a lookup that can only give an answer to it.\<close>

definition answer_to :: "Command \<Rightarrow> Connection \<Rightarrow> bool" where
  "answer_to q c \<longleftrightarrow>
     (cm_type q = 1 \<and> cn_address c = own_address (cm_host q) \<and> cn_key c = ho_key (cm_host q)
        \<and> cn_ownerNonce c \<noteq> 0)
     \<or> (cm_type q = 2 \<and> cn_key c = cm_key q \<and> cn_ownerNonce c = 0
        \<and> (\<exists>h p ip. lookup_target (cm_address q) = Inr (h, p) \<and> cn_address c = ip @ '':'' @ p))"

definition lookup_for :: "Command \<Rightarrow> Lookups \<Rightarrow> nat \<Rightarrow> bool" where
  "lookup_for q l i \<longleftrightarrow>
     (\<forall>h p. (i, h, p) \<in> set (lk_running l) \<longrightarrow> lookup_target (cm_address q) = Inr (h, p))
     \<and> (rs_done (lk_results l i) \<longrightarrow> rs_error (lk_results l i) \<noteq> []
        \<or> (\<exists>h p ip. lookup_target (cm_address q) = Inr (h, p) \<and> rs_address (lk_results l i) = ip @ '':'' @ p))"

definition pending :: "pc \<Rightarrow> Command list" where
  "pending p = (case p of Retrying cs \<Rightarrow> cs | Handling cs \<Rightarrow> cs | _ \<Rightarrow> [])"

definition requests_ok :: "System \<Rightarrow> bool" where
  "requests_ok y \<longleftrightarrow>
     ss_generation (sy_session y) = of_nat (length (sy_requests y))
     \<and> (\<forall>i<length (sy_requests y). cm_generation (sy_requests y ! i) = of_nat (Suc i))
     \<and> set (ss_commands (sy_session y)) \<subseteq> set (sy_requests y)
     \<and> set (pending (sy_pc y)) \<subseteq> set (sy_requests y)"

definition running_ok :: "Lookups \<Rightarrow> bool" where
  "running_ok l \<longleftrightarrow> (\<forall>i h p. (i, h, p) \<in> set (lk_running l) \<longrightarrow> i < lk_next l)"

definition waits_ok :: "Command list \<Rightarrow> Lookups \<Rightarrow> Worker \<Rightarrow> bool" where
  "waits_ok reqs l k \<longleftrightarrow>
     (\<forall>i. wk_resolution k = Some i \<longrightarrow> i < lk_next l
       \<and> (\<exists>q\<in>set reqs. cm_generation q = wk_operation k \<and> cm_type q = 2 \<and> wk_joinKey k = cm_key q
            \<and> lookup_for q l i))"

definition offer_ok :: "Command list \<Rightarrow> Session \<Rightarrow> bool" where
  "offer_ok reqs s \<longleftrightarrow>
     (\<forall>c. ss_connection s = Some c \<longrightarrow> cn_generation c = ss_generation s
       \<and> (\<exists>q\<in>set reqs. cm_generation q = cn_generation c \<and> answer_to q c))"

definition system_inv :: "System \<Rightarrow> bool" where
  "system_inv y \<longleftrightarrow> requests_ok y \<and> running_ok (sy_lookups y)
     \<and> (sy_pc y \<notin> {Absent, Starting} \<longrightarrow> waits_ok (sy_requests y) (sy_lookups y) (sy_worker y))
     \<and> offer_ok (sy_requests y) (sy_session y)"

lemma waits_calm: "waits_ok reqs l k \<Longrightarrow> calm k k' \<Longrightarrow> waits_ok reqs l k'"
  by (auto simp: waits_ok_def calm_def)

lemma waits_more: "waits_ok reqs l k \<Longrightarrow> set reqs \<subseteq> set reqs' \<Longrightarrow> waits_ok reqs' l k"
  by (auto simp: waits_ok_def)

lemma waits_none: "wk_resolution k = None \<Longrightarrow> waits_ok reqs l k"
  by (simp add: waits_ok_def)

lemma offer_same:
  "offer_ok reqs s \<Longrightarrow> ss_connection s' = ss_connection s \<Longrightarrow> ss_generation s' = ss_generation s
     \<Longrightarrow> offer_ok reqs s'"
  unfolding offer_ok_def by metis

lemma offer_flags:
  "offer_ok reqs (s\<lparr>ss_browsing := b\<rparr>) = offer_ok reqs s" "offer_ok reqs (s\<lparr>ss_discoveryRetry := b\<rparr>) = offer_ok reqs s"
  "offer_ok reqs (s\<lparr>ss_quitting := b\<rparr>) = offer_ok reqs s"
  by (simp_all add: offer_ok_def)

lemma offer_offer:
  assumes "offer_ok reqs s" and "q \<in> set reqs" and "cm_generation q = wk_operation k"
    and "answer_to q c" and "cn_generation c = wk_operation k"
  shows "offer_ok reqs (offer c k s)"
proof (cases "wk_operation k = ss_generation s")
  case True
  with assms(2-5) show ?thesis by (auto simp: offer_ok_def offer_def)
qed (use assms(1) in \<open>simp add: offer_def\<close>)

lemma offer_frame [simp]:
  "ss_generation (offer c k s) = ss_generation s" "ss_commands (offer c k s) = ss_commands s"
  by (simp_all add: offer_def)

section \<open>The pieces that touch them\<close>

lemma start_host_offer:
  assumes "offer_ok reqs s" and "c \<in> set reqs" and "cm_type c = 1" and "wk_operation k = cm_generation c"
    and "wk_resolution k = None"
  shows "offer_ok reqs (fst (start_host os (cm_host c) s k))"
    and "wk_resolution (snd (start_host os (cm_host c) s k)) = None"
    and "ss_generation (fst (start_host os (cm_host c) s k)) = ss_generation s"
    and "ss_commands (fst (start_host os (cm_host c) s k)) = ss_commands s"
proof -
  show "offer_ok reqs (fst (start_host os (cm_host c) s k))"
    using assms
    by (auto simp: start_host_def Let_def set_state_def set_view_def answer_to_def
        split: sum.split intro!: offer_offer [of _ _ c])
  have "wk_resolution (fail m k') = None" if "wk_resolution k' = None" for m k'
    using calm_fail [of k' m] that by (simp add: calm_def)
  then show "wk_resolution (snd (start_host os (cm_host c) s k)) = None"
    using assms(5)
    by (auto simp: start_host_def Let_def set_state_def set_message_def set_view_def split: sum.split)
qed (auto simp: start_host_def Let_def split: sum.split)

lemma lookup_target_error: "lookup_target a = Inl e \<Longrightarrow> e \<noteq> []"
  by (auto simp: lookup_target_def Let_def split: if_splits)

lemma resolve_result:
  "resolve a n thread = (r, m, target) \<Longrightarrow>
     (rs_done r \<longrightarrow> rs_error r \<noteq> []) \<and> (\<forall>h p. target = Some (h, p) \<longrightarrow> lookup_target a = Inr (h, p))"
  using lookup_target_error by (auto simp: resolve_def Let_def split: sum.splits if_splits option.splits)

lemma start_join_waits:
  assumes "running_ok l" and "c \<in> set reqs" and "cm_type c = 2" and "wk_operation k = cm_generation c"
  shows "waits_ok reqs (fst (start_join os (cm_address c) (cm_key c) l k))
      (snd (start_join os (cm_address c) (cm_key c) l k))"
    and "running_ok (fst (start_join os (cm_address c) (cm_key c) l k))"
proof -
  obtain r m target where r: "resolve (cm_address c) (length (lk_running l)) (so_thread os) = (r, m, target)"
    by (cases "resolve (cm_address c) (length (lk_running l)) (so_thread os)")
  let ?l = "fst (start_join os (cm_address c) (cm_key c) l k)"
  have "lookup_for c ?l (lk_next l)"
    using resolve_result [OF r] assms(1)
    by (auto simp: lookup_for_def start_join_def r running_ok_def split: option.splits)
  then show "waits_ok reqs ?l (snd (start_join os (cm_address c) (cm_key c) l k))"
    using assms(2-4) by (auto simp: waits_ok_def start_join_def r set_state_def set_view_def)
  show "running_ok ?l"
    using assms(1) by (fastforce simp: running_ok_def start_join_def r less_Suc_eq split: option.splits)
qed

lemma run_request_inv:
  assumes "running_ok l" and "offer_ok reqs s" and "c \<in> set reqs"
    and "run_request os c s l k = (s', l', k')"
  shows "running_ok l' \<and> offer_ok reqs s' \<and> waits_ok reqs l' k'
    \<and> ss_generation s' = ss_generation s \<and> ss_commands s' = ss_commands s"
proof -
  define k0 where "k0 = set_view (\<lambda>v. v\<lparr>sv_generation := cm_generation c, sv_message := [], sv_state := ''idle''\<rparr>)
    ((stopServer k)\<lparr>wk_operation := cm_generation c\<rparr>)"
  have "wk_resolution (stopServer k) = None" using stopServer_task [of k] by (simp add: task_def)
  then have k0: "wk_resolution k0 = None" "wk_operation k0 = cm_generation c"
    by (simp_all add: k0_def set_view_def)
  have run: "run_request os c s l k =
      (if cm_type c = 1 then (fst (start_host os (cm_host c) s k0), l, snd (start_host os (cm_host c) s k0))
       else if cm_type c = 2
       then (s, fst (start_join os (cm_address c) (cm_key c) l k0), snd (start_join os (cm_address c) (cm_key c) l k0))
       else (s, l, k0))"
    by (simp add: run_request_def Let_def k0_def case_prod_beta)
  consider "cm_type c = 1" | "cm_type c = 2" | "cm_type c \<noteq> 1" "cm_type c \<noteq> 2" by blast
  then show ?thesis
  proof cases
    case 1
    then show ?thesis
      using start_host_offer [OF assms(2,3) 1 k0(2,1), of os] assms(1,4) run
      by (auto intro: waits_none)
  next
    case 2
    then show ?thesis
      using start_join_waits [OF assms(1,3) 2 k0(2), of os] assms(2,4) run by auto
  next
    case 3
    then show ?thesis using assms run k0 by (auto intro: waits_none)
  qed
qed

lemma check_lookup_inv:
  assumes "offer_ok reqs s" and "waits_ok reqs l k" and "check_lookup l s k = (s', k')"
  shows "offer_ok reqs s' \<and> waits_ok reqs l k' \<and> ss_generation s' = ss_generation s
    \<and> ss_commands s' = ss_commands s"
proof (cases "wk_resolution k")
  case None
  then show ?thesis using assms by (auto simp: check_lookup_def)
next
  case (Some i)
  obtain q where q: "q \<in> set reqs" "cm_generation q = wk_operation k" "cm_type q = 2"
      "wk_joinKey k = cm_key q" "lookup_for q l i"
    using assms(2) Some by (auto simp: waits_ok_def)
  show ?thesis
  proof (cases "rs_done (lk_results l i)")
    case True
    let ?k = "k\<lparr>wk_resolution := None\<rparr>"
    have k': "wk_resolution k' = None"
      using assms(3) Some True
      by (auto simp: check_lookup_def Let_def set_state_def set_message_def set_view_def split: if_splits)
    let ?c = "\<lparr>cn_address = rs_address (lk_results l i), cn_key = wk_joinKey k, cn_ownerNonce = 0,
      cn_generation = wk_operation k\<rparr>"
    have "answer_to q ?c" if "rs_error (lk_results l i) = []"
      using q(3-5) True that by (auto simp: answer_to_def lookup_for_def)
    then have "offer_ok reqs (offer ?c ?k s)" if "rs_error (lk_results l i) = []"
      using offer_offer [OF assms(1) q(1), of ?k ?c] q(2) that by simp
    with assms(1,3) Some True k' show ?thesis
      by (auto simp: check_lookup_def Let_def waits_none split: if_splits)
  next
    case False
    then show ?thesis using assms Some by (simp add: check_lookup_def)
  qed
qed

section \<open>Every step keeps the invariant\<close>

lemma requests_D:
  assumes "requests_ok y"
  shows "set (ss_commands (sy_session y)) \<subseteq> set (sy_requests y)" "set (pending (sy_pc y)) \<subseteq> set (sy_requests y)"
  using assms by (simp_all add: requests_ok_def)

text \<open>A step that keeps the requests keeps the invariant if it keeps its parts.\<close>

lemma system_invI:
  assumes "system_inv y" and "sy_requests y' = sy_requests y"
    and "ss_generation (sy_session y') = ss_generation (sy_session y)"
    and "set (ss_commands (sy_session y')) \<subseteq> set (sy_requests y)"
    and "set (pending (sy_pc y')) \<subseteq> set (sy_requests y)"
    and "running_ok (sy_lookups y')"
    and "sy_pc y' \<notin> {Absent, Starting} \<Longrightarrow> waits_ok (sy_requests y) (sy_lookups y') (sy_worker y')"
    and "offer_ok (sy_requests y) (sy_session y')"
  shows "system_inv y'"
  using assms by (simp add: system_inv_def requests_ok_def)

lemma enqueue_inv:
  assumes "system_inv y"
  shows "system_inv (submit (enqueue c) y)"
proof (cases "fst (enqueue c (sy_session y))")
  case False
  then have "snd (enqueue c (sy_session y)) = sy_session y" by (auto simp: enqueue_def Let_def split: if_splits)
  with False assms show ?thesis by (simp add: submit_def case_prod_beta)
next
  case True
  let ?q = "c\<lparr>cm_generation := ss_generation (sy_session y) + 1\<rparr>"
  let ?s = "snd (enqueue c (sy_session y))"
  have s: "ss_generation ?s = ss_generation (sy_session y) + 1" "ss_connection ?s = None"
      "last (ss_commands ?s) = ?q" "set (ss_commands ?s) \<subseteq> insert ?q (set (ss_commands (sy_session y)))"
    using True by (auto simp: enqueue_def Let_def split: if_splits)
  have y: "submit (enqueue c) y = y\<lparr>sy_session := ?s, sy_requests := sy_requests y @ [?q]\<rparr>"
    using True s(3) by (simp add: submit_def case_prod_beta)
  have "requests_ok (submit (enqueue c) y)"
    using assms s(1,4) unfolding y system_inv_def requests_ok_def by (auto simp: nth_append less_Suc_eq)
  moreover have "offer_ok (sy_requests y @ [?q]) ?s" using s(2) by (simp add: offer_ok_def)
  moreover have "waits_ok (sy_requests y @ [?q]) (sy_lookups y) (sy_worker y)"
    if "sy_pc y \<notin> {Absent, Starting}"
    by (rule waits_more [of "sy_requests y"]) (use assms that in \<open>auto simp: system_inv_def\<close>)
  ultimately show ?thesis using assms by (simp add: system_inv_def y)
qed

lemma lookup_inv:
  fixes result :: "string + string"
  assumes "system_inv y" and "(i, h, p) \<in> set (lk_running (sy_lookups y))"
  defines "l \<equiv> (sy_lookups y)\<lparr>
      lk_results := (lk_results (sy_lookups y))(i := resolved p result (lk_results (sy_lookups y) i)),
      lk_running := remove1 (i, h, p) (lk_running (sy_lookups y))\<rparr>"
  shows "system_inv (y\<lparr>sy_lookups := l\<rparr>)"
proof -
  have run: "(j, h', p') \<in> set (lk_running l) \<Longrightarrow> (j, h', p') \<in> set (lk_running (sy_lookups y))" for j h' p'
    by (simp add: l_def) (meson notin_set_remove1)
  have same: "lk_next l = lk_next (sy_lookups y)" by (simp add: l_def)
  have r: "running_ok l"
    unfolding running_ok_def same
  proof (intro allI impI)
    fix j h' p'
    assume "(j, h', p') \<in> set (lk_running l)"
    then show "j < lk_next (sy_lookups y)"
      using run assms(1) unfolding system_inv_def running_ok_def by blast
  qed
  have kept: "lookup_for q l j" if old: "lookup_for q (sy_lookups y) j" for q j
  proof (cases "j = i")
    case True
    then have target: "lookup_target (cm_address q) = Inr (h, p)"
      using old assms(2) by (simp add: lookup_for_def)
    have "rs_error (lk_results l j) \<noteq> [] \<or> (\<exists>ip. rs_address (lk_results l j) = ip @ '':'' @ p)"
      using True by (simp add: l_def resolved_def split: sum.split)
    then show ?thesis using old run target unfolding lookup_for_def by blast
  next
    case False
    then have "lk_results l j = lk_results (sy_lookups y) j" by (simp add: l_def)
    then show ?thesis using old run unfolding lookup_for_def by metis
  qed
  have "waits_ok (sy_requests y) l (sy_worker y)" if "waits_ok (sy_requests y) (sy_lookups y) (sy_worker y)"
    using that kept unfolding waits_ok_def same by meson
  with assms(1) r show ?thesis
    by (intro system_invI [OF assms(1)]) (simp_all add: system_inv_def requests_ok_def)
qed

lemma frame_pieces [simp]:
  "ss_generation (fst (take_retry os s k)) = ss_generation s" "ss_commands (fst (take_retry os s k)) = ss_commands s"
  "ss_connection (fst (take_retry os s k)) = ss_connection s"
  "ss_generation (fst (publish_view os s k)) = ss_generation s" "ss_commands (fst (publish_view os s k)) = ss_commands s"
  "ss_connection (fst (publish_view os s k)) = ss_connection s"
  by (simp_all add: take_retry_def publish_view_def Let_def)

lemmas worker_unfold = worker_step_def Let_def case_prod_beta pending_def

lemma system_inv_parts:
  assumes "system_inv y"
  shows "running_ok (sy_lookups y)" and "offer_ok (sy_requests y) (sy_session y)"
    and "set (ss_commands (sy_session y)) \<subseteq> set (sy_requests y)" and "set (pending (sy_pc y)) \<subseteq> set (sy_requests y)"
    and "sy_pc y \<notin> {Absent, Starting} \<Longrightarrow> waits_ok (sy_requests y) (sy_lookups y) (sy_worker y)"
  using assms by (simp_all add: system_inv_def requests_ok_def)

text \<open>The start of a turn: the thread ends, or takes the queued commands.\<close>

lemma worker_inv_top:
  assumes "system_inv y" and "sy_pc y = Top"
  shows "system_inv (worker_step os y)"
proof -
  let ?s = "sy_session y" and ?k = "sy_worker y"
  have "wk_resolution (snd (finish ?s ?k)) = None"
    using stopServer_task [of ?k] by (simp add: finish_def Let_def set_state_def set_view_def task_def)
  then show ?thesis
    using assms system_inv_parts [OF assms(1)]
    by (cases "ss_quitting ?s"; intro system_invI [OF assms(1)])
      (simp_all add: worker_unfold take_commands_def waits_none finish_def [of ?s] offer_same,
        simp add: offer_ok_def)
qed

text \<open>The commands of a turn, one step for each.\<close>

lemma worker_inv_handling:
  assumes "system_inv y" and pc: "sy_pc y = Handling cs"
  shows "system_inv (worker_step os y)"
proof (cases cs)
  case Nil
  then show ?thesis
    using pc system_inv_parts [OF assms(1)] by (intro system_invI [OF assms(1)]) (simp_all add: worker_unfold)
next
  case (Cons c cs')
  note parts = system_inv_parts [OF assms(1)]
  have c: "c \<in> set (sy_requests y)" using parts(4) pc Cons by (simp add: pending_def)
  obtain s' l' k' where r: "run_request os c (sy_session y) (sy_lookups y) (sy_worker y) = (s', l', k')"
    by (cases "run_request os c (sy_session y) (sy_lookups y) (sy_worker y)")
  from run_request_inv [OF parts(1,2) c r] show ?thesis
    using pc Cons parts(3,4) by (intro system_invI [OF assms(1)]) (simp_all add: worker_unfold r)
qed

lemma worker_inv_looking:
  assumes "system_inv y" and pc: "sy_pc y = Looking"
  shows "system_inv (worker_step os y)"
proof -
  note parts = system_inv_parts [OF assms(1)]
  obtain s' k' where r: "check_lookup (sy_lookups y) (sy_session y) (sy_worker y) = (s', k')"
    by (cases "check_lookup (sy_lookups y) (sy_session y) (sy_worker y)")
  from check_lookup_inv [OF parts(2) _ r] show ?thesis
    using pc parts by (intro system_invI [OF assms(1)]) (simp_all add: worker_unfold r)
qed

text \<open>The other steps start no lookup and offer no connection.\<close>

lemma worker_inv_calm:
  assumes inv: "system_inv y" and pc: "sy_pc y \<notin> {Absent, Starting, Top, Looking}" "\<nexists>cs. sy_pc y = Handling cs"
  shows "system_inv (worker_step os y)"
proof -
  let ?s = "sy_session y" and ?k = "sy_worker y" and ?l = "sy_lookups y" and ?q = "sy_requests y"
  note parts = system_inv_parts [OF inv]
  have calmly: "waits_ok ?q ?l k" if "calm ?k k" for k
    using waits_calm parts(5) pc that by blast
  note offers = offer_same [OF parts(2), of "fst (take_retry os ?s ?k)"]
    offer_same [OF parts(2), of "fst (publish_view os ?s ?k)"]
  note tasks = calmly [OF calm_task] calmly [OF calm_serve_room]
  show ?thesis
    by (cases "sy_pc y"; (intro system_invI [OF inv])?)
      (use inv pc parts offers tasks in \<open>simp_all add: worker_unfold\<close>)
qed

lemma worker_inv:
  assumes "system_inv y"
  shows "system_inv (worker_step os y)"
proof (cases "sy_pc y")
  case Starting
  then show ?thesis
    using assms system_inv_parts [OF assms]
    by (intro system_invI [OF assms]) (simp_all add: worker_unfold new_worker_def waits_none)
next
  case Absent
  then show ?thesis using assms by (simp add: worker_unfold)
next
  case (Handling cs)
  with assms show ?thesis by (rule worker_inv_handling)
qed (use assms in \<open>simp_all add: worker_inv_top worker_inv_looking worker_inv_calm\<close>)

lemma start_frame [simp]:
  "ss_generation (Fz_Session.start thread s) = ss_generation s" "ss_commands (Fz_Session.start thread s) = ss_commands s"
  "ss_connection (Fz_Session.start thread s) = ss_connection s"
  by (simp_all add: start_def Let_def split: option.split)

lemma call_frame [simp]:
  "ss_generation (connected s) = ss_generation s" "ss_commands (connected s) = ss_commands s"
  "ss_connection (connected s) = ss_connection s"
  by (simp_all add: connected_def)

lemma step_inv:
  assumes "step y y'" and "system_inv y"
  shows "system_inv y'"
  using assms
proof (induction rule: step.induct)
  case (start y thread)
  note off = offer_same [of "sy_requests y" "sy_session y" "Fz_Session.start thread (sy_session y)"]
  from start show ?case
    by (intro system_invI [OF start])
      (simp_all add: system_inv_def requests_ok_def pending_def off split: if_splits)
next
  case (connected y)
  note off = offer_same [of "sy_requests y" "sy_session y" "connected (sy_session y)"]
  from connected show ?case
    by (intro system_invI [OF connected]) (simp_all add: system_inv_def requests_ok_def off)
next
  case (lookup i h p y result)
  then show ?case by (rule lookup_inv [rotated])
next
  case (host y h)
  then show ?case unfolding host_def by (rule enqueue_inv)
next
  case (join y address key)
  then show ?case unfolding join_def by (rule enqueue_inv)
next
  case (stop y)
  then show ?case unfolding stop_def by (rule enqueue_inv)
next
  case (worker y os)
  then show ?case by (rule worker_inv)
next
  case (joined y)
  then show ?case
    by (intro system_invI [OF joined(2)]) (auto simp: system_inv_def requests_ok_def pending_def shutdown_join_def intro: offer_same)
next
  case (takeConnection y)
  then show ?case
    by (intro system_invI [OF takeConnection])
      (simp_all add: system_inv_def requests_ok_def takeConnection_def, simp add: offer_ok_def)
qed (simp_all add: system_inv_def requests_ok_def browse_def retryDiscovery_def shutdown_ask_def offer_flags)

lemma initial_inv: "system_inv (initial k l)"
  by (simp add: initial_def system_inv_def requests_ok_def running_ok_def offer_ok_def zero_session_def pending_def)

lemma runs_inv: "runs y \<Longrightarrow> system_inv y"
  by (induction rule: runs.induct) (auto simp: initial_inv intro: step_inv)

text \<open>
  C3. Whatever the interleaving of the front end, the worker and the address lookups: a
  connection handed to the emulator always answers the newest accepted request. It carries the key
  of that request and either the host's own address and identity, if the request was to host, or
  an address with the port of the entered one, if it was to join; after a request to stop, none
  is handed out. (Fewer than \<open>2 ^ 64\<close> requests, the range of the generation counter.)
\<close>

theorem connection_newest:
  assumes "runs y" and "length (sy_requests y) < 2 ^ 64"
    and "fst (takeConnection (sy_session y)) = Some c"
  shows "sy_requests y \<noteq> [] \<and> answer_to (last (sy_requests y)) c
    \<and> ss_connection (snd (takeConnection (sy_session y))) = None"
proof -
  let ?q = "sy_requests y"
  have inv: "requests_ok y" "offer_ok ?q (sy_session y)"
    using runs_inv [OF assms(1)] by (simp_all add: system_inv_def)
  have "ss_connection (sy_session y) = Some c"
    using assms(3) by (auto simp: takeConnection_def split: option.splits if_splits)
  then obtain q where q: "q \<in> set ?q" "cm_generation q = ss_generation (sy_session y)" "answer_to q c"
    using inv(2) by (auto simp: offer_ok_def)
  then obtain i where i: "i < length ?q" "q = ?q ! i" by (auto simp: in_set_conv_nth)
  then have "(of_nat (Suc i) :: u64) = of_nat (length ?q)" using q(2) inv(1) by (simp add: requests_ok_def)
  then have "Suc i = length ?q"
    using assms(2) i(1) by (subst (asm) word_of_nat_eq_iff) (simp add: take_bit_nat_eq_self)
  then have "q = last ?q" using i by (metis diff_Suc_1 last_conv_nth length_greater_0_conv zero_less_Suc)
  then show ?thesis using q i by (auto simp: takeConnection_def)
qed

end
