(* ===== verification/Fz_Discovery_Props.thy ===== *)
theory Fz_Discovery_Props
  imports Fz_Discovery Fz_Resolve Fz_Link
begin

text \<open>
  Discovery: the list of rooms stays bounded, without duplicates and well-formed whatever arrives,
  and what a host announces is what a browser lists.
\<close>

section \<open>The list of rooms\<close>

text \<open>A room as a valid reply describes it.\<close>

definition listing_ok :: "Room \<Rightarrow> bool" where
  "listing_ok r \<longleftrightarrow> rm_session r \<noteq> 0 \<and> rm_players r \<in> {2..4} \<and> rm_occupied r \<le> 4 \<and> rm_phase r \<le> 4
     \<and> rm_track r \<le> 4 \<and> rm_league r \<le> 2 \<and> length (rm_name r) \<le> 64
     \<and> list_all (\<lambda>c. 32 \<le> (of_char c :: nat) \<and> of_char c < (127 :: nat)) (rm_name r)"

definition rooms_ok :: "Room list \<Rightarrow> bool" where
  "rooms_ok rooms \<longleftrightarrow> length rooms \<le> 64 \<and> distinct (map rm_session rooms) \<and> list_all listing_ok rooms"

lemma replace_room_sessions:
  "replace_room r rooms = Some rooms' \<Longrightarrow>
     map rm_session rooms' = map rm_session rooms \<and> set rooms' \<subseteq> insert r (set rooms)"
  by (induction rooms arbitrary: rooms') (auto split: if_splits)

lemma replace_room_None: "replace_room r rooms = None \<longleftrightarrow> rm_session r \<notin> rm_session ` set rooms"
  by (induction rooms) auto

lemma rooms_ok_add: "rooms_ok rooms \<Longrightarrow> listing_ok r \<Longrightarrow> rooms_ok (add_room r rooms)"
proof (cases "replace_room r rooms")
  case None
  assume "rooms_ok rooms" "listing_ok r"
  then show ?thesis using None replace_room_None [of r rooms] by (auto simp: rooms_ok_def add_room_def)
next
  case (Some rooms')
  assume ok: "rooms_ok rooms" "listing_ok r"
  have s: "map rm_session rooms' = map rm_session rooms" and sub: "set rooms' \<subseteq> insert r (set rooms)"
    using replace_room_sessions [OF Some] by simp_all
  from arg_cong [OF s, of length] have "length rooms' = length rooms" by simp
  then show ?thesis
    using ok Some s sub by (auto simp: rooms_ok_def add_room_def list_all_iff simp del: map_eq_conv)
qed

lemma shown_byte_printable: "32 \<le> shown_byte b \<and> shown_byte b < 127"
  by (simp add: shown_byte_def printable_def)

lemma room_name_ok:
  assumes "length b = 96"
  shows "length (room_name b) \<le> 64"
    "list_all (\<lambda>c. 32 \<le> (of_char c :: nat) \<and> of_char c < (127 :: nat)) (room_name b)"
proof -
  show "length (room_name b) \<le> 64"
    using assms length_takeWhile_le [of "\<lambda>x. x \<noteq> 0" "drop 32 b"] by (simp add: room_name_def)
  have u: "32 \<le> unat (shown_byte x) \<and> unat (shown_byte x) < 127" for x
    using shown_byte_printable [of x] by (simp add: word_le_nat_alt word_less_nat_alt)
  moreover have "unat (shown_byte x) mod 256 = unat (shown_byte x)" for x
    using u [of x] by simp
  ultimately show "list_all (\<lambda>c. 32 \<le> (of_char c :: nat) \<and> of_char c < (127 :: nat)) (room_name b)"
    by (auto simp: room_name_def list_all_iff)
qed

lemma room_of_ok: "valid_reply nonce b \<Longrightarrow> listing_ok (room_of now b src)"
  using room_name_ok [of b]
  by (auto simp: valid_reply_def listing_ok_def room_of_def word_less_nat_alt word_le_nat_alt)

lemma rooms_ok_collect: "rooms_ok rooms \<Longrightarrow> rooms_ok (fst (collect os now n rs rooms d))"
  by (induction os now n rs rooms d rule: collect.induct) (simp_all add: Let_def rooms_ok_add room_of_ok)

lemma rooms_ok_filter: "rooms_ok rooms \<Longrightarrow> rooms_ok (filter P rooms)"
  by (auto simp: rooms_ok_def list_all_iff distinct_map_filter intro: order_trans [OF length_filter_le])

lemma rooms_ok_scan: "rooms_ok rooms \<Longrightarrow> rooms_ok (fst (scan os now rooms warning d))"
  by (simp add: scan_def scan_open_def Let_def case_prod_beta rooms_ok_collect rooms_ok_filter
      split: prod.split bool.split)

section \<open>From the host to the browser\<close>

definition shown_char :: "char \<Rightarrow> char" where
  "shown_char c = (if 32 \<le> (of_char c :: nat) \<and> of_char c < (127 :: nat) then c else CHR ''?'')"

text \<open>The room a browser is meant to list for a host's status and options.\<close>

definition announced :: "fz_server_status \<Rightarrow> HostOptions \<Rightarrow> u64 \<Rightarrow> sockaddr_in \<Rightarrow> Room" where
  "announced st host now src =
     \<lparr>rm_session = st_session st, rm_seen = now, rm_name = map shown_char (take 63 (ho_name host)),
      rm_address = inet_ntoa (sin_addr src) @ '':'' @ fmt_u (st_port st), rm_players = st_players st,
      rm_occupied = st_occupied st, rm_phase = st_phase st, rm_track = st_track st,
      rm_league = st_league st, rm_version = 1, rm_password = (ho_key host \<noteq> [])\<rparr>"

lemma shown_byte_char: "char_of (unat (shown_byte (shown_byte (byte_of c)))) = shown_char c"
proof -
  have "(of_char c :: nat) < 256" by (metis mod_less_divisor of_char_mod_256 zero_less_numeral)
  then have u: "unat (byte_of c) = of_char c" by (simp add: unsigned_of_nat take_bit_nat_eq_self)
  show ?thesis
    by (simp add: shown_byte_def shown_char_def printable_def word_le_nat_alt word_less_nat_alt u)
      (simp add: char_of_def bit_0)
qed

lemma room_name_reply:
  assumes "length pre = 32"
  shows "room_name (pre @ reply_name name) = map shown_char (take 63 name)"
proof -
  let ?shown = "map (\<lambda>c. shown_byte (byte_of c)) (take 63 name)"
  have "takeWhile (\<lambda>x. x \<noteq> 0) (?shown @ replicate (64 - length ?shown) 0) = ?shown"
  proof (subst takeWhile_append2)
    fix x
    assume "x \<in> set ?shown"
    then obtain c where "x = shown_byte (byte_of c)" by auto
    then have "32 \<le> x" using shown_byte_printable by blast
    then show "x \<noteq> 0" by auto
  qed (simp add: takeWhile_replicate)
  then show ?thesis
    using assms by (simp add: room_name_def reply_name_def Let_def shown_byte_char o_def)
qed

lemma length_reply_name [simp]: "length (reply_name name) = 64"
  by (simp add: reply_name_def Let_def)

lemma length_FZVD [simp]: "length FZVD = 4"
  by (simp add: FZVD_def)

lemma query_valid: "valid_query (query_bytes nonce)" "take 8 (drop 8 (query_bytes nonce)) = fz_put64 nonce"
  "take 257 (query_bytes nonce) = query_bytes nonce"
  by (simp_all add: valid_query_def query_bytes_def FZVD_def le64.length_put)

text \<open>The fields of a reply, one by one.\<close>

lemma reply_fields:
  fixes host :: HostOptions and st :: fz_server_status
  assumes "length (take 8 (drop 8 q)) = 8"
  defines "b \<equiv> reply_bytes st host q"
  shows "length b = 96" "take 4 b = FZVD" "b ! 4 = 1" "b ! 5 = 2" "b ! 6 = 1"
    "fz_u64 (drop 8 b) = fz_u64 (take 8 (drop 8 q))" "fz_u64 (drop 16 b) = st_session st"
    "fz_u16 (drop 24 b) = of_nat (st_port st)" "b ! 26 = of_nat (st_phase st)"
    "b ! 27 = of_nat (st_occupied st)" "b ! 28 = of_nat (st_players st)" "b ! 29 = of_nat (st_track st)"
    "b ! 30 = of_nat (st_league st)" "b ! 31 = of_bool (ho_key host \<noteq> [])"
    "room_name b = map shown_char (take 63 (ho_name host))"
proof -
  note L = le64.length_put le16.length_put assms(1)
  show "length b = 96" using L by (simp add: b_def reply_bytes_def)
  show "take 4 b = FZVD" "b ! 4 = 1" "b ! 5 = 2" "b ! 6 = 1"
    by (simp_all add: b_def reply_bytes_def nth_append)
  show "b ! 26 = of_nat (st_phase st)" "b ! 27 = of_nat (st_occupied st)" "b ! 28 = of_nat (st_players st)"
    "b ! 29 = of_nat (st_track st)" "b ! 30 = of_nat (st_league st)" "b ! 31 = of_bool (ho_key host \<noteq> [])"
    using L by (simp_all add: b_def reply_bytes_def nth_append)
  have "fz_u64 (take 8 (drop 8 q) @ r) = fz_u64 (take 8 (drop 8 q))" for r
    using le64.get_prefix [of "take 8 (drop 8 q) @ r"] assms(1) by simp
  then show "fz_u64 (drop 8 b) = fz_u64 (take 8 (drop 8 q))"
    by (simp add: b_def reply_bytes_def)
  show "fz_u64 (drop 16 b) = st_session st" "fz_u16 (drop 24 b) = of_nat (st_port st)"
    using L by (simp_all add: b_def reply_bytes_def le64.get_put le16.get_put)
  have "b = (FZVD @ [1, 2, FZ_VERSION, 0] @ take 8 (drop 8 q) @ fz_put64 (st_session st)
       @ fz_put16 (of_nat (st_port st))
       @ [of_nat (st_phase st), of_nat (st_occupied st), of_nat (st_players st), of_nat (st_track st),
          of_nat (st_league st), of_bool (ho_key host \<noteq> [])]) @ reply_name (ho_name host)"
    (is "_ = ?pre @ _") by (simp add: b_def reply_bytes_def)
  moreover have "length ?pre = 32" using L by simp
  ultimately show "room_name b = map shown_char (take 63 (ho_name host))"
    by (metis room_name_reply)
qed

text \<open>A server in use keeps the port it was created with.\<close>

definition port_ok :: "nat \<Rightarrow> bool" where
  "port_ok p \<longleftrightarrow> 1 \<le> p \<and> p \<le> 65535 \<and> p \<noteq> 12001"

lemma port_packet [simp]: "s_port (receive_packet b a s) = s_port s" "s_port (advance now s) = s_port s"
  using packet_frame.setup_act [of b a s] advance_frame.setup_act [of now s] by (simp_all add: setup_of_def)

lemma port_new_server: "valid_config c \<Longrightarrow> port_ok (s_port (new_server c w))"
  by (auto simp: valid_config_def port_ok_def new_server_def word_less_nat_alt word_unat_eq_iff)

interpretation ported: server_safety "\<lambda>s. port_ok (s_port s)" w for w
proof
  fix c sz os s
  assume "fz_server_create c sz os w = Inr s"
  then show "port_ok (s_port s)" by (elim create_Inr) (simp add: port_new_server)
qed (simp_all add: fz_server_close_def poll_wait_def summary_player_def update_player_def Let_def)

text \<open>What a status says of a server in use.\<close>

lemma status_ranges:
  assumes "reachable w s"
  defines "st \<equiv> fst (fz_server_get_status s)"
  shows "st_session st \<noteq> 0" "port_ok (st_port st)" "st_phase st \<le> 4" "st_occupied st \<le> 4"
    "st_players st \<in> {2..4}" "st_track st \<le> 4" "st_league st \<le> 2"
proof -
  have inv: "server_inv s" by (rule room.I_reachable [OF assms(1)])
  have st: "st_session st = s_session s" "st_port st = s_port s" "st_phase st = unat (s_phase s)"
      "st_occupied st = count s" "st_players st = unat (s_expected s)" "st_track st = unat (s_track s)"
      "st_league st = unat (s_league s)"
    by (simp_all add: st_def fz_server_get_status_def Let_def case_prod_beta)
  show "st_session st \<noteq> 0" "port_ok (st_port st)"
    using identified.I_reachable [OF assms(1)] ported.I_reachable [OF assms(1)] st by simp_all
  show "st_phase st \<le> 4" "st_occupied st \<le> 4" "st_players st \<in> {2..4}" "st_track st \<le> 4" "st_league st \<le> 2"
    using inv st by (auto simp: server_inv_def room_ok_def word_less_nat_alt word_le_nat_alt)
qed

lemma reply_accepted:
  fixes host :: HostOptions and nonce :: u64
  assumes "reachable w s"
  defines "st \<equiv> fst (fz_server_get_status s)"
  defines "b \<equiv> reply_bytes st host (query_bytes nonce)"
  shows "valid_reply nonce b" "room_of now b src = announced st host now src" "take 257 b = b"
proof -
  note ranges = status_ranges [OF assms(1), folded st_def]
  have q: "length (take 8 (drop 8 (query_bytes nonce))) = 8" by (simp add: query_valid le64.length_put)
  note F = reply_fields [OF q, of st host, folded b_def]
  have nonce: "fz_u64 (drop 8 b) = nonce" using F(6) by (simp add: query_valid le64.get_put_exact)
  have port: "unat (fz_u16 (drop 24 b)) = st_port st" "port_ok (unat (fz_u16 (drop 24 b)))"
    using ranges(2) F(8) by (simp_all add: port_ok_def unsigned_of_nat take_bit_nat_eq_self)
  have u: "unat (b ! 26) = st_phase st" "unat (b ! 27) = st_occupied st" "unat (b ! 28) = st_players st"
      "unat (b ! 29) = st_track st" "unat (b ! 30) = st_league st"
    using ranges by (simp_all add: F unsigned_of_nat take_bit_nat_eq_self)
  have "fz_u16 (drop 24 b) \<noteq> 0 \<and> fz_u16 (drop 24 b) \<noteq> 12001"
    using port(2) by (auto simp: port_ok_def)
  then show "valid_reply nonce b"
    using ranges u F(14)
    by (simp add: valid_reply_def nonce F(1-4,7) word_less_nat_alt)
  show "room_of now b src = announced st host now src"
    using u port(1) by (simp add: room_of_def announced_def F(5,7,14,15))
  show "take 257 b = b" using F(1) by simp
qed

lemma add_room_mem: "length rooms < 64 \<Longrightarrow> r \<in> set (add_room r rooms)"
proof -
  have "replace_room r rooms = Some rooms' \<Longrightarrow> r \<in> set rooms'" for rooms'
    by (induction rooms arbitrary: rooms') (auto split: if_splits)
  then show "length rooms < 64 \<Longrightarrow> r \<in> set (add_room r rooms)"
    by (auto simp: add_room_def split: option.split)
qed

lemma one_answer:
  assumes "answers st host (take 257 b) peer"
  shows "ds_sent (advertise_loop os st host 32 [Received b peer] d)
    = ds_sent d @ [(peer, reply_bytes st host (take 257 b))]"
  using advertise_loop.simps(1) [of os st host 31 b peer "[]" d] assms
  by (simp add: send_reply_def host_failure_def Let_def)

lemma one_reply:
  assumes "valid_reply (ds_nonce d) (take 257 b)"
  shows "fst (collect os now 64 [Received b src] rooms d) = add_room (room_of now (take 257 b) src) rooms"
  using collect.simps(1) [of os now 63 b src "[]" rooms d] assms by (simp add: Let_def)

lemma scan_one:
  assumes "0 \<le> ds_query d" and "now - ds_lastQuery d < 2000" and "do_recv os = [Received b src]"
    and "valid_reply (ds_nonce d) (take 257 b)"
  shows "fst (scan os now rooms warning d)
    = filter (unexpired now) (add_room (room_of now (take 257 b) src) rooms)"
proof -
  let ?d = "if ds_browseStarted d = 0 then d\<lparr>ds_browseStarted := now\<rparr> else d"
  have d: "ds_query ?d = ds_query d" "ds_lastQuery ?d = ds_lastQuery d" "ds_nonce ?d = ds_nonce d" by simp_all
  have "\<not> 2000 \<le> now - ds_lastQuery d" using assms(2) by (simp add: not_le)
  then have "fst (scan os now rooms warning d) = filter (unexpired now) (fst (collect os now 64 (do_recv os) rooms ?d))"
    using assms(1) d by (simp add: scan_def scan_open_def Let_def case_prod_beta)
  then show ?thesis using one_reply [of ?d b os now src rooms] assms(3,4) d by simp
qed

lemma fmt_u_port: "port_ok p \<Longrightarrow> \<not> bad_port (fmt_u p) \<and> fmt_u p \<noteq> []"
proof -
  assume p: "port_ok p"
  have "length (fmt_u n) \<le> 5" if "n < 100000" for n
    using that by (simp add: fmt_u.simps [of n] fmt_u.simps [of "n div 10"] fmt_u.simps [of "n div 100"]
        fmt_u.simps [of "n div 1000"] fmt_u.simps [of "n div 10000"] div_mult2_eq [symmetric])
  then show "\<not> bad_port (fmt_u p) \<and> fmt_u p \<noteq> []"
    using p fmt_u_digits [of p] by (auto simp: good_port port_ok_def list_all_iff)
qed

lemma digit_not_blank: "is_digit c \<Longrightarrow> \<not> blank c"
  by (auto simp: is_digit_def blank_def)

lemma trim_id: "cs \<noteq> [] \<Longrightarrow> \<not> blank (hd cs) \<Longrightarrow> \<not> blank (last cs) \<Longrightarrow> trim cs = cs"
proof -
  assume cs: "cs \<noteq> []" "\<not> blank (hd cs)" "\<not> blank (last cs)"
  then have "dropWhile blank cs = cs" "dropWhile blank (rev cs) = rev cs"
    by (simp_all add: dropWhile_eq_self_iff hd_rev)
  then show "trim cs = cs" by (simp add: trim_def)
qed

lemma listed_address_resolves:
  assumes "port_ok p"
  shows "lookup_target (inet_ntoa a @ '':'' @ fmt_u p) = Inr (inet_ntoa a, fmt_u p)"
proof -
  have u: "fmt_u n \<noteq> []" "is_digit (hd (fmt_u n))" "is_digit (last (fmt_u n))" for n
    using fmt_u_digits [of n] by simp_all
  have "trim (inet_ntoa a @ '':'' @ fmt_u p) = inet_ntoa a @ '':'' @ fmt_u p"
    by (rule trim_id) (simp_all add: inet_ntoa_def u digit_not_blank)
  moreover have "inet_ntoa a \<noteq> []" by (simp add: inet_ntoa_def)
  ultimately show ?thesis using fmt_u_port [OF assms] by (simp add: lookup_target_iff)
qed

text \<open>
  C9. What a host announces is what a browser lists: a hosted server whose owner is in the room
  answers a query that reaches it with exactly one reply, a browser that sent the query and has
  room in its list then lists the room with the server's session, phase, players, track and league,
  the name as far as it is printable, whether there is a password, and an address that the address
  entry accepts as that host and port. A room bound to the loopback interface answers only there.
\<close>

theorem discovery_round_trip:
  assumes "reachable w s" and "st = fst (fz_server_get_status s)"
    and "st_owner_joined st" and "\<not> st_closed st" and "0 \<le> ds_listener h"
    and "take 4 (ho_bind host) = ''127.'' \<longrightarrow> drop_bit 24 (sin_addr peer) = 127"
    and "do_recv os = [Received (query_bytes nonce) peer]"
  shows "\<exists>reply. ds_sent (advertise os st host h) = ds_sent h @ [(peer, reply)]
    \<and> (\<forall>os' b src now rooms warning. 0 \<le> ds_query b \<and> ds_nonce b = nonce \<and> now - ds_lastQuery b < 2000
        \<and> do_recv os' = [Received reply src] \<and> length rooms < 64
        \<longrightarrow> announced st host now src \<in> set (fst (scan os' now rooms warning b))
          \<and> lookup_target (rm_address (announced st host now src))
            = Inr (inet_ntoa (sin_addr src), fmt_u (s_port s)))"
proof -
  let ?reply = "reply_bytes st host (query_bytes nonce)"
  have ok: "valid_reply nonce ?reply" "room_of now ?reply src = announced st host now src"
      "take 257 ?reply = ?reply" for now src
    using reply_accepted(1,3) [OF assms(1), where host = host and nonce = nonce] reply_accepted(2) [OF assms(1)] assms(2)
    by simp_all
  have "answers st host (take 257 (query_bytes nonce)) peer"
    using assms(3,4,6) by (auto simp: answers_def query_valid)
  then have "ds_sent (advertise os st host h) = ds_sent h @ [(peer, ?reply)]"
    using one_answer [of st host "query_bytes nonce" peer os h] assms(5,7)
    by (simp add: advertise_def query_valid)
  moreover have "announced st host now src \<in> set (fst (scan os' now rooms warning b))"
    if "0 \<le> ds_query b" "ds_nonce b = nonce" "now - ds_lastQuery b < 2000"
      "do_recv os' = [Received ?reply src]" "length rooms < 64" for os' b src now rooms warning
    using scan_one [OF that(1,3,4)] add_room_mem [OF that(5)] ok that(2)
    by (simp add: unexpired_def announced_def)
  moreover have "lookup_target (rm_address (announced st host now src))
      = Inr (inet_ntoa (sin_addr src), fmt_u (s_port s))" for now src
    using listed_address_resolves [OF ported.I_reachable [OF assms(1)]] assms(2)
    by (simp add: announced_def fz_server_get_status_def Let_def case_prod_beta)
  ultimately show ?thesis by blast
qed

end
