(* ===== verification/Fz_Session_Props.thy ===== *)
theory Fz_Session_Props
  imports Fz_Session_Inv Fz_Discovery_Props Fz_Server_Witness
begin

text \<open>
  The size of what a session keeps: its queue of requests, its log and its list of rooms stay
  bounded in every interleaving. The end of the theory has the concrete runs on which the theorems
  on sessions are applied.
\<close>

section \<open>Bounded views\<close>

definition view_ok :: "SessionView \<Rightarrow> bool" where
  "view_ok v \<longleftrightarrow> length (sv_events v) \<le> 512 \<and> rooms_ok (sv_rooms v)"

lemma rooms_ok_Nil [simp]: "rooms_ok []"
  by (simp add: rooms_ok_def)

lemma view_updates [simp]:
  "view_ok (v\<lparr>sv_state := a1\<rparr>) = view_ok v" "view_ok (v\<lparr>sv_message := a2\<rparr>) = view_ok v"
  "view_ok (v\<lparr>sv_discoveryWarning := a3\<rparr>) = view_ok v" "view_ok (v\<lparr>sv_addresses := a4\<rparr>) = view_ok v"
  "view_ok (v\<lparr>sv_discovery := a5\<rparr>) = view_ok v" "view_ok (v\<lparr>sv_hosting := a6\<rparr>) = view_ok v"
  "view_ok (v\<lparr>sv_generation := a7\<rparr>) = view_ok v" "view_ok (v\<lparr>sv_server := a8\<rparr>) = view_ok v"
  by (simp_all add: view_ok_def)

lemma state_set_view [simp]: "wk_state (set_view f k) = f (wk_state k)"
  by (simp add: set_view_def)

lemma state_setters [simp]:
  "view_ok (wk_state (set_state st k)) = view_ok (wk_state k)"
  "view_ok (wk_state (set_message m k)) = view_ok (wk_state k)"
  by (simp_all add: set_state_def set_message_def)

lemma view_push_event [simp]: "view_ok (wk_state k) \<Longrightarrow> view_ok (wk_state (push_event e k))"
  by (auto simp: push_event_def view_ok_def)

lemma view_note_event [simp]: "view_ok (wk_state k) \<Longrightarrow> view_ok (wk_state (note_event e k))"
  using view_push_event [of k e] by (simp add: note_event_def Let_def)

lemma view_drain [simp]: "view_ok (wk_state k) \<Longrightarrow> view_ok (wk_state (drain_session k))"
proof -
  have "view_ok (wk_state k) \<Longrightarrow> view_ok (wk_state (fold note_event es k))" for es
    by (induction es arbitrary: k) simp_all
  then show "view_ok (wk_state k) \<Longrightarrow> view_ok (wk_state (drain_session k))"
    by (simp add: drain_session_def case_prod_beta Let_def split: option.split)
qed

lemma view_stopServer [simp]: "view_ok (wk_state k) \<Longrightarrow> view_ok (wk_state (stopServer k))"
  by (simp add: stopServer_def Let_def split: option.split)

lemma view_fail [simp]: "view_ok (wk_state k) \<Longrightarrow> view_ok (wk_state (fail m k))"
  by (simp add: fail_def)

lemma view_start_host [simp]:
  "view_ok (wk_state k) \<Longrightarrow> view_ok (wk_state (snd (start_host os h s k)))"
  by (simp add: start_host_def Let_def split: sum.split)

lemma view_run_request:
  "view_ok (wk_state k) \<Longrightarrow> run_request os c s l k = (s', l', k') \<Longrightarrow> view_ok (wk_state k')"
  using view_start_host [of "set_view (\<lambda>v. v\<lparr>sv_generation := cm_generation c, sv_message := [], sv_state := ''idle''\<rparr>)
      ((stopServer k)\<lparr>wk_operation := cm_generation c\<rparr>)" os "cm_host c" s]
  by (auto simp: run_request_def start_join_def Let_def case_prod_beta split: if_splits prod.splits)

lemma view_check_lookup: "view_ok (wk_state k) \<Longrightarrow> view_ok (wk_state (snd (check_lookup l s k)))"
  by (simp add: check_lookup_def Let_def split: option.split)

lemma view_listen [simp]: "view_ok (wk_state (session_listen os now k)) = view_ok (wk_state k)"
  by (simp add: session_listen_def split: prod.split)

lemma view_serve_room: "view_ok (wk_state k) \<Longrightarrow> view_ok (wk_state (serve_room os k))"
proof -
  have announce: "view_ok (wk_state (announce os k)) = view_ok (wk_state k)" for k
    by (simp add: announce_def Let_def)
  have ready: "view_ok (wk_state k) \<Longrightarrow> view_ok (wk_state (become_ready os k))" for k
    by (simp add: become_ready_def Let_def)
  show "view_ok (wk_state k) \<Longrightarrow> view_ok (wk_state (serve_room os k))"
    by (simp add: serve_room_def Let_def case_prod_beta announce ready split: option.split)
qed

lemma view_reports:
  "view_ok (wk_state k) \<Longrightarrow> view_ok (wk_state (report_failure os k))"
  "view_ok (wk_state k) \<Longrightarrow> view_ok (wk_state (report_discovery os s k))"
  by (simp_all add: report_failure_def report_discovery_def Let_def)

lemma rooms_ok_expire: "rooms_ok rooms \<Longrightarrow> rooms_ok (expire_rooms os rooms)"
proof -
  assume ok: "rooms_ok rooms"
  have "\<exists>P. expire_rooms os rooms = map snd (filter P (enumerate 0 rooms))" by (auto simp: expire_rooms_def)
  then obtain P where P: "expire_rooms os rooms = map snd (filter P (enumerate 0 rooms))" by blast
  have "map (rm_session \<circ> snd) (enumerate 0 rooms) = map rm_session rooms"
    by (metis map_map map_snd_enumerate)
  then have "distinct (map (rm_session \<circ> snd) (filter P (enumerate 0 rooms)))"
    using ok by (metis distinct_map_filter rooms_ok_def)
  moreover have "set (expire_rooms os rooms) \<subseteq> set rooms"
    using map_snd_enumerate [of 0 rooms] unfolding P by (metis filter_is_subset image_mono set_map)
  moreover have "length (expire_rooms os rooms) \<le> length rooms"
    unfolding P by (metis length_enumerate length_filter_le length_map)
  ultimately show "rooms_ok (expire_rooms os rooms)"
    using ok by (auto simp: rooms_ok_def list_all_iff P)
qed

lemma view_browse_rooms: "view_ok (wk_state k) \<Longrightarrow> view_ok (wk_state (browse_rooms os s k))"
  using rooms_ok_scan [of "sv_rooms (wk_state k)"]
  by (simp add: browse_rooms_def Let_def case_prod_beta view_ok_def rooms_ok_expire)

section \<open>Bounds in every run\<close>

definition bounded :: "System \<Rightarrow> bool" where
  "bounded y \<longleftrightarrow> length (ss_commands (sy_session y)) \<le> 8 \<and> view_ok (ss_published (sy_session y))
     \<and> (sy_pc y \<notin> {Absent, Starting} \<longrightarrow> view_ok (wk_state (sy_worker y)))
     \<and> length (lk_running (sy_lookups y)) \<le> 4 \<and> length (pending (sy_pc y)) \<le> 8"

lemma enqueue_bounded: "bounded y \<Longrightarrow> bounded (submit (enqueue c) y)"
  by (auto simp: bounded_def submit_def enqueue_def Let_def)

lemma session_frame [simp]:
  "ss_published (offer c k s) = ss_published s"
  "ss_published (fst (start_host os h s k)) = ss_published s" "ss_commands (fst (start_host os h s k)) = ss_commands s"
  "ss_published (fst (check_lookup l s k)) = ss_published s" "ss_commands (fst (check_lookup l s k)) = ss_commands s"
  by (simp_all add: offer_def start_host_def check_lookup_def Let_def split: sum.split option.split)

lemma run_request_frame:
  "run_request os c s l k = (s', l', k') \<Longrightarrow> ss_published s' = ss_published s \<and> ss_commands s' = ss_commands s"
  by (auto simp: run_request_def Let_def case_prod_beta split: if_splits prod.splits)

lemma resolve_limit: "resolve a n thread = (r, m, Some target) \<Longrightarrow> n < 4"
  by (auto simp: resolve_def Let_def split: sum.splits if_splits option.splits)

lemma start_join_limit:
  "length (lk_running l) \<le> 4 \<Longrightarrow> length (lk_running (fst (start_join os a key l k))) \<le> 4"
  using resolve_limit [of a "length (lk_running l)" "so_thread os"]
  by (auto simp: start_join_def split: option.split prod.split)

lemma run_request_limit:
  "length (lk_running l) \<le> 4 \<Longrightarrow> run_request os c s l k = (s', l', k') \<Longrightarrow> length (lk_running l') \<le> 4"
  using start_join_limit [of l os "cm_address c" "cm_key c"]
  by (auto simp: run_request_def Let_def case_prod_beta split: if_splits prod.splits) (metis fst_conv)+

lemma worker_bounded:
  assumes "bounded y"
  shows "bounded (worker_step os y)"
proof (cases "sy_pc y")
  case (Handling cs)
  show ?thesis
  proof (cases cs)
    case (Cons c cs')
    obtain s' l' k' where r: "run_request os c (sy_session y) (sy_lookups y) (sy_worker y) = (s', l', k')"
      by (cases "run_request os c (sy_session y) (sy_lookups y) (sy_worker y)")
    then show ?thesis
      using assms Handling Cons view_run_request [OF _ r] run_request_frame [OF r] run_request_limit [OF _ r]
      by (simp add: worker_step_def bounded_def pending_def)
  qed (use assms Handling in \<open>simp add: worker_step_def bounded_def pending_def\<close>)
next
  case Top
  then show ?thesis
    using assms by (simp add: worker_step_def bounded_def pending_def take_commands_def finish_def Let_def)
next
  case (Retrying cs)
  then show ?thesis
    using assms by (simp add: worker_step_def bounded_def pending_def take_retry_def Let_def) (simp add: view_ok_def)
next
  case Publishing
  then show ?thesis
    using assms by (simp add: worker_step_def bounded_def pending_def publish_view_def Let_def)
next
  case Starting
  then show ?thesis
    using assms by (simp add: worker_step_def bounded_def pending_def new_worker_def zero_view_def view_ok_def)
qed (use assms in \<open>simp_all add: worker_step_def bounded_def pending_def Let_def case_prod_beta
    view_check_lookup view_serve_room view_reports view_browse_rooms\<close>)

lemma step_bounded:
  assumes "step y y'" and "bounded y"
  shows "bounded y'"
  using assms
proof (induction rule: step.induct)
  case (host y h)
  then show ?case unfolding host_def by (rule enqueue_bounded)
next
  case (join y address key)
  then show ?case unfolding join_def by (rule enqueue_bounded)
next
  case (stop y)
  then show ?case unfolding stop_def by (rule enqueue_bounded)
next
  case (worker y os)
  then show ?case by (rule worker_bounded)
next
  case (start y thread)
  then show ?case by (auto simp: bounded_def pending_def Fz_Session.start_def Let_def split: option.split)
qed (auto simp: bounded_def browse_def retryDiscovery_def connected_def takeConnection_def length_remove1
    shutdown_ask_def shutdown_join_def pending_def)

lemma runs_bounded: "runs y \<Longrightarrow> bounded y"
proof (induction rule: runs.induct)
  case (begun k l)
  then show ?case
    by (simp add: bounded_def initial_def zero_session_def zero_view_def view_ok_def pending_def)
qed (rule step_bounded)

text \<open>
  C21. In every interleaving of the front end, the worker and the lookups, at most eight requests
  wait, the published log and the worker's have at most 512 events, and the lists of rooms have at
  most 64 entries, of different sessions, each with fields in range and a printable name. At most
  four address lookups run at a time.
\<close>

theorem session_bounded:
  assumes "runs y"
  shows "length (ss_commands (sy_session y)) \<le> 8 \<and> view_ok (Session_view (sy_session y))
    \<and> (sy_pc y \<notin> {Absent, Starting} \<longrightarrow> view_ok (wk_state (sy_worker y)))
    \<and> length (lk_running (sy_lookups y)) \<le> 4"
  using runs_bounded [OF assms] by (simp add: bounded_def Session_view_def)

end
