(* ===== verification/Fz_Session_Shutdown.thy ===== *)
theory Fz_Session_Shutdown
  imports Fz_Session_Props
begin

text \<open>
  Shutting a session down: \<open>shutdown\<close> waits for the worker, so the worker has to end whatever the
  other threads call meanwhile and whatever the operating system answers.
\<close>

section \<open>The thread and its flags\<close>

text \<open>The steps the worker has left before it sees that it has to end.\<close>

fun turns_left :: "pc \<Rightarrow> nat" where
  "turns_left Absent = 0"
| "turns_left Gone = 0"
| "turns_left Top = 1"
| "turns_left Starting = 2"
| "turns_left Publishing = 2"
| "turns_left Discovering = 3"
| "turns_left Browsing = 4"
| "turns_left Reporting = 5"
| "turns_left Serving = 6"
| "turns_left Looking = 7"
| "turns_left (Handling cs) = 8 + length cs"
| "turns_left (Retrying cs) = 9 + length cs"

lemma turns_left_0: "turns_left p = 0 \<longleftrightarrow> p \<in> {Absent, Gone}"
  by (cases p) simp_all

lemma turns_left_bound: "turns_left p \<le> 9 + length (pending p)"
  by (cases p) (simp_all add: pending_def)

definition flags :: "Session \<Rightarrow> bool \<times> bool" where
  "flags s = (ss_worker s, ss_quitting s)"

lemma flags_pieces [simp]:
  "flags (offer c k s) = flags s" "flags (fst (start_host os h s k)) = flags s"
  "flags (fst (check_lookup l s k)) = flags s" "flags (fst (take_retry os s k)) = flags s"
  "flags (fst (publish_view os s k)) = flags s" "flags (fst (finish s k)) = flags s"
  "flags (snd (take_commands s)) = flags s" "flags (snd (enqueue q s)) = flags s"
  "flags (connected s) = flags s" "flags (snd (takeConnection s)) = flags s"
  "flags (browse b s) = flags s" "flags (retryDiscovery s) = flags s"
  by (simp_all add: flags_def offer_def start_host_def check_lookup_def take_retry_def publish_view_def
      finish_def take_commands_def enqueue_def connected_def takeConnection_def browse_def
      retryDiscovery_def Let_def split: sum.split option.split)

lemma flags_run_request [simp]: "flags (fst (run_request os c s l k)) = flags s"
  by (simp add: run_request_def Let_def case_prod_beta)

lemma flags_submit [simp]:
  "flags (sy_session (submit (enqueue c) y)) = flags (sy_session y)" "sy_pc (submit (enqueue c) y) = sy_pc y"
  "sy_worker (submit (enqueue c) y) = sy_worker y"
  by (simp_all add: submit_def case_prod_beta)

lemma flags_worker [simp]: "flags (sy_session (worker_step os y)) = flags (sy_session y)"
  by (auto simp: worker_step_def Let_def case_prod_beta split: pc.split list.split)

lemma finish_server [simp]: "wk_server (snd (finish s k)) = None"
  by (simp add: finish_def Let_def set_state_def set_view_def stopServer_def split: option.split)

section \<open>A session that is shut down\<close>

definition shutting :: "System \<Rightarrow> bool" where
  "shutting y \<longleftrightarrow> flags (sy_session y) = (True, True) \<and> sy_pc y \<noteq> Absent
     \<and> (sy_pc y = Gone \<longrightarrow> wk_server (sy_worker y) = None)"

text \<open>
  While \<open>shutdown\<close> waits: steps of all threads, and how many of them the worker itself has made.
  Nothing is looked at after the worker has ended.
\<close>

inductive waiting :: "System \<Rightarrow> nat \<Rightarrow> System \<Rightarrow> bool" for y where
  asked: "waiting y 0 y"
| other: "waiting y n z \<Longrightarrow> sy_pc z \<noteq> Gone \<Longrightarrow> step z z' \<Longrightarrow> waiting y n z'"
| work: "waiting y n z \<Longrightarrow> sy_pc z \<noteq> Gone \<Longrightarrow> waiting y (Suc n) (worker_step os z)"

lemma worker_step_shutting:
  assumes "shutting y" and "sy_pc y \<noteq> Gone"
  shows "shutting (worker_step os y) \<and> turns_left (sy_pc (worker_step os y)) < turns_left (sy_pc y)"
  using assms flags_worker [of os y]
  by (cases "sy_pc y")
    (auto simp: shutting_def worker_step_def Let_def case_prod_beta flags_def split: list.split prod.split)

lemma step_shutting:
  assumes "step y y'" and "shutting y" and "sy_pc y \<noteq> Gone"
  shows "shutting y' \<and> turns_left (sy_pc y') \<le> turns_left (sy_pc y)"
  using assms
proof (induction rule: step.induct)
  case (worker y os)
  then show ?case using worker_step_shutting [of y os] by simp
next
  case (start y thread)
  then show ?case by (simp add: shutting_def flags_def Fz_Session.start_def)
qed (simp_all add: shutting_def host_def join_def stop_def, simp add: flags_def shutdown_ask_def)

lemma waiting_shutting:
  assumes "waiting y n z" and "shutting y"
  shows "shutting z \<and> n + turns_left (sy_pc z) \<le> turns_left (sy_pc y)"
  using assms
proof (induction rule: waiting.induct)
  case (other n z z')
  then show ?case using step_shutting [of z z'] by simp
next
  case (work n z os)
  then show ?case using worker_step_shutting [of z os] by simp
qed simp

text \<open>A worker that can be joined is somewhere in its loop, and one that has ended has closed its room.\<close>

definition threaded :: "System \<Rightarrow> bool" where
  "threaded y \<longleftrightarrow> (ss_worker (sy_session y) \<longleftrightarrow> sy_pc y \<noteq> Absent)
     \<and> (sy_pc y = Gone \<longrightarrow> wk_server (sy_worker y) = None)"

lemma worker_threaded:
  assumes "threaded y"
  shows "threaded (worker_step os y)"
  using assms flags_worker [of os y]
  by (cases "sy_pc y")
    (auto simp: threaded_def worker_step_def Let_def case_prod_beta flags_def split: list.split prod.split)

lemma step_threaded:
  assumes "step y y'" and "threaded y"
  shows "threaded y'"
  using assms
proof (induction rule: step.induct)
  case (worker y os)
  then show ?case by (simp add: worker_threaded)
next
  case (start y thread)
  then show ?case by (auto simp: threaded_def Fz_Session.start_def Let_def split: option.split)
next
  case (joined y)
  then show ?case by (simp add: threaded_def shutdown_join_def)
qed (use flags_submit in \<open>auto simp: threaded_def flags_def host_def join_def stop_def browse_def retryDiscovery_def
    connected_def takeConnection_def shutdown_ask_def\<close>)

lemma runs_threaded: "runs y \<Longrightarrow> threaded y"
proof (induction rule: runs.induct)
  case (begun k l)
  show ?case by (simp add: threaded_def initial_def zero_session_def)
qed (rule step_threaded)

text \<open>
  C22. Once \<open>shutdown\<close> has asked a running worker to end, the worker makes at most seventeen
  more steps, whatever the other threads call in between, and after seventeen it has ended; the room
  it hosted is closed then, so the wait of \<open>shutdown\<close> is over and nothing is left running.
\<close>

theorem shutdown_ends:
  assumes "runs y" and "ss_worker (sy_session y)"
    and "waiting (y\<lparr>sy_session := shutdown_ask (sy_session y)\<rparr>) n z"
  shows "n \<le> 17 \<and> (n = 17 \<longrightarrow> sy_pc z = Gone) \<and> (sy_pc z = Gone \<longrightarrow> wk_server (sy_worker z) = None)"
proof -
  let ?y = "y\<lparr>sy_session := shutdown_ask (sy_session y)\<rparr>"
  have "shutting ?y"
    using runs_threaded [OF assms(1)] assms(2)
    by (simp add: threaded_def shutting_def flags_def shutdown_ask_def)
  from waiting_shutting [OF assms(3) this] have z: "shutting z" "n + turns_left (sy_pc z) \<le> turns_left (sy_pc y)"
    by simp_all
  have "turns_left (sy_pc y) \<le> 17"
    using runs_bounded [OF assms(1)] turns_left_bound [of "sy_pc y"] by (simp add: bounded_def)
  then show ?thesis
    using z turns_left_0 [of "sy_pc z"] by (auto simp: shutting_def)
qed

end
