(* ===== verification/Fz_Session_Witness.thy ===== *)
theory Fz_Session_Witness
  imports Fz_Session_Shutdown
begin

text \<open>Concrete runs of a session, a host and a browser, on which the theorems are applied.\<close>

section \<open>A session that joins a room\<close>

definition sample_discovery_os :: discovery_os where
  "sample_discovery_os = \<lparr>do_networks = [INADDR_LOOPBACK], do_udp = 4, do_bind = True, do_member = \<lambda>_. True,
     do_responder = 5, do_reply_bind = True, do_options = True, do_nonce = 9, do_interface = \<lambda>_. True,
     do_query_sent = \<lambda>_. True, do_reply_sent = \<lambda>_. True, do_errno = \<lambda>_. 0, do_strerror = \<lambda>_. [],
     do_recv = []\<rparr>"

definition sample_session_os :: session_os where
  "sample_session_os = \<lparr>so_clock = \<lambda>_. 0, so_nonce = 9, so_setup = sample_os, so_io = sample_io,
     so_log_ok = True, so_thread = None, so_poll = \<lparr>pe_poll_error = None, pe_recv = []\<rparr>,
     so_ready_open = True, so_ready_written = True, so_discovery = sample_discovery_os\<rparr>"

definition sample_lookups :: Lookups where
  "sample_lookups = \<lparr>lk_results = \<lambda>_. \<lparr>rs_done = False, rs_address = [], rs_error = []\<rparr>, lk_running = [],
     lk_next = 0\<rparr>"

definition sample_begun :: System where
  "sample_begun = initial (new_worker sample_session_os zero_session) sample_lookups"

definition sample_started :: System where
  "sample_started = sample_begun\<lparr>sy_session := Fz_Session.start None (sy_session sample_begun), sy_pc := Starting\<rparr>"

definition sample_asked :: System where
  "sample_asked = submit (join ''10.0.0.1'' ''key'') sample_started"

text \<open>The worker starts, takes the request over, and begins the lookup.\<close>

definition sample_looking :: System where
  "sample_looking = (worker_step sample_session_os ^^ 5) sample_asked"

definition sample_found :: System where
  "sample_found = sample_looking\<lparr>sy_lookups := (sy_lookups sample_looking)\<lparr>
     lk_results := (lk_results (sy_lookups sample_looking))
       (0 := resolved ''12000'' (Inr ''10.0.0.1'') (lk_results (sy_lookups sample_looking) 0)),
     lk_running := remove1 (0, ''10.0.0.1'', ''12000'') (lk_running (sy_lookups sample_looking))\<rparr>\<rparr>"

definition sample_offered :: System where
  "sample_offered = worker_step sample_session_os sample_found"

lemma sample_target: "lookup_target ''10.0.0.1'' = Inr (''10.0.0.1'', ''12000'')"
  by (simp add: lookup_target_def trim_def blank_def before_last_colon_def after_last_colon_def
      bad_port_def is_digit_def digits_value_def)

lemma funpow_5: "(f ^^ 5) x = f (f (f (f (f x))))"
  by (simp add: numeral_eq_Suc)

lemmas sample_step = worker_step_def Let_def sample_asked_def sample_started_def sample_begun_def
  initial_def zero_session_def Fz_Session.start_def submit_def join_def enqueue_def new_worker_def
  take_commands_def take_retry_def run_request_def start_join_def stopServer_def set_view_def
  set_state_def resolve_def sample_target sample_session_os_def sample_lookups_def

lemma sample_running:
  "sy_pc sample_looking = Looking" "lk_running (sy_lookups sample_looking) = [(0, ''10.0.0.1'', ''12000'')]"
  "length (sy_requests sample_looking) = 1" "wk_resolution (sy_worker sample_looking) = Some 0"
  "wk_operation (sy_worker sample_looking) = 1" "ss_generation (sy_session sample_looking) = 1"
  "wk_joinKey (sy_worker sample_looking) = ''key''"
  "lk_results (sy_lookups sample_looking) 0 = \<lparr>rs_done = False, rs_address = [], rs_error = []\<rparr>"
  unfolding sample_looking_def funpow_5 by (simp_all add: sample_step)

lemma runs_worker: "runs y \<Longrightarrow> runs ((worker_step os ^^ n) y)"
  by (induction n) (auto intro: runs.stepped step.worker)

lemma sample_started_runs: "runs sample_started"
proof -
  have "runs sample_begun" unfolding sample_begun_def by (rule runs.begun)
  moreover have "step sample_begun sample_started"
    using step.start [of sample_begun None]
    by (simp add: sample_started_def) (simp add: sample_begun_def initial_def zero_session_def)
  ultimately show ?thesis by (rule runs.stepped)
qed

lemma sample_runs: "runs sample_offered"
proof -
  have "runs sample_asked"
    unfolding sample_asked_def by (rule runs.stepped [OF sample_started_runs step.join])
  then have "runs sample_looking" unfolding sample_looking_def by (rule runs_worker)
  moreover have "step sample_looking sample_found"
    unfolding sample_found_def by (rule step.lookup) (simp add: sample_running)
  ultimately have "runs sample_found" by (rule runs.stepped)
  then show ?thesis unfolding sample_offered_def by (rule runs.stepped [OF _ step.worker])
qed

lemma sample_offer:
  "fst (takeConnection (sy_session sample_offered)) =
     Some \<lparr>cn_address = ''10.0.0.1:12000'', cn_key = ''key'', cn_ownerNonce = 0, cn_generation = 1\<rparr>"
  "length (sy_requests sample_offered) = 1"
  by (simp_all add: sample_offered_def sample_found_def worker_step_def check_lookup_def Let_def
      sample_running resolved_def offer_def takeConnection_def)

theorem connection_newest_witness:
  "answer_to (last (sy_requests sample_offered))
     \<lparr>cn_address = ''10.0.0.1:12000'', cn_key = ''key'', cn_ownerNonce = 0, cn_generation = 1\<rparr>"
  using connection_newest [OF sample_runs _ sample_offer(1)] by (simp add: sample_offer(2))

theorem session_bounded_witness: "view_ok (Session_view (sy_session sample_offered))"
  using session_bounded [OF sample_runs] by blast

text \<open>The worker of the session that has just started is asked to end, and a request comes in meanwhile.\<close>

definition sample_closing :: System where
  "sample_closing = worker_step sample_session_os (submit (join ''10.0.0.1'' ''key'')
     (worker_step sample_session_os (sample_started\<lparr>sy_session := shutdown_ask (sy_session sample_started)\<rparr>)))"

lemma sample_waiting:
  "waiting (sample_started\<lparr>sy_session := shutdown_ask (sy_session sample_started)\<rparr>) 2 sample_closing"
proof -
  let ?y = "sample_started\<lparr>sy_session := shutdown_ask (sy_session sample_started)\<rparr>"
  have "waiting ?y (Suc 0) (worker_step sample_session_os ?y)"
    by (rule waiting.work [OF waiting.asked]) (simp add: sample_started_def)
  then have "waiting ?y (Suc 0) (submit (join ''10.0.0.1'' ''key'') (worker_step sample_session_os ?y))"
    by (rule waiting.other [OF _ _ step.join]) (simp add: worker_step_def sample_started_def Let_def)
  then have "waiting ?y (Suc (Suc 0)) sample_closing"
    unfolding sample_closing_def
    by (rule waiting.work) (simp add: join_def worker_step_def sample_started_def Let_def)
  then show ?thesis by (simp add: numeral_2_eq_2)
qed

lemma sample_closed: "sy_pc sample_closing = Gone"
  by (simp add: sample_closing_def shutdown_ask_def sample_step case_prod_beta)

theorem shutdown_ends_witness: "sy_pc sample_closing = Gone \<and> wk_server (sy_worker sample_closing) = None"
  using shutdown_ends [OF sample_started_runs _ sample_waiting] sample_closed
  by (simp add: sample_started_def Fz_Session.start_def sample_begun_def initial_def zero_session_def)

section \<open>A room that is found\<close>

definition sample_discovery :: Discovery where
  "sample_discovery = (new_discovery sample_discovery_os)\<lparr>ds_listener := 4, ds_query := 6, ds_nonce := 9\<rparr>"

lemma hosted_status: "st_owner_joined (fst (fz_server_get_status sample_hosted))"
    "\<not> st_closed (fst (fz_server_get_status sample_hosted))"
  by (simp_all add: fz_server_get_status_def Let_def case_prod_beta sample_hosted)

theorem discovery_round_trip_witness:
  "\<exists>reply. announced (fst (fz_server_get_status sample_hosted)) default_host 0 sample_address
     \<in> set (fst (scan (sample_discovery_os\<lparr>do_recv := [Received reply sample_address]\<rparr>) 0 [] [] sample_discovery))"
proof -
  let ?os = "sample_discovery_os\<lparr>do_recv := [Received (query_bytes 9) sample_address]\<rparr>"
  have "0 \<le> ds_listener sample_discovery" "0 \<le> ds_query sample_discovery" "ds_nonce sample_discovery = 9"
      "0 - ds_lastQuery sample_discovery < 2000"
    by (simp_all add: sample_discovery_def new_discovery_def)
  note d = this
  have bind: "take 4 (ho_bind default_host) = ''127.'' \<longrightarrow> drop_bit 24 (sin_addr sample_address) = 127"
    by (simp add: default_host_def)
  have recv: "do_recv ?os = [Received (query_bytes 9) sample_address]" by simp
  obtain reply where r: "0 \<le> ds_query b \<and> ds_nonce b = 9 \<and> now - ds_lastQuery b < 2000
      \<and> do_recv os' = [Received reply src] \<and> length rooms < 64
      \<longrightarrow> announced (fst (fz_server_get_status sample_hosted)) default_host now src
        \<in> set (fst (scan os' now rooms warning b))" for os' b src now rooms warning
    using discovery_round_trip [OF hosted_reachable refl hosted_status d(1) bind recv] by blast
  show ?thesis
    using r [of sample_discovery 0 "sample_discovery_os\<lparr>do_recv := [Received reply sample_address]\<rparr>"
        sample_address "[]"] d
    by (intro exI [of _ reply]) simp
qed

end
