(* ===== verification/Spec2Isabelle.thy ===== *)
theory Spec2Isabelle
  imports Fz_Server_Witness Fz_Client_Witness Fz_Presentation_Props Fz_Main_Options Fz_Session_Witness
begin

text \<open>
  \<^bold>\<open>A verification development for F-Zero VS\<close>, a system that lets up to four players race F-Zero against
  each other over UDP. All of its own C and C++ code is modelled: \<^verbatim>\<open>shared/\<close>, \<^verbatim>\<open>server/\<close> and
  \<^verbatim>\<open>client/\<close> under \<^verbatim>\<open>src/\<close>.

  \<^bold>\<open>The program.\<close> A \<^emph>\<open>race server\<close> (\<^verbatim>\<open>server/src/server.c\<close>) keeps one room: four slots of players, the
  phases lobby, loading, countdown, racing and results, and an event log. It runs either in the
  standalone program \<^verbatim>\<open>server/src/main.c\<close> or inside a client that hosts. A \<^emph>\<open>client\<close>
  (\<^verbatim>\<open>client/fzvs_client.cpp\<close>) sits in an emulator: it exchanges packets of \<^verbatim>\<open>shared/fzvs_protocol.h\<close> with the
  server, reads and writes the console's memory once per frame, and patches the cartridge image while
  it plays. A \<^emph>\<open>session\<close> (\<^verbatim>\<open>client/fzvs_session.cpp\<close>) lets the front end host, join, browse and stop; a
  worker thread owns the hosted server, the LAN discovery sockets and the lookup of addresses. The front
  end shows what \<^verbatim>\<open>client/fzvs_presentation.hpp\<close> makes of the client's view.

  \<^bold>\<open>How code becomes definitions.\<close> A struct is a record with the fields' names behind a short prefix
  (\<open>p_\<close> players, \<open>s_\<close> server, \<open>cl_\<close> client, \<open>wk_\<close> worker, \<open>ss_\<close> session, \<open>ds_\<close> discovery and so on), an enum
  or tagged union a datatype, a fixed-width integer a word, a \<open>double\<close> a rational on which every
  operation rounds as binary64 does (\<open>Fz_Double\<close>). A function or method is a definition of the same name
  that takes the state and returns the new one; a failing branch is a value (\<open>None\<close> or \<open>Inl\<close>). The
  world is an argument: clock readings, random draws, results of socket calls, files and lookups are read
  from records such as \<open>io\<close>, \<open>poll_env\<close>, \<open>discovery_os\<close> and \<open>session_os\<close>, and the theorems hold for all
  of them. Datagrams handed to the network are collected in the state.

  \<^bold>\<open>The theories.\<close>
  \<^item> \<open>Fz_Prelude\<close>: word types, theorem collections, the locales \<open>le_field\<close> and \<open>wire_codec\<close> for wire formats,
    and facts on words, lists and the four player slots. \<open>Fz_Double\<close>: binary64. \<open>Fz_Text\<close>: C strings and
    decimal numerals.
  \<^item> \<open>Fz_Protocol\<close>: packets, encoder and decoder, serial numbers. Decoding is exactly the inverse of encoding.
  \<^item> \<open>Fz_Events\<close>: the event ring, shown to be a bounded queue (locale \<open>bounded_log\<close>).
  \<^item> \<open>Fz_Server\<close>, \<open>Fz_Server_Loop\<close>: the server's state and operations, creation, polling, status, shutdown.
    \<open>Fz_Server_Game\<close> and \<open>Fz_Server_Frame\<close> say what each operation does to the game and what it leaves
    alone (locales \<open>acts_as\<close> and \<open>framed\<close>); \<open>Fz_Server_Run\<close> has the reachable states and the obligations of
    an invariant (locale \<open>server_safety\<close>), which \<open>Fz_Server_Inv\<close>, \<open>Fz_Server_Time\<close>, \<open>Fz_Server_Log\<close>,
    \<open>Fz_Link\<close> and \<open>Fz_Discovery_Props\<close> discharge for the room, the clock, the log, the session number and
    the port. \<open>Fz_Server_Steps\<close>, \<open>Fz_Server_Props\<close> and \<open>Fz_Server_Props2\<close> prove the promises: consistency in
    every run, commands executed exactly once, newest movement wins, the barriers of a race, admission,
    departures, shutdown and bounded polling. \<open>Fz_Server_Life\<close> has an abstract room, a phase and the seats
    taken with labelled steps, and that every polling call refines it. \<open>Fz_Server_Create\<close> says without the
    server's own tests which configurations it accepts. \<open>Fz_Server_Gap\<close> is a run that leaves a player in a
    seat beyond the size of the room.
  \<^item> \<open>Fz_Main\<close>, \<open>Fz_Main_Props\<close>, \<open>Fz_Main_Options\<close>: the standalone program. Its two logs agree and its JSON
    reads back, its command line reaches exactly the runnable options, it leaves no server open.
  \<^item> \<open>Fz_Memory\<close>, \<open>Fz_Client\<close>, \<open>Fz_Client_Title\<close>, \<open>Fz_Client_Render\<close>, \<open>Fz_Client_Net\<close>, \<open>Fz_Client_Frame\<close>,
    \<open>Fz_Client_Overlay\<close>: the client. \<open>Fz_Client_Run\<close> has its runs; \<open>Fz_Client_Inv\<close>, \<open>Fz_Client_Rom\<close>,
    \<open>Fz_Title_Spec\<close>, \<open>Fz_Client_Smooth\<close> and \<open>Fz_Client_Props\<close> prove that its state stays in range, that the
    cartridge image is always given back unchanged, what the title menu shows, that opponents move smoothly,
    and that drawing stays inside the frame buffer.
  \<^item> \<open>Fz_Link\<close>: client and server together: the way to a seat, the delivery of commands, the mirroring of snapshots.
  \<^item> \<open>Fz_Presentation\<close>, \<open>Fz_Presentation_Props\<close>: what the front end shows, and that what it offers the host is
    accepted as long as everybody sits below the size of the room. The last theorem of the latter is about
    the other rooms, which the server can reach: there the front end overlooks a player.
  \<^item> \<open>Fz_Resolve\<close>, \<open>Fz_Discovery\<close>, \<open>Fz_Session\<close>: reading addresses, discovery, the session and its worker.
    \<open>Fz_Session_Run\<close> puts the threads together as a step relation: the calls of the front end, the worker's
    loop cut where it takes the mutex or reads an atomic flag, and lookups that finish. \<open>Fz_Session_Inv\<close>,
    \<open>Fz_Session_Props\<close>, \<open>Fz_Session_Shutdown\<close> and \<open>Fz_Discovery_Props\<close> prove that a connection always answers
    the newest request, that everything the session keeps is bounded, that the worker ends when it is asked
    to, and that what a host announces is what a browser lists.
  \<^item> The theories named \<open>Sample\<close> and \<open>Witness\<close> have concrete runs on which the theorems are applied.

  \<^bold>\<open>Bounds and fuel.\<close> No definition needs fuel. The loops over packets have the bounds of the source (128
  for the server, 32 and 64 for discovery) as a structurally decreasing number; the log readers terminate
  because the ring shrinks; the standalone program's loop recurs over the rounds that start before a signal.
  Where a counter can wrap around, the word type says so; the theorem on connections assumes fewer than
  \<open>2 ^ 64\<close> requests, those on the server's clock a clock that does not run backwards.

  \<^bold>\<open>Not modelled.\<close> The patches against the ares emulator (\<^verbatim>\<open>patches/\<close>), which are GUI and glue code of a
  third-party program; the scripts, tools and tests in other languages; the operating system's sockets,
  resolver, files, threads and signals, which are arguments of the model; the buffering modes of streams; data
  races, which the mutex of the source excludes. Of the memory of a destroyed server only its closing is kept;
  the descriptor that a failed creation closes and the removal of a ready file leave no trace in the state. The
  client is modelled where its code has a meaning in C++: baseline mode, in which it has no player number,
  is not switched while a game is attached, and no key longer than 64 bytes is set then (\<open>may_configure\<close>).
  The room key and texts are byte strings; texts outside ASCII are their UTF-8 encoding.
\<close>

end
